theory Spec2Isabelle
  imports Complex_Main "HOL-Library.Signed_Division" "HOL-Library.Word"
begin

section \<open>Dense Inverse Search optical flow: the embedding\<close>

text \<open>
  The definitions below follow \<open>DISOpticalFlowImpl\<close>. C++ \<open>int\<close> is modelled as
  \<open>int\<close>; \<open>/\<close> and \<open>%\<close> on \<open>int\<close> truncate towards zero and are written \<open>sdiv\<close> and
  \<open>smod\<close>. A behaviour that C++ leaves undefined (division by zero, a read at index
  \<open>-1\<close>) is the outcome \<open>Undefined\<close>; the two exceptions raised by \<open>CV_Assert\<close> and
  \<open>CV_Error\<close> are \<open>StsAssert\<close> and \<open>StsBadSize\<close>.
\<close>

datatype failure = StsAssert | StsBadSize | Undefined

subsection \<open>Algorithm parameters\<close>

text \<open>
  The fields of the class that the modelled functions read or write: the scales, the patch
  geometry, and the flow and sparse-flow dimensions \<open>w\<close>, \<open>h\<close>, \<open>ws\<close>, \<open>hs\<close> of the
  current scale.
\<close>

record dis_params =
  finest_scale :: int
  coarsest_scale :: int
  patch_size :: int
  patch_stride :: int
  border_size :: int
  w :: int
  h :: int
  ws :: int
  hs :: int

text \<open>The values set by the constructor \<open>DISOpticalFlowImpl()\<close>.\<close>

definition DISOpticalFlowImpl :: dis_params where
  "DISOpticalFlowImpl =
     \<lparr>finest_scale = 2, coarsest_scale = 10, patch_size = 8, patch_stride = 4,
      border_size = 16, w = 0, h = 0, ws = 0, hs = 0\<rparr>"

subsection \<open>prepareBuffers: the dimensions of the pyramid\<close>

text \<open>
  Only the dimensions of the buffers are modelled: their contents come from \<open>resize\<close>,
  \<open>copyMakeBorder\<close> and \<open>spatialGradient\<close>, which are not part of this file. A
  dimension is the pair (rows, cols); a default-constructed \<open>Mat\<close> is \<open>(0, 0)\<close>. The
  vector \<open>variational_refinement_processors\<close> is modelled by its number of elements: the
  constructor pushes \<open>max_possible_scales = 10\<close> of them, \<open>collectGarbage\<close> clears the
  vector, and nothing else changes it.
\<close>

type_synonym msize = "int \<times> int"

record pb_state =
  I0s :: "msize list"
  I1s :: "msize list"
  I1s_ext :: "msize list"
  I0xs :: "msize list"
  I0ys :: "msize list"
  Ux :: "msize list"
  Uy :: "msize list"
  Sx :: msize
  Sy :: msize
  variational_refinement_processors :: nat
  fraction :: int
  cur_rows :: int
  cur_cols :: int

text \<open>\<open>std::vector::resize\<close>: keeps the old elements, pads with empty matrices.\<close>

definition vec_resize :: "nat \<Rightarrow> msize list \<Rightarrow> msize list" where
  "vec_resize n xs = take n xs @ replicate (n - length xs) (0, 0)"

text \<open>One iteration of \<open>for (int i = 0; i <= coarsest_scale; i++)\<close>.\<close>

definition pb_level :: "dis_params \<Rightarrow> msize \<Rightarrow> nat \<Rightarrow> pb_state \<Rightarrow> failure + pb_state" where
  "pb_level p I0 i s =
     (if int i = finest_scale p then
        (if fraction s = 0 \<or> patch_stride p = 0 then Inl Undefined
         else
           let cr = fst I0 sdiv fraction s; cc = snd I0 sdiv fraction s
           in Inr (s\<lparr>cur_rows := cr, cur_cols := cc,
                     I0s := (I0s s)[i := (cr, cc)], I1s := (I1s s)[i := (cr, cc)],
                     Sx := (cr sdiv patch_stride p, cc sdiv patch_stride p),
                     Sy := (cr sdiv patch_stride p, cc sdiv patch_stride p)\<rparr>))
      else if finest_scale p < int i then
        (if i = 0 then Inl Undefined
         else
           let cr = fst (I0s s ! (i - 1)) sdiv 2; cc = snd (I0s s ! (i - 1)) sdiv 2
           in Inr (s\<lparr>cur_rows := cr, cur_cols := cc,
                     I0s := (I0s s)[i := (cr, cc)], I1s := (I1s s)[i := (cr, cc)]\<rparr>))
      else Inr s)"

text \<open>
  The block \<open>if (i >= finest_scale)\<close>. It configures
  \<open>variational_refinement_processors[i]\<close>; \<open>operator[]\<close> of a \<open>std::vector\<close> does not check
  its index, so the access is undefined when the vector has no element \<open>i\<close>.
\<close>

definition pb_borders :: "dis_params \<Rightarrow> nat \<Rightarrow> pb_state \<Rightarrow> failure + pb_state" where
  "pb_borders p i s =
     (if finest_scale p \<le> int i then
        (if variational_refinement_processors s \<le> i then Inl Undefined
         else
           Inr (s\<lparr>I1s_ext := (I1s_ext s)[i := (cur_rows s + 2 * border_size p,
                                                cur_cols s + 2 * border_size p)],
                  I0xs := (I0xs s)[i := (cur_rows s, cur_cols s)],
                  I0ys := (I0ys s)[i := (cur_rows s, cur_cols s)],
                  Ux := (Ux s)[i := (cur_rows s, cur_cols s)],
                  Uy := (Uy s)[i := (cur_rows s, cur_cols s)]\<rparr>))
      else Inr s)"

text \<open>\<open>fraction *= 2\<close> on a 32-bit \<open>int\<close>, with the wrap-around of two's complement.\<close>

definition pb_body :: "dis_params \<Rightarrow> msize \<Rightarrow> nat \<Rightarrow> pb_state \<Rightarrow> failure + pb_state" where
  "pb_body p I0 i s =
     (case pb_level p I0 i s of
        Inl e \<Rightarrow> Inl e
      | Inr s1 \<Rightarrow>
          (case pb_borders p i s1 of
             Inl e \<Rightarrow> Inl e
           | Inr s2 \<Rightarrow> Inr (s2\<lparr>fraction := signed_take_bit 31 (fraction s2 * 2)\<rparr>)))"

fun pb_loop :: "dis_params \<Rightarrow> msize \<Rightarrow> nat list \<Rightarrow> pb_state \<Rightarrow> failure + pb_state" where
  "pb_loop p I0 [] s = Inr s"
| "pb_loop p I0 (i # js) s =
     (case pb_body p I0 i s of Inl e \<Rightarrow> Inl e | Inr s' \<Rightarrow> pb_loop p I0 js s')"

text \<open>
  \<open>prepareBuffers\<close>, given the dimensions of the input image \<open>I0\<close> and the buffers left
  by an earlier call. A negative \<open>coarsest_scale + 1\<close> makes \<open>resize\<close> throw.
\<close>

definition prepareBuffers :: "dis_params \<Rightarrow> msize \<Rightarrow> pb_state \<Rightarrow> failure + pb_state" where
  "prepareBuffers p I0 old =
     (if coarsest_scale p + 1 < 0 then Inl Undefined
      else
        let n = nat (coarsest_scale p + 1)
        in pb_loop p I0 [0..<n]
             (old\<lparr>I0s := vec_resize n (I0s old), I1s := vec_resize n (I1s old),
                  I1s_ext := vec_resize n (I1s_ext old),
                  I0xs := vec_resize n (I0xs old), I0ys := vec_resize n (I0ys old),
                  Ux := vec_resize n (Ux old), Uy := vec_resize n (Uy old),
                  fraction := 1, cur_rows := 0, cur_cols := 0\<rparr>))"

text \<open>
  The buffers of a freshly constructed object: the vectors of matrices are empty, and there
  are ten variational refinement processors.
\<close>

definition no_buffers :: pb_state where
  "no_buffers =
     \<lparr>I0s = [], I1s = [], I1s_ext = [], I0xs = [], I0ys = [], Ux = [], Uy = [],
      Sx = (0, 0), Sy = (0, 0), variational_refinement_processors = 10,
      fraction = 0, cur_rows = 0, cur_cols = 0\<rparr>"

subsection \<open>The loop invariant of prepareBuffers\<close>

text \<open>Halving a dimension, and what holds after the first \<open>n\<close> levels have been visited.\<close>

definition half :: "msize \<Rightarrow> msize" where
  "half d = (fst d div 2, snd d div 2)"

definition pb_inv :: "dis_params \<Rightarrow> msize \<Rightarrow> nat \<Rightarrow> pb_state \<Rightarrow> bool" where
  "pb_inv p I0 n s \<longleftrightarrow>
     length (I0s s) = nat (coarsest_scale p + 1) \<and>
     nat (coarsest_scale p + 1) \<le> variational_refinement_processors s \<and>
     fraction s = signed_take_bit 31 (2 ^ n) \<and>
     (nat (finest_scale p) < n \<longrightarrow>
        I0s s ! nat (finest_scale p) =
          (fst I0 div 2 ^ nat (finest_scale p), snd I0 div 2 ^ nat (finest_scale p)) \<and>
        (\<forall>i. nat (finest_scale p) \<le> i \<and> Suc i < n \<longrightarrow> I0s s ! Suc i = half (I0s s ! i)) \<and>
        (\<forall>i. nat (finest_scale p) \<le> i \<and> i < n \<longrightarrow> 0 \<le> fst (I0s s ! i) \<and> 0 \<le> snd (I0s s ! i)))"


subsection \<open>calc: the checks before the pyramid is built\<close>

text \<open>
  An \<open>InputArray\<close> is modelled by the header fields that \<open>calc\<close> inspects and by its
  buffer \<open>data\<close> (the contents, or the address of the allocation). A matrix is empty
  when it has no element; \<open>create\<close> on a matrix of another size or type releases the
  buffer and allocates a new, uninitialised one, here supplied as \<open>fresh\<close>.
\<close>

datatype cv_depth = CV_8U | CV_8S | CV_16U | CV_16S | CV_32S | CV_32F | CV_64F | CV_16F

record 'a mat =
  rows :: int
  cols :: int
  depth :: cv_depth
  channels :: int
  isContinuous :: bool
  data :: 'a

definition mat_empty :: "'a mat \<Rightarrow> bool" where
  "mat_empty m \<longleftrightarrow> rows m * cols m = 0"

definition sameSize :: "'a mat \<Rightarrow> 'b mat \<Rightarrow> bool" where
  "sameSize a b \<longleftrightarrow> rows a = rows b \<and> cols a = cols b"

definition mat_create :: "int \<Rightarrow> int \<Rightarrow> cv_depth \<Rightarrow> int \<Rightarrow> 'a \<Rightarrow> 'a mat" where
  "mat_create r c d ch fresh =
     \<lparr>rows = r, cols = c, depth = d, channels = ch, isContinuous = True, data = fresh\<rparr>"

text \<open>
  The conversion \<open>(int)x\<close> of a finite \<open>double\<close> truncates towards zero. The doubles of
  \<open>calc\<close> are taken as reals: the only values the claims depend on are the signs of the
  two logarithmic terms, which are far from a rounding boundary.
\<close>

definition c_trunc :: "real \<Rightarrow> int" where
  "c_trunc x = (if 0 \<le> x then \<lfloor>x\<rfloor> else \<lceil>x\<rceil>)"

text \<open>
  The two arguments of \<open>min\<close> in
  \<^verbatim>\<open>coarsest_scale = min((int)(log(max(cols, rows) / (4.0 * patch_size)) / log(2.0) + 0.5),
                       (int)(log(min(cols, rows) / patch_size) / log(2.0)));\<close>
  The quotient of the second is an integer division: it is \<open>0\<close> for an image smaller than
  the patch, \<open>log(0)\<close> is \<open>-\<infinity>\<close>, and its conversion to \<open>int\<close> (undefined in C++) gives
  \<open>INT_MIN\<close> on x86-64 and on AArch64; that is the value modelled.
\<close>

definition log_max_term :: "int \<Rightarrow> int \<Rightarrow> int \<Rightarrow> int" where
  "log_max_term c r psz =
     c_trunc (ln (real_of_int (max c r) / (4 * real_of_int psz)) / ln 2 + 1 / 2)"

definition log_min_term :: "int \<Rightarrow> int \<Rightarrow> int \<Rightarrow> int" where
  "log_min_term c r psz =
     (let q = min c r sdiv psz
      in if q = 0 then - (2 ^ 31) else c_trunc (ln (real_of_int q) / ln 2))"

text \<open>
  \<open>calc\<close> up to the size check. The result is \<open>Inl\<close> with the failure, the parameters and
  the caller's flow array as they are when it is raised, or \<open>Inr\<close> with the parameters,
  the flow array and \<open>use_input_flow\<close> as \<open>prepareBuffers\<close> receives them. A patch size
  that is not positive makes the computation of \<open>coarsest_scale\<close> undefined (a division
  by zero, or the logarithm of a negative number).
\<close>

definition calc_validate ::
  "dis_params \<Rightarrow> 'a mat \<Rightarrow> 'a mat \<Rightarrow> 'b mat \<Rightarrow> 'b \<Rightarrow>
     failure \<times> dis_params \<times> 'b mat + dis_params \<times> 'b mat \<times> bool" where
  "calc_validate p I0 I1 flow fresh =
     (if \<not> (\<not> mat_empty I0 \<and> depth I0 = CV_8U \<and> channels I0 = 1) then Inl (StsAssert, p, flow)
      else if \<not> (\<not> mat_empty I1 \<and> depth I1 = CV_8U \<and> channels I1 = 1) then Inl (StsAssert, p, flow)
      else if \<not> sameSize I0 I1 then Inl (StsAssert, p, flow)
      else if \<not> isContinuous I0 then Inl (StsAssert, p, flow)
      else if \<not> isContinuous I1 then Inl (StsAssert, p, flow)
      else
        let use_input_flow = (sameSize flow I0 \<and> depth flow = CV_32F \<and> channels flow = 2);
            flow1 = (if use_input_flow then flow
                     else mat_create (rows I1) (cols I1) CV_32F 2 fresh)
        in if patch_size p \<le> 0 then Inl (Undefined, p, flow1)
           else
             let p1 = p\<lparr>coarsest_scale :=
                        min (log_max_term (cols I0) (rows I0) (patch_size p))
                            (log_min_term (cols I0) (rows I0) (patch_size p))\<rparr>
             in if coarsest_scale p1 < 0 then Inl (StsBadSize, p1, flow1)
                else Inr (p1, flow1, use_input_flow))"

text \<open>
  The hypotheses of the claims: a well-formed matrix has non-negative dimensions; valid
  images are non-empty, 8-bit, single-channel, of equal size and continuous; the caller's
  flow is reused when it is a two-channel float array of the size of the images.
\<close>

definition wf_mat :: "'a mat \<Rightarrow> bool" where
  "wf_mat m \<longleftrightarrow> 0 \<le> rows m \<and> 0 \<le> cols m"

definition gray :: "int \<Rightarrow> int \<Rightarrow> 'a \<Rightarrow> 'a mat" where
  "gray r c d = \<lparr>rows = r, cols = c, depth = CV_8U, channels = 1, isContinuous = True, data = d\<rparr>"

definition valid_images :: "'a mat \<Rightarrow> 'a mat \<Rightarrow> bool" where
  "valid_images I0 I1 \<longleftrightarrow>
     \<not> mat_empty I0 \<and> depth I0 = CV_8U \<and> channels I0 = 1 \<and>
     \<not> mat_empty I1 \<and> depth I1 = CV_8U \<and> channels I1 = 1 \<and>
     sameSize I0 I1 \<and> isContinuous I0 \<and> isContinuous I1"

definition flow_usable :: "'b mat \<Rightarrow> 'a mat \<Rightarrow> bool" where
  "flow_usable flow I0 \<longleftrightarrow> sameSize flow I0 \<and> depth flow = CV_32F \<and> channels flow = 2"

subsection \<open>Single-precision arithmetic\<close>

text \<open>
  A \<open>float\<close> is modelled by the real number it denotes (infinities and NaN apart), and an
  operation on floats by the exact operation followed by a rounding. The rounding is a
  parameter of every function that computes in \<open>float\<close>: \<open>exact\<close> is arithmetic without
  rounding error, \<open>binary32\<close> is IEEE 754 single precision, round to nearest, ties to
  even (overflow to infinity is not modelled).
\<close>

type_synonym rounding = "real \<Rightarrow> real"

definition exact :: rounding where
  "exact x = x"

definition pow2 :: "int \<Rightarrow> real" where
  "pow2 e = (if 0 \<le> e then 2 ^ nat e else 1 / 2 ^ nat (- e))"

text \<open>The nearest integer, the even one of the two when \<open>x\<close> lies half-way.\<close>

definition rne :: "real \<Rightarrow> int" where
  "rne x =
     (let f = \<lfloor>x\<rfloor>; d = x - real_of_int f
      in if d < 1 / 2 then f else if 1 / 2 < d then f + 1 else if even f then f else f + 1)"

text \<open>
  The exponent of the unit in the last place at magnitude \<open>a\<close>: the least \<open>e\<close>, from
  \<open>-149\<close> (the subnormal numbers) up to \<open>104\<close>, with \<open>a < 2 ^ (e + 24)\<close>.
\<close>

fun ulp_exp :: "nat \<Rightarrow> int \<Rightarrow> real \<Rightarrow> int" where
  "ulp_exp 0 e a = e"
| "ulp_exp (Suc n) e a = (if a < pow2 (e + 24) then e else ulp_exp n (e + 1) a)"

definition binary32 :: rounding where
  "binary32 x = (let e = ulp_exp 253 (- 149) \<bar>x\<bar> in real_of_int (rne (x / pow2 e)) * pow2 e)"

definition fadd :: "rounding \<Rightarrow> real \<Rightarrow> real \<Rightarrow> real" where
  "fadd rnd a b = rnd (a + b)"

definition fsub :: "rounding \<Rightarrow> real \<Rightarrow> real \<Rightarrow> real" where
  "fsub rnd a b = rnd (a - b)"

definition fmul :: "rounding \<Rightarrow> real \<Rightarrow> real \<Rightarrow> real" where
  "fmul rnd a b = rnd (a * b)"

definition fdiv :: "rounding \<Rightarrow> real \<Rightarrow> real \<Rightarrow> real" where
  "fdiv rnd a b = rnd (a / b)"

text \<open>The conversion \<open>(float)k\<close> of an integer.\<close>

definition fcvt :: "rounding \<Rightarrow> int \<Rightarrow> real" where
  "fcvt rnd k = rnd (real_of_int k)"


subsection \<open>The patch functions: the scalar path\<close>

text \<open>
  A pointer is modelled by the memory seen from it: \<open>I0_ptr k\<close> is \<open>I0_ptr[k]\<close>. Pixels
  are \<open>uchar\<close> (read by \<open>uint\<close>), gradients are \<open>short\<close> (read by \<open>sint\<close>). The value
  \<open>diff\<close> of the three inner loops, with the additions in the order of the source:
  \<^verbatim>\<open>diff = w00 * I1_ptr[i * I1_stride + j] + w01 * I1_ptr[i * I1_stride + j + 1] +
         w10 * I1_ptr[(i + 1) * I1_stride + j] + w11 * I1_ptr[(i + 1) * I1_stride + j + 1] -
         I0_ptr[i * I0_stride + j];\<close>
\<close>

definition patch_diff ::
  "rounding \<Rightarrow> (int \<Rightarrow> 8 word) \<Rightarrow> (int \<Rightarrow> 8 word) \<Rightarrow> int \<Rightarrow> int \<Rightarrow>
     real \<Rightarrow> real \<Rightarrow> real \<Rightarrow> real \<Rightarrow> int \<Rightarrow> int \<Rightarrow> real" where
  "patch_diff rnd I0_ptr I1_ptr I0_stride I1_stride w00 w01 w10 w11 i j =
     fsub rnd
       (fadd rnd
          (fadd rnd
             (fadd rnd (fmul rnd w00 (fcvt rnd (uint (I1_ptr (i * I1_stride + j)))))
                       (fmul rnd w01 (fcvt rnd (uint (I1_ptr (i * I1_stride + j + 1))))))
             (fmul rnd w10 (fcvt rnd (uint (I1_ptr ((i + 1) * I1_stride + j))))))
          (fmul rnd w11 (fcvt rnd (uint (I1_ptr ((i + 1) * I1_stride + j + 1))))))
       (fcvt rnd (uint (I0_ptr (i * I0_stride + j))))"

text \<open>
  The scalar loops of \<open>processPatch\<close>, \<open>computeSSD\<close> and \<open>computeSSDMeanNorm\<close>. The
  result of \<open>processPatch\<close> is the triple \<open>(SSD, dst_dUx, dst_dUy)\<close>.
\<close>

definition processPatch_scalar ::
  "rounding \<Rightarrow> (int \<Rightarrow> 8 word) \<Rightarrow> (int \<Rightarrow> 8 word) \<Rightarrow> (int \<Rightarrow> 16 word) \<Rightarrow> (int \<Rightarrow> 16 word) \<Rightarrow>
     int \<Rightarrow> int \<Rightarrow> real \<Rightarrow> real \<Rightarrow> real \<Rightarrow> real \<Rightarrow> int \<Rightarrow> real \<times> real \<times> real" where
  "processPatch_scalar rnd I0_ptr I1_ptr I0x_ptr I0y_ptr I0_stride I1_stride w00 w01 w10 w11 patch_sz =
     fold (\<lambda>i. fold (\<lambda>j (SSD, dst_dUx, dst_dUy).
             let diff = patch_diff rnd I0_ptr I1_ptr I0_stride I1_stride w00 w01 w10 w11 (int i) (int j)
             in (fadd rnd SSD (fmul rnd diff diff),
                 fadd rnd dst_dUx (fmul rnd diff (fcvt rnd (sint (I0x_ptr (int i * I0_stride + int j))))),
                 fadd rnd dst_dUy (fmul rnd diff (fcvt rnd (sint (I0y_ptr (int i * I0_stride + int j)))))))
           [0..<nat patch_sz])
       [0..<nat patch_sz] (0, 0, 0)"

definition computeSSD_scalar ::
  "rounding \<Rightarrow> (int \<Rightarrow> 8 word) \<Rightarrow> (int \<Rightarrow> 8 word) \<Rightarrow> int \<Rightarrow> int \<Rightarrow>
     real \<Rightarrow> real \<Rightarrow> real \<Rightarrow> real \<Rightarrow> int \<Rightarrow> real" where
  "computeSSD_scalar rnd I0_ptr I1_ptr I0_stride I1_stride w00 w01 w10 w11 patch_sz =
     fold (\<lambda>i. fold (\<lambda>j SSD.
             let diff = patch_diff rnd I0_ptr I1_ptr I0_stride I1_stride w00 w01 w10 w11 (int i) (int j)
             in fadd rnd SSD (fmul rnd diff diff))
           [0..<nat patch_sz])
       [0..<nat patch_sz] 0"

text \<open>The pair \<open>(sum_diff, sum_diff_sq)\<close> of \<open>computeSSDMeanNorm\<close>.\<close>

definition meanNorm_sums_scalar ::
  "rounding \<Rightarrow> (int \<Rightarrow> 8 word) \<Rightarrow> (int \<Rightarrow> 8 word) \<Rightarrow> int \<Rightarrow> int \<Rightarrow>
     real \<Rightarrow> real \<Rightarrow> real \<Rightarrow> real \<Rightarrow> int \<Rightarrow> real \<times> real" where
  "meanNorm_sums_scalar rnd I0_ptr I1_ptr I0_stride I1_stride w00 w01 w10 w11 patch_sz =
     fold (\<lambda>i. fold (\<lambda>j (sum_diff, sum_diff_sq).
             let diff = patch_diff rnd I0_ptr I1_ptr I0_stride I1_stride w00 w01 w10 w11 (int i) (int j)
             in (fadd rnd sum_diff diff, fadd rnd sum_diff_sq (fmul rnd diff diff)))
           [0..<nat patch_sz])
       [0..<nat patch_sz] (0, 0)"

subsection \<open>The patch functions: the vectorised path for 8 by 8 patches\<close>

text \<open>
  Modelled from the documented meaning of the universal intrinsics, whose header
  \<open>opencv2/core/hal/intrin.hpp\<close> is not among the sources: a \<open>v_float32x4\<close> is four
  floats, \<open>+\<close>, \<open>-\<close> and \<open>*\<close> work lane by lane, \<open>v_load_expand\<close> followed by \<open>v_expand\<close>
  widens eight pixels into a left and a right vector of four, \<open>v_cvt_f32\<close> converts each
  lane, and \<open>v_reduce_sum\<close> adds the four lanes, in an order that depends on the target
  (lanes 0+2 and 1+3 first with SSE2, lanes 0+1 and 2+3 first with NEON).
\<close>

type_synonym 'a x4 = "'a \<times> 'a \<times> 'a \<times> 'a"

datatype simd_target = SSE2 | NEON

definition v_setall_f32 :: "real \<Rightarrow> real x4" where
  "v_setall_f32 x = (x, x, x, x)"

fun v_add :: "rounding \<Rightarrow> real x4 \<Rightarrow> real x4 \<Rightarrow> real x4" where
  "v_add rnd (a0, a1, a2, a3) (b0, b1, b2, b3) =
     (fadd rnd a0 b0, fadd rnd a1 b1, fadd rnd a2 b2, fadd rnd a3 b3)"

fun v_sub :: "rounding \<Rightarrow> real x4 \<Rightarrow> real x4 \<Rightarrow> real x4" where
  "v_sub rnd (a0, a1, a2, a3) (b0, b1, b2, b3) =
     (fsub rnd a0 b0, fsub rnd a1 b1, fsub rnd a2 b2, fsub rnd a3 b3)"

fun v_mul :: "rounding \<Rightarrow> real x4 \<Rightarrow> real x4 \<Rightarrow> real x4" where
  "v_mul rnd (a0, a1, a2, a3) (b0, b1, b2, b3) =
     (fmul rnd a0 b0, fmul rnd a1 b1, fmul rnd a2 b2, fmul rnd a3 b3)"

fun v_cvt_f32 :: "rounding \<Rightarrow> int x4 \<Rightarrow> real x4" where
  "v_cvt_f32 rnd (a0, a1, a2, a3) = (fcvt rnd a0, fcvt rnd a1, fcvt rnd a2, fcvt rnd a3)"

fun v_reduce_sum :: "rounding \<Rightarrow> simd_target \<Rightarrow> real x4 \<Rightarrow> real" where
  "v_reduce_sum rnd SSE2 (a0, a1, a2, a3) = fadd rnd (fadd rnd a0 a2) (fadd rnd a1 a3)"
| "v_reduce_sum rnd NEON (a0, a1, a2, a3) = fadd rnd (fadd rnd a0 a1) (fadd rnd a2 a3)"

text \<open>Four pixels, and four gradient values, from offset \<open>p\<close> on, widened to \<open>int\<close>.\<close>

definition load_u8x4 :: "(int \<Rightarrow> 8 word) \<Rightarrow> int \<Rightarrow> int x4" where
  "load_u8x4 m p = (uint (m p), uint (m (p + 1)), uint (m (p + 2)), uint (m (p + 3)))"

definition load_s16x4 :: "(int \<Rightarrow> 16 word) \<Rightarrow> int \<Rightarrow> int x4" where
  "load_s16x4 m p = (sint (m p), sint (m (p + 1)), sint (m (p + 2)), sint (m (p + 3)))"

text \<open>
  The variables of the three macros. \<open>I0_off\<close> and \<open>I1_off\<close> are the distances that
  \<open>I0_ptr\<close> and \<open>I1_ptr\<close> have advanced.
\<close>

record hal_state =
  I0_off :: int
  I1_off :: int
  I1_row_4_left :: "int x4"
  I1_row_4_right :: "int x4"
  I1_row_shifted_4_left :: "int x4"
  I1_row_shifted_4_right :: "int x4"
  I1_row_next_4_left :: "int x4"
  I1_row_next_4_right :: "int x4"
  I1_row_next_shifted_4_left :: "int x4"
  I1_row_next_shifted_4_right :: "int x4"
  I_diff_left :: "real x4"
  I_diff_right :: "real x4"

definition HAL_INIT_BILINEAR_8x8_PATCH_EXTRACTION :: "(int \<Rightarrow> 8 word) \<Rightarrow> int \<Rightarrow> hal_state" where
  "HAL_INIT_BILINEAR_8x8_PATCH_EXTRACTION I1_ptr I1_stride =
     \<lparr>I0_off = 0, I1_off = I1_stride,
      I1_row_4_left = load_u8x4 I1_ptr 0, I1_row_4_right = load_u8x4 I1_ptr 4,
      I1_row_shifted_4_left = load_u8x4 I1_ptr 1, I1_row_shifted_4_right = load_u8x4 I1_ptr 5,
      I1_row_next_4_left = (0, 0, 0, 0), I1_row_next_4_right = (0, 0, 0, 0),
      I1_row_next_shifted_4_left = (0, 0, 0, 0), I1_row_next_shifted_4_right = (0, 0, 0, 0),
      I_diff_left = (0, 0, 0, 0), I_diff_right = (0, 0, 0, 0)\<rparr>"

definition bilinear_x4 ::
  "rounding \<Rightarrow> real \<Rightarrow> real \<Rightarrow> real \<Rightarrow> real \<Rightarrow> int x4 \<Rightarrow> int x4 \<Rightarrow> int x4 \<Rightarrow> int x4 \<Rightarrow> int x4 \<Rightarrow> real x4" where
  "bilinear_x4 rnd w00 w01 w10 w11 row shifted nxt nxt_shifted I0_row =
     v_sub rnd
       (v_add rnd
          (v_add rnd
             (v_add rnd (v_mul rnd (v_setall_f32 w00) (v_cvt_f32 rnd row))
                        (v_mul rnd (v_setall_f32 w01) (v_cvt_f32 rnd shifted)))
             (v_mul rnd (v_setall_f32 w10) (v_cvt_f32 rnd nxt)))
          (v_mul rnd (v_setall_f32 w11) (v_cvt_f32 rnd nxt_shifted)))
       (v_cvt_f32 rnd I0_row)"

definition HAL_PROCESS_BILINEAR_8x8_PATCH_EXTRACTION ::
  "rounding \<Rightarrow> (int \<Rightarrow> 8 word) \<Rightarrow> (int \<Rightarrow> 8 word) \<Rightarrow> real \<Rightarrow> real \<Rightarrow> real \<Rightarrow> real \<Rightarrow>
     hal_state \<Rightarrow> hal_state" where
  "HAL_PROCESS_BILINEAR_8x8_PATCH_EXTRACTION rnd I0_ptr I1_ptr w00 w01 w10 w11 s =
     (let nl = load_u8x4 I1_ptr (I1_off s); nr = load_u8x4 I1_ptr (I1_off s + 4);
          nsl = load_u8x4 I1_ptr (I1_off s + 1); nsr = load_u8x4 I1_ptr (I1_off s + 5);
          I0_row_4_left = load_u8x4 I0_ptr (I0_off s);
          I0_row_4_right = load_u8x4 I0_ptr (I0_off s + 4)
      in s\<lparr>I1_row_next_4_left := nl, I1_row_next_4_right := nr,
            I1_row_next_shifted_4_left := nsl, I1_row_next_shifted_4_right := nsr,
            I_diff_left := bilinear_x4 rnd w00 w01 w10 w11 (I1_row_4_left s)
                             (I1_row_shifted_4_left s) nl nsl I0_row_4_left,
            I_diff_right := bilinear_x4 rnd w00 w01 w10 w11 (I1_row_4_right s)
                              (I1_row_shifted_4_right s) nr nsr I0_row_4_right\<rparr>)"

definition HAL_BILINEAR_8x8_PATCH_EXTRACTION_NEXT_ROW :: "int \<Rightarrow> int \<Rightarrow> hal_state \<Rightarrow> hal_state" where
  "HAL_BILINEAR_8x8_PATCH_EXTRACTION_NEXT_ROW I0_stride I1_stride s =
     s\<lparr>I0_off := I0_off s + I0_stride, I1_off := I1_off s + I1_stride,
       I1_row_4_left := I1_row_next_4_left s, I1_row_4_right := I1_row_next_4_right s,
       I1_row_shifted_4_left := I1_row_next_shifted_4_left s,
       I1_row_shifted_4_right := I1_row_next_shifted_4_right s\<rparr>"

text \<open>
  The loop \<open>for (int row = 0; row < 8; row++)\<close> of \<open>processPatch\<close>. Its state is the
  state of the macros, the distance by which \<open>I0x_ptr\<close> and \<open>I0y_ptr\<close> have advanced, and
  the accumulators \<open>Ux_vec\<close>, \<open>Uy_vec\<close>, \<open>SSD_vec\<close>.
\<close>

definition processPatch_row ::
  "rounding \<Rightarrow> (int \<Rightarrow> 8 word) \<Rightarrow> (int \<Rightarrow> 8 word) \<Rightarrow> (int \<Rightarrow> 16 word) \<Rightarrow> (int \<Rightarrow> 16 word) \<Rightarrow>
     int \<Rightarrow> int \<Rightarrow> real \<Rightarrow> real \<Rightarrow> real \<Rightarrow> real \<Rightarrow>
     hal_state \<times> int \<times> real x4 \<times> real x4 \<times> real x4 \<Rightarrow> hal_state \<times> int \<times> real x4 \<times> real x4 \<times> real x4" where
  "processPatch_row rnd I0_ptr I1_ptr I0x_ptr I0y_ptr I0_stride I1_stride w00 w01 w10 w11 =
     (\<lambda>(s, g_off, Ux_vec, Uy_vec, SSD_vec).
        let s1 = HAL_PROCESS_BILINEAR_8x8_PATCH_EXTRACTION rnd I0_ptr I1_ptr w00 w01 w10 w11 s;
            I0x_row_4_left = load_s16x4 I0x_ptr g_off; I0x_row_4_right = load_s16x4 I0x_ptr (g_off + 4);
            I0y_row_4_left = load_s16x4 I0y_ptr g_off; I0y_row_4_right = load_s16x4 I0y_ptr (g_off + 4);
            Ux1 = v_add rnd Ux_vec
                    (v_add rnd (v_mul rnd (I_diff_left s1) (v_cvt_f32 rnd I0x_row_4_left))
                               (v_mul rnd (I_diff_right s1) (v_cvt_f32 rnd I0x_row_4_right)));
            Uy1 = v_add rnd Uy_vec
                    (v_add rnd (v_mul rnd (I_diff_left s1) (v_cvt_f32 rnd I0y_row_4_left))
                               (v_mul rnd (I_diff_right s1) (v_cvt_f32 rnd I0y_row_4_right)));
            SSD1 = v_add rnd SSD_vec
                     (v_add rnd (v_mul rnd (I_diff_left s1) (I_diff_left s1))
                                (v_mul rnd (I_diff_right s1) (I_diff_right s1)))
        in (HAL_BILINEAR_8x8_PATCH_EXTRACTION_NEXT_ROW I0_stride I1_stride s1,
            g_off + I0_stride, Ux1, Uy1, SSD1))"

definition processPatch_simd ::
  "rounding \<Rightarrow> simd_target \<Rightarrow> (int \<Rightarrow> 8 word) \<Rightarrow> (int \<Rightarrow> 8 word) \<Rightarrow> (int \<Rightarrow> 16 word) \<Rightarrow>
     (int \<Rightarrow> 16 word) \<Rightarrow> int \<Rightarrow> int \<Rightarrow> real \<Rightarrow> real \<Rightarrow> real \<Rightarrow> real \<Rightarrow> real \<times> real \<times> real" where
  "processPatch_simd rnd tgt I0_ptr I1_ptr I0x_ptr I0y_ptr I0_stride I1_stride w00 w01 w10 w11 =
     (case (processPatch_row rnd I0_ptr I1_ptr I0x_ptr I0y_ptr I0_stride I1_stride w00 w01 w10 w11 ^^ 8)
             (HAL_INIT_BILINEAR_8x8_PATCH_EXTRACTION I1_ptr I1_stride, 0,
              v_setall_f32 0, v_setall_f32 0, v_setall_f32 0) of
        (s, g_off, Ux_vec, Uy_vec, SSD_vec) \<Rightarrow>
          (v_reduce_sum rnd tgt SSD_vec, v_reduce_sum rnd tgt Ux_vec, v_reduce_sum rnd tgt Uy_vec))"

text \<open>The loop of \<open>computeSSD\<close>, with the accumulator \<open>SSD_vec\<close>.\<close>

definition computeSSD_row ::
  "rounding \<Rightarrow> (int \<Rightarrow> 8 word) \<Rightarrow> (int \<Rightarrow> 8 word) \<Rightarrow> int \<Rightarrow> int \<Rightarrow> real \<Rightarrow> real \<Rightarrow> real \<Rightarrow> real \<Rightarrow>
     hal_state \<times> real x4 \<Rightarrow> hal_state \<times> real x4" where
  "computeSSD_row rnd I0_ptr I1_ptr I0_stride I1_stride w00 w01 w10 w11 =
     (\<lambda>(s, SSD_vec).
        let s1 = HAL_PROCESS_BILINEAR_8x8_PATCH_EXTRACTION rnd I0_ptr I1_ptr w00 w01 w10 w11 s;
            SSD1 = v_add rnd SSD_vec
                     (v_add rnd (v_mul rnd (I_diff_left s1) (I_diff_left s1))
                                (v_mul rnd (I_diff_right s1) (I_diff_right s1)))
        in (HAL_BILINEAR_8x8_PATCH_EXTRACTION_NEXT_ROW I0_stride I1_stride s1, SSD1))"

definition computeSSD_simd ::
  "rounding \<Rightarrow> simd_target \<Rightarrow> (int \<Rightarrow> 8 word) \<Rightarrow> (int \<Rightarrow> 8 word) \<Rightarrow> int \<Rightarrow> int \<Rightarrow>
     real \<Rightarrow> real \<Rightarrow> real \<Rightarrow> real \<Rightarrow> real" where
  "computeSSD_simd rnd tgt I0_ptr I1_ptr I0_stride I1_stride w00 w01 w10 w11 =
     (case (computeSSD_row rnd I0_ptr I1_ptr I0_stride I1_stride w00 w01 w10 w11 ^^ 8)
             (HAL_INIT_BILINEAR_8x8_PATCH_EXTRACTION I1_ptr I1_stride, v_setall_f32 0) of
        (s, SSD_vec) \<Rightarrow> v_reduce_sum rnd tgt SSD_vec)"

text \<open>The loop of \<open>computeSSDMeanNorm\<close>, with \<open>sum_diff_vec\<close> and \<open>sum_diff_sq_vec\<close>.\<close>

definition meanNorm_row ::
  "rounding \<Rightarrow> (int \<Rightarrow> 8 word) \<Rightarrow> (int \<Rightarrow> 8 word) \<Rightarrow> int \<Rightarrow> int \<Rightarrow> real \<Rightarrow> real \<Rightarrow> real \<Rightarrow> real \<Rightarrow>
     hal_state \<times> real x4 \<times> real x4 \<Rightarrow> hal_state \<times> real x4 \<times> real x4" where
  "meanNorm_row rnd I0_ptr I1_ptr I0_stride I1_stride w00 w01 w10 w11 =
     (\<lambda>(s, sum_diff_vec, sum_diff_sq_vec).
        let s1 = HAL_PROCESS_BILINEAR_8x8_PATCH_EXTRACTION rnd I0_ptr I1_ptr w00 w01 w10 w11 s;
            sq1 = v_add rnd sum_diff_sq_vec
                    (v_add rnd (v_mul rnd (I_diff_left s1) (I_diff_left s1))
                               (v_mul rnd (I_diff_right s1) (I_diff_right s1)));
            sd1 = v_add rnd sum_diff_vec (v_add rnd (I_diff_left s1) (I_diff_right s1))
        in (HAL_BILINEAR_8x8_PATCH_EXTRACTION_NEXT_ROW I0_stride I1_stride s1, sd1, sq1))"

definition meanNorm_sums_simd ::
  "rounding \<Rightarrow> simd_target \<Rightarrow> (int \<Rightarrow> 8 word) \<Rightarrow> (int \<Rightarrow> 8 word) \<Rightarrow> int \<Rightarrow> int \<Rightarrow>
     real \<Rightarrow> real \<Rightarrow> real \<Rightarrow> real \<Rightarrow> real \<times> real" where
  "meanNorm_sums_simd rnd tgt I0_ptr I1_ptr I0_stride I1_stride w00 w01 w10 w11 =
     (case (meanNorm_row rnd I0_ptr I1_ptr I0_stride I1_stride w00 w01 w10 w11 ^^ 8)
             (HAL_INIT_BILINEAR_8x8_PATCH_EXTRACTION I1_ptr I1_stride, v_setall_f32 0, v_setall_f32 0) of
        (s, sum_diff_vec, sum_diff_sq_vec) \<Rightarrow>
          (v_reduce_sum rnd tgt sum_diff_vec, v_reduce_sum rnd tgt sum_diff_sq_vec))"

subsection \<open>The patch functions\<close>

text \<open>
  \<open>simd\<close> is the target when the build defines \<open>CV_SIMD128\<close>, and \<open>None\<close> when it does
  not. \<open>computeSSDMeanNorm\<close> divides by \<open>n = (float)patch_sz * patch_sz\<close>; for a patch
  size of zero the quotient is \<open>0 / 0\<close>, not a number, and the result is \<open>None\<close>.
\<close>

definition processPatch ::
  "rounding \<Rightarrow> simd_target option \<Rightarrow> (int \<Rightarrow> 8 word) \<Rightarrow> (int \<Rightarrow> 8 word) \<Rightarrow> (int \<Rightarrow> 16 word) \<Rightarrow>
     (int \<Rightarrow> 16 word) \<Rightarrow> int \<Rightarrow> int \<Rightarrow> real \<Rightarrow> real \<Rightarrow> real \<Rightarrow> real \<Rightarrow> int \<Rightarrow> real \<times> real \<times> real" where
  "processPatch rnd simd I0_ptr I1_ptr I0x_ptr I0y_ptr I0_stride I1_stride w00 w01 w10 w11 patch_sz =
     (case simd of
        Some tgt \<Rightarrow>
          if patch_sz = 8
          then processPatch_simd rnd tgt I0_ptr I1_ptr I0x_ptr I0y_ptr I0_stride I1_stride w00 w01 w10 w11
          else processPatch_scalar rnd I0_ptr I1_ptr I0x_ptr I0y_ptr I0_stride I1_stride
                 w00 w01 w10 w11 patch_sz
      | None \<Rightarrow>
          processPatch_scalar rnd I0_ptr I1_ptr I0x_ptr I0y_ptr I0_stride I1_stride
            w00 w01 w10 w11 patch_sz)"

definition computeSSD ::
  "rounding \<Rightarrow> simd_target option \<Rightarrow> (int \<Rightarrow> 8 word) \<Rightarrow> (int \<Rightarrow> 8 word) \<Rightarrow> int \<Rightarrow> int \<Rightarrow>
     real \<Rightarrow> real \<Rightarrow> real \<Rightarrow> real \<Rightarrow> int \<Rightarrow> real" where
  "computeSSD rnd simd I0_ptr I1_ptr I0_stride I1_stride w00 w01 w10 w11 patch_sz =
     (case simd of
        Some tgt \<Rightarrow>
          if patch_sz = 8
          then computeSSD_simd rnd tgt I0_ptr I1_ptr I0_stride I1_stride w00 w01 w10 w11
          else computeSSD_scalar rnd I0_ptr I1_ptr I0_stride I1_stride w00 w01 w10 w11 patch_sz
      | None \<Rightarrow> computeSSD_scalar rnd I0_ptr I1_ptr I0_stride I1_stride w00 w01 w10 w11 patch_sz)"

definition computeSSDMeanNorm ::
  "rounding \<Rightarrow> simd_target option \<Rightarrow> (int \<Rightarrow> 8 word) \<Rightarrow> (int \<Rightarrow> 8 word) \<Rightarrow> int \<Rightarrow> int \<Rightarrow>
     real \<Rightarrow> real \<Rightarrow> real \<Rightarrow> real \<Rightarrow> int \<Rightarrow> real option" where
  "computeSSDMeanNorm rnd simd I0_ptr I1_ptr I0_stride I1_stride w00 w01 w10 w11 patch_sz =
     (let n = fmul rnd (fcvt rnd patch_sz) (fcvt rnd patch_sz);
          (sum_diff, sum_diff_sq) =
            (case simd of
               Some tgt \<Rightarrow>
                 if patch_sz = 8
                 then meanNorm_sums_simd rnd tgt I0_ptr I1_ptr I0_stride I1_stride w00 w01 w10 w11
                 else meanNorm_sums_scalar rnd I0_ptr I1_ptr I0_stride I1_stride
                        w00 w01 w10 w11 patch_sz
             | None \<Rightarrow>
                 meanNorm_sums_scalar rnd I0_ptr I1_ptr I0_stride I1_stride w00 w01 w10 w11 patch_sz)
      in if n = 0 then None
         else Some (fsub rnd sum_diff_sq (fdiv rnd (fmul rnd sum_diff sum_diff) n)))"

subsection \<open>What the patch functions are to compute\<close>

text \<open>
  The pixel and the gradient value at row \<open>i\<close>, column \<open>j\<close> of a patch, and the residual
  of the specification: the bilinear sample of \<open>I1\<close> with the four weights, minus \<open>I0\<close>,
  in exact arithmetic.
\<close>

definition pixel :: "(int \<Rightarrow> 8 word) \<Rightarrow> int \<Rightarrow> int \<Rightarrow> int \<Rightarrow> real" where
  "pixel img stride i j = real_of_int (uint (img (i * stride + j)))"

definition gradient :: "(int \<Rightarrow> 16 word) \<Rightarrow> int \<Rightarrow> int \<Rightarrow> int \<Rightarrow> real" where
  "gradient img stride i j = real_of_int (sint (img (i * stride + j)))"

definition bilinear_residual ::
  "(int \<Rightarrow> 8 word) \<Rightarrow> (int \<Rightarrow> 8 word) \<Rightarrow> int \<Rightarrow> int \<Rightarrow> real \<Rightarrow> real \<Rightarrow> real \<Rightarrow> real \<Rightarrow> int \<Rightarrow> int \<Rightarrow> real" where
  "bilinear_residual I0_ptr I1_ptr I0_stride I1_stride w00 w01 w10 w11 i j =
     w00 * pixel I1_ptr I1_stride i j + w01 * pixel I1_ptr I1_stride i (j + 1) +
     w10 * pixel I1_ptr I1_stride (i + 1) j + w11 * pixel I1_ptr I1_stride (i + 1) (j + 1) -
     pixel I0_ptr I0_stride i j"

text \<open>
  The invariant of the vectorised loop before row \<open>n\<close>: the pointers have advanced by
  \<open>n\<close> rows, and the current row of \<open>I1\<close> is held in the four vectors.
\<close>

definition hal_row_inv :: "(int \<Rightarrow> 8 word) \<Rightarrow> int \<Rightarrow> int \<Rightarrow> nat \<Rightarrow> hal_state \<Rightarrow> bool" where
  "hal_row_inv I1_ptr I0_stride I1_stride n s \<longleftrightarrow>
     I0_off s = int n * I0_stride \<and> I1_off s = (int n + 1) * I1_stride \<and>
     I1_row_4_left s = load_u8x4 I1_ptr (int n * I1_stride) \<and>
     I1_row_4_right s = load_u8x4 I1_ptr (int n * I1_stride + 4) \<and>
     I1_row_shifted_4_left s = load_u8x4 I1_ptr (int n * I1_stride + 1) \<and>
     I1_row_shifted_4_right s = load_u8x4 I1_ptr (int n * I1_stride + 5)"

subsection \<open>Densification\<close>

text \<open>\<^verbatim>\<open>#define EPS 0.001F\<close>: the float nearest to one thousandth.\<close>

definition EPS :: "rounding \<Rightarrow> real" where
  "EPS rnd = rnd (1 / 1000)"

text \<open>
  The macros \<open>UPDATE_SPARSE_I_COORDINATES\<close> and \<open>UPDATE_SPARSE_J_COORDINATES\<close> differ in
  the names of their variables only: \<open>k\<close> is \<open>i\<close> or \<open>j\<close>, \<open>sz\<close> is \<open>h\<close> or \<open>dis->w\<close>, and
  the pair is \<open>(start_is, end_is)\<close> or \<open>(start_js, end_js)\<close>.
  \<^verbatim>\<open>if (i % pstr == 0 && i + psz <= h) end_is++;
if (i - psz >= 0 && (i - psz) % pstr == 0 && start_is < end_is) start_is++;\<close>
\<close>

definition UPDATE_SPARSE_COORDINATES :: "int \<Rightarrow> int \<Rightarrow> int \<Rightarrow> int \<Rightarrow> int \<times> int \<Rightarrow> int \<times> int" where
  "UPDATE_SPARSE_COORDINATES psz pstr sz k =
     (\<lambda>(start_s, end_s).
        let end1 = (if k smod pstr = 0 \<and> k + psz \<le> sz then end_s + 1 else end_s);
            start1 = (if k - psz \<ge> 0 \<and> (k - psz) smod pstr = 0 \<and> start_s < end1
                      then start_s + 1 else start_s)
        in (start1, end1))"

text \<open>
  The pair after the updates for \<open>0, \<dots>, k\<close>, from the initial \<open>start = 0\<close>, \<open>end = -1\<close>: the
  sparse rows (or columns) that the loops take to overlap the dense row (or column) \<open>k\<close>.
\<close>

definition sparse_window :: "int \<Rightarrow> int \<Rightarrow> int \<Rightarrow> int \<Rightarrow> int \<times> int" where
  "sparse_window psz pstr sz k = fold (UPDATE_SPARSE_COORDINATES psz pstr sz) [0..k] (0, - 1)"

text \<open>
  The clamped sampling coordinate
  \<^verbatim>\<open>j_m = min(max(j + Sx_ptr[is * dis->ws + js], 0.0f), dis->w - 1.0f - EPS);\<close>
  and likewise \<open>i_m\<close> with \<open>i\<close>, \<open>Sy_ptr\<close> and \<open>dis->h\<close>.
\<close>

definition sample_position :: "rounding \<Rightarrow> int \<Rightarrow> int \<Rightarrow> real \<Rightarrow> real" where
  "sample_position rnd sz k d =
     min (max (fadd rnd (fcvt rnd k) d) 0) (fsub rnd (fsub rnd (fcvt rnd sz) 1) (EPS rnd))"

text \<open>The four integer sample indices \<open>(i_l, i_u, j_l, j_u)\<close> for a displacement \<open>(sx, sy)\<close>.\<close>

definition sample_indices :: "rounding \<Rightarrow> dis_params \<Rightarrow> int \<Rightarrow> int \<Rightarrow> real \<Rightarrow> real \<Rightarrow> int \<times> int \<times> int \<times> int" where
  "sample_indices rnd p i j sx sy =
     (let j_m = sample_position rnd (w p) j sx; i_m = sample_position rnd (h p) i sy;
          j_l = c_trunc j_m; j_u = j_l + 1; i_l = c_trunc i_m; i_u = i_l + 1
      in (i_l, i_u, j_l, j_u))"

text \<open>
  The residual \<open>diff\<close> of one patch at the pixel \<open>(i, j)\<close>, with the operations in the order
  of the source:
  \<^verbatim>\<open>diff = (j_m - j_l) * (i_m - i_l) * I1_ptr[i_u * dis->w + j_u] +
       (j_u - j_m) * (i_m - i_l) * I1_ptr[i_u * dis->w + j_l] +
       (j_m - j_l) * (i_u - i_m) * I1_ptr[i_l * dis->w + j_u] +
       (j_u - j_m) * (i_u - i_m) * I1_ptr[i_l * dis->w + j_l] - I0_ptr[i * dis->w + j];\<close>
\<close>

definition dens_diff ::
  "rounding \<Rightarrow> dis_params \<Rightarrow> (int \<Rightarrow> 8 word) \<Rightarrow> (int \<Rightarrow> 8 word) \<Rightarrow> int \<Rightarrow> int \<Rightarrow> real \<Rightarrow> real \<Rightarrow> real" where
  "dens_diff rnd p I0_ptr I1_ptr i j sx sy =
     (let j_m = sample_position rnd (w p) j sx; i_m = sample_position rnd (h p) i sy;
          j_l = c_trunc j_m; j_u = j_l + 1; i_l = c_trunc i_m; i_u = i_l + 1
      in fsub rnd
           (fadd rnd
              (fadd rnd
                 (fadd rnd
                    (fmul rnd (fmul rnd (fsub rnd j_m (fcvt rnd j_l)) (fsub rnd i_m (fcvt rnd i_l)))
                       (fcvt rnd (uint (I1_ptr (i_u * w p + j_u)))))
                    (fmul rnd (fmul rnd (fsub rnd (fcvt rnd j_u) j_m) (fsub rnd i_m (fcvt rnd i_l)))
                       (fcvt rnd (uint (I1_ptr (i_u * w p + j_l))))))
                 (fmul rnd (fmul rnd (fsub rnd j_m (fcvt rnd j_l)) (fsub rnd (fcvt rnd i_u) i_m))
                    (fcvt rnd (uint (I1_ptr (i_l * w p + j_u))))))
              (fmul rnd (fmul rnd (fsub rnd (fcvt rnd j_u) j_m) (fsub rnd (fcvt rnd i_u) i_m))
                 (fcvt rnd (uint (I1_ptr (i_l * w p + j_l))))))
           (fcvt rnd (uint (I0_ptr (i * w p + j)))))"

text \<open>\<^verbatim>\<open>coef = 1 / max(1.0f, abs(diff));\<close>\<close>

definition dens_coef ::
  "rounding \<Rightarrow> dis_params \<Rightarrow> (int \<Rightarrow> 8 word) \<Rightarrow> (int \<Rightarrow> 8 word) \<Rightarrow> int \<Rightarrow> int \<Rightarrow> real \<Rightarrow> real \<Rightarrow> real" where
  "dens_coef rnd p I0_ptr I1_ptr i j sx sy =
     fdiv rnd 1 (max 1 \<bar>dens_diff rnd p I0_ptr I1_ptr i j sx sy\<bar>)"

text \<open>
  The two inner loops over the window \<open>start_is..end_is\<close>, \<open>start_js..end_js\<close>: the triple
  \<open>(sum_Ux, sum_Uy, sum_coef)\<close>.
\<close>

definition dens_sums ::
  "rounding \<Rightarrow> dis_params \<Rightarrow> (int \<Rightarrow> real) \<Rightarrow> (int \<Rightarrow> real) \<Rightarrow> (int \<Rightarrow> 8 word) \<Rightarrow> (int \<Rightarrow> 8 word) \<Rightarrow>
     int \<times> int \<Rightarrow> int \<times> int \<Rightarrow> int \<Rightarrow> int \<Rightarrow> real \<times> real \<times> real" where
  "dens_sums rnd p Sx_ptr Sy_ptr I0_ptr I1_ptr iwin jwin i j =
     fold (\<lambda>is. fold (\<lambda>js (sum_Ux, sum_Uy, sum_coef).
             let coef = dens_coef rnd p I0_ptr I1_ptr i j
                          (Sx_ptr (is * ws p + js)) (Sy_ptr (is * ws p + js))
             in (fadd rnd sum_Ux (fmul rnd coef (Sx_ptr (is * ws p + js))),
                 fadd rnd sum_Uy (fmul rnd coef (Sy_ptr (is * ws p + js))),
                 fadd rnd sum_coef coef))
           [fst jwin..snd jwin])
       [fst iwin..snd iwin] (0, 0, 0)"

text \<open>
  The flow vector written at the pixel. With \<open>sum_coef = 0\<close> a debug build fails in
  \<open>CV_DbgAssert(sum_coef != 0)\<close> and a release build stores the quotient \<open>0 / 0\<close>, which
  is not a number: that outcome is \<open>None\<close>.
\<close>

definition dens_pixel ::
  "rounding \<Rightarrow> dis_params \<Rightarrow> (int \<Rightarrow> real) \<Rightarrow> (int \<Rightarrow> real) \<Rightarrow> (int \<Rightarrow> 8 word) \<Rightarrow> (int \<Rightarrow> 8 word) \<Rightarrow>
     int \<times> int \<Rightarrow> int \<times> int \<Rightarrow> int \<Rightarrow> int \<Rightarrow> (real \<times> real) option" where
  "dens_pixel rnd p Sx_ptr Sy_ptr I0_ptr I1_ptr iwin jwin i j =
     (case dens_sums rnd p Sx_ptr Sy_ptr I0_ptr I1_ptr iwin jwin i j of
        (sum_Ux, sum_Uy, sum_coef) \<Rightarrow>
          if sum_coef = 0 then None
          else Some (fdiv rnd sum_Ux sum_coef, fdiv rnd sum_Uy sum_coef))"

text \<open>
  The loop \<open>for (int j = 0; j < dis->w; j++)\<close> of one row. Its state is the column window
  and the two output arrays; an element of an output array is \<open>None\<close> where the value
  stored is not a number.
\<close>

type_synonym flow_arrays = "(int \<Rightarrow> real option) \<times> (int \<Rightarrow> real option)"

definition dens_col ::
  "rounding \<Rightarrow> dis_params \<Rightarrow> (int \<Rightarrow> real) \<Rightarrow> (int \<Rightarrow> real) \<Rightarrow> (int \<Rightarrow> 8 word) \<Rightarrow> (int \<Rightarrow> 8 word) \<Rightarrow>
     int \<times> int \<Rightarrow> int \<Rightarrow> int \<Rightarrow> (int \<times> int) \<times> flow_arrays \<Rightarrow> (int \<times> int) \<times> flow_arrays" where
  "dens_col rnd p Sx_ptr Sy_ptr I0_ptr I1_ptr iwin i j =
     (\<lambda>(jwin, Ux_ptr, Uy_ptr).
        let jwin1 = UPDATE_SPARSE_COORDINATES (patch_size p) (patch_stride p) (w p) j jwin;
            v = dens_pixel rnd p Sx_ptr Sy_ptr I0_ptr I1_ptr iwin jwin1 i j
        in (jwin1, Ux_ptr(i * w p + j := map_option fst v), Uy_ptr(i * w p + j := map_option snd v)))"

definition dens_row ::
  "rounding \<Rightarrow> dis_params \<Rightarrow> int \<Rightarrow> (int \<Rightarrow> real) \<Rightarrow> (int \<Rightarrow> real) \<Rightarrow> (int \<Rightarrow> 8 word) \<Rightarrow> (int \<Rightarrow> 8 word) \<Rightarrow>
     int \<Rightarrow> (int \<times> int) \<times> flow_arrays \<Rightarrow> (int \<times> int) \<times> flow_arrays" where
  "dens_row rnd p body_h Sx_ptr Sy_ptr I0_ptr I1_ptr i =
     (\<lambda>(iwin, U).
        let iwin1 = UPDATE_SPARSE_COORDINATES (patch_size p) (patch_stride p) body_h i iwin
        in (iwin1,
            snd (fold (dens_col rnd p Sx_ptr Sy_ptr I0_ptr I1_ptr iwin1 i) [0..w p - 1]
                   ((0, - 1), U))))"

text \<open>
  \<open>Densification_ParBody::operator()\<close> on the range \<open>rng = (range.start, range.end)\<close> of stripes.
  \<open>body_h\<close> and \<open>stripe_sz\<close> are the members \<open>h\<close> and \<open>stripe_sz\<close> of the loop body. A
  patch stride of zero makes \<open>i % pstr\<close> undefined.
\<close>

definition Densification_ParBody ::
  "rounding \<Rightarrow> dis_params \<Rightarrow> int \<Rightarrow> int \<Rightarrow> (int \<Rightarrow> real) \<Rightarrow> (int \<Rightarrow> real) \<Rightarrow> (int \<Rightarrow> 8 word) \<Rightarrow>
     (int \<Rightarrow> 8 word) \<Rightarrow> int \<times> int \<Rightarrow> flow_arrays \<Rightarrow> failure + flow_arrays" where
  "Densification_ParBody rnd p body_h stripe_sz Sx_ptr Sy_ptr I0_ptr I1_ptr rng U =
     (if patch_stride p = 0 then Inl Undefined
      else
        let start_i = min (fst rng * stripe_sz) body_h;
            end_i = min (snd rng * stripe_sz) body_h;
            iwin0 = fold (UPDATE_SPARSE_COORDINATES (patch_size p) (patch_stride p) body_h)
                      [0..start_i - 1] (0, - 1)
        in Inr (snd (fold (dens_row rnd p body_h Sx_ptr Sy_ptr I0_ptr I1_ptr) [start_i..end_i - 1]
                       (iwin0, U))))"

text \<open>The member \<open>stripe_sz = (int)ceil(h / (double)nstripes)\<close> set by the constructor.\<close>

definition stripe_sz_of :: "int \<Rightarrow> int \<Rightarrow> int" where
  "stripe_sz_of body_h nstripes = c_trunc (real_of_int \<lceil>real_of_int body_h / real_of_int nstripes\<rceil>)"

subsection \<open>The sparse patches that cover a pixel\<close>

text \<open>
  The closed form of the sliding window: \<open>window_end\<close> is the last sparse index whose
  patch starts at or before \<open>k\<close> and lies inside the image, \<open>window_start\<close> the first one
  whose patch has not ended before \<open>k\<close>, but never beyond \<open>window_end\<close>.
\<close>

definition window_end :: "int \<Rightarrow> int \<Rightarrow> int \<Rightarrow> int \<Rightarrow> int" where
  "window_end psz pstr sz k = min k (sz - psz) div pstr"

definition window_start :: "int \<Rightarrow> int \<Rightarrow> int \<Rightarrow> int \<Rightarrow> int" where
  "window_start psz pstr sz k =
     min (max 0 ((k - psz) div pstr + 1)) (window_end psz pstr sz k)"

text \<open>
  The words of the specification: the patch with sparse index \<open>s\<close> has the footprint
  \<open>s * pstr, \<dots>, s * pstr + psz - 1\<close> along one axis; the grid has the indices
  \<open>0, \<dots>, (sz - psz) / pstr\<close>; \<open>covering_patches\<close> are the indices of the grid whose
  footprint covers \<open>k\<close>. \<open>window_patches\<close> is what the loops use: the covering patches,
  or the last index of the grid where no patch covers \<open>k\<close>.
\<close>

definition patch_covers :: "int \<Rightarrow> int \<Rightarrow> int \<Rightarrow> int \<Rightarrow> bool" where
  "patch_covers psz pstr s k \<longleftrightarrow> s * pstr \<le> k \<and> k < s * pstr + psz"

definition covering_patches :: "int \<Rightarrow> int \<Rightarrow> int \<Rightarrow> int \<Rightarrow> int set" where
  "covering_patches psz pstr sz k =
     {s \<in> {0..(sz - psz) sdiv pstr}. patch_covers psz pstr s k}"

definition window_patches :: "int \<Rightarrow> int \<Rightarrow> int \<Rightarrow> int \<Rightarrow> int set" where
  "window_patches psz pstr sz k =
     (if covering_patches psz pstr sz k = {} then {(sz - psz) sdiv pstr}
      else covering_patches psz pstr sz k)"

subsection \<open>What the densification is to compute\<close>

text \<open>
  The words of the specification, in exact arithmetic: the bilinear sample of an image at
  a real position \<open>(x, y)\<close>, the position clamped to \<open>[0, sz - 1 - EPS]\<close>, the residual of
  a patch with displacement \<open>(sx, sy)\<close> at the pixel \<open>(i, j)\<close> (the sample of frame 1 at the
  displaced, clamped position minus frame 0 at the pixel), and the weight
  \<open>1 / max(1, |residual|)\<close>.
\<close>

definition bilinear_sample :: "(int \<Rightarrow> 8 word) \<Rightarrow> int \<Rightarrow> real \<Rightarrow> real \<Rightarrow> real" where
  "bilinear_sample img stride x y =
     (let x0 = \<lfloor>x\<rfloor>; y0 = \<lfloor>y\<rfloor>; fx = x - real_of_int x0; fy = y - real_of_int y0
      in (1 - fx) * (1 - fy) * pixel img stride y0 x0 +
         fx * (1 - fy) * pixel img stride y0 (x0 + 1) +
         (1 - fx) * fy * pixel img stride (y0 + 1) x0 +
         fx * fy * pixel img stride (y0 + 1) (x0 + 1))"

definition clamp_coord :: "int \<Rightarrow> real \<Rightarrow> real" where
  "clamp_coord sz x = min (max x 0) (real_of_int sz - 1 - 1 / 1000)"

definition residual ::
  "dis_params \<Rightarrow> (int \<Rightarrow> 8 word) \<Rightarrow> (int \<Rightarrow> 8 word) \<Rightarrow> int \<Rightarrow> int \<Rightarrow> real \<Rightarrow> real \<Rightarrow> real" where
  "residual p I0_ptr I1_ptr i j sx sy =
     bilinear_sample I1_ptr (w p) (clamp_coord (w p) (real_of_int j + sx))
       (clamp_coord (h p) (real_of_int i + sy)) -
     pixel I0_ptr (w p) i j"

definition confidence ::
  "dis_params \<Rightarrow> (int \<Rightarrow> 8 word) \<Rightarrow> (int \<Rightarrow> 8 word) \<Rightarrow> int \<Rightarrow> int \<Rightarrow> real \<Rightarrow> real \<Rightarrow> real" where
  "confidence p I0_ptr I1_ptr i j sx sy = 1 / max 1 \<bar>residual p I0_ptr I1_ptr i j sx sy\<bar>"

text \<open>
  The dense flow of the specification at the pixel \<open>(i, j)\<close>: the weighted average of the
  displacements of the patches whose footprint covers the pixel; there is none where no
  patch covers it.
\<close>

definition spec_dense_flow ::
  "dis_params \<Rightarrow> (int \<Rightarrow> real) \<Rightarrow> (int \<Rightarrow> real) \<Rightarrow> (int \<Rightarrow> 8 word) \<Rightarrow> (int \<Rightarrow> 8 word) \<Rightarrow>
     int \<Rightarrow> int \<Rightarrow> (real \<times> real) option" where
  "spec_dense_flow p Sx_ptr Sy_ptr I0_ptr I1_ptr i j =
     (let PI = covering_patches (patch_size p) (patch_stride p) (h p) i;
          PJ = covering_patches (patch_size p) (patch_stride p) (w p) j;
          c = (\<lambda>is js. confidence p I0_ptr I1_ptr i j
                 (Sx_ptr (is * ws p + js)) (Sy_ptr (is * ws p + js)));
          total = (\<Sum>is\<in>PI. \<Sum>js\<in>PJ. c is js)
      in if PI = {} \<or> PJ = {} then None
         else Some ((\<Sum>is\<in>PI. \<Sum>js\<in>PJ. c is js * Sx_ptr (is * ws p + js)) / total,
                    (\<Sum>is\<in>PI. \<Sum>js\<in>PJ. c is js * Sy_ptr (is * ws p + js)) / total))"

subsection \<open>Reading a result; the patches of the rounding example\<close>

text \<open>The pair of flow components at index \<open>k\<close> of the arrays that the densification returns.\<close>

definition flow_at :: "failure + flow_arrays \<Rightarrow> int \<Rightarrow> (real option \<times> real option) option" where
  "flow_at r k = (case r of Inl e \<Rightarrow> None | Inr U \<Rightarrow> Some (fst U k, snd U k))"

text \<open>
  An 8 by 8 patch of frame 0 (stride 8) and the 9 by 9 window of frame 1 around it (stride
  9). With the weights \<open>1/8, 7/8, 0, 0\<close> the residual is 255 in columns 0 and 4 of rows
  0 to 2, one eighth in columns 0 and 4 of row 3, and zero elsewhere.
\<close>

definition ex_I1 :: "int \<Rightarrow> 8 word" where
  "ex_I1 k = (if k < 27 then 255 else if k = 27 then 3 else if k < 32 then 2 else if k < 36 then 1 else 0)"

definition ex_I0 :: "int \<Rightarrow> 8 word" where
  "ex_I0 k = (if k < 24 then (if k mod 4 = 0 then 0 else 255)
              else if k < 28 then 2 else if k < 32 then 1 else 0)"

section \<open>The pyramid\<close>

lemma pb_loop_append:
  "pb_loop p I0 (xs @ ys) s =
     (case pb_loop p I0 xs s of Inl e \<Rightarrow> Inl e | Inr s' \<Rightarrow> pb_loop p I0 ys s')"
  by (induction xs arbitrary: s) (auto split: sum.splits)

lemma length_vec_resize [simp]: "length (vec_resize n xs) = n"
  by (simp add: vec_resize_def)

lemma sdiv_nonneg: "0 \<le> a \<Longrightarrow> 0 < b \<Longrightarrow> (a::int) sdiv b = a div b"
  by (simp add: signed_divide_int_def sgn_if)

lemma stb_double: "signed_take_bit 31 (signed_take_bit 31 (2 ^ n) * 2) = (signed_take_bit 31 (2 ^ Suc n) :: int)"
proof -
  have "signed_take_bit 31 (signed_take_bit 31 (2 ^ n) * signed_take_bit 31 2) = (signed_take_bit 31 (2 ^ n * 2) :: int)"
    by (rule signed_take_bit_mult)
  moreover have "signed_take_bit 31 (2::int) = 2" by (simp add: signed_take_bit_int_eq_self)
  ultimately show ?thesis by (simp add: mult.commute)
qed

lemma pb_body_inv:
  assumes f: "0 \<le> finest_scale p" "finest_scale p < 31" and st: "patch_stride p \<noteq> 0"
    and nn: "0 \<le> fst I0" "0 \<le> snd I0"
    and n: "n < nat (coarsest_scale p + 1)" and inv: "pb_inv p I0 n s"
  shows "\<exists>s'. pb_body p I0 n s = Inr s' \<and> pb_inv p I0 (Suc n) s'"
proof -
  let ?f = "nat (finest_scale p)"
  from inv have len: "length (I0s s) = nat (coarsest_scale p + 1)"
    and pr: "nat (coarsest_scale p + 1) \<le> variational_refinement_processors s"
    and fr: "fraction s = signed_take_bit 31 (2 ^ n)" by (simp_all add: pb_inv_def)
  from pr n have np: "\<not> variational_refinement_processors s \<le> n" by linarith
  consider (lt) "n < ?f" | (eq) "n = ?f" | (gt) "?f < n" by linarith
  then show ?thesis
  proof cases
    case lt
    then have "\<not> int n = finest_scale p" "\<not> finest_scale p < int n" "\<not> finest_scale p \<le> int n" by linarith+
    then show ?thesis using lt len fr pr
      by (simp add: pb_body_def pb_level_def pb_borders_def pb_inv_def stb_double)
  next
    case eq
    then have e: "int n = finest_scale p" using f by simp
    have "n < 31" using eq f by linarith
    then have "(2::int) ^ n < 2 ^ 31" by (intro power_strict_increasing) simp_all
    moreover have "- (2 ^ 31) \<le> (2::int) ^ n" by (rule order_trans [of _ 0]) simp_all
    ultimately have "signed_take_bit 31 ((2::int) ^ n) = 2 ^ n" by (rule signed_take_bit_int_eq_self [rotated])
    then have fr2: "fraction s = 2 ^ n" using fr by simp
    then have pos: "0 < fraction s" by simp
    let ?v = "(fst I0 div 2 ^ n, snd I0 div 2 ^ n)"
    let ?w = "(fst ?v sdiv patch_stride p, snd ?v sdiv patch_stride p)"
    let ?s' = "(projr (pb_borders p n (s\<lparr>cur_rows := fst ?v, cur_cols := snd ?v, I0s := (I0s s)[n := ?v],
        I1s := (I1s s)[n := ?v], Sx := ?w, Sy := ?w\<rparr>)))\<lparr>fraction := signed_take_bit 31 (2 ^ Suc n)\<rparr>"
    have body: "pb_body p I0 n s = Inr ?s'"
      using e st nn np by (simp add: pb_body_def pb_level_def Let_def sdiv_nonneg pb_borders_def fr2 mult.commute)
    have I0s': "I0s ?s' = (I0s s)[n := ?v]" using e np by (simp add: pb_borders_def)
    have pr': "variational_refinement_processors ?s' = variational_refinement_processors s"
      using e np by (simp add: pb_borders_def)
    have fr': "fraction ?s' = signed_take_bit 31 (2 ^ Suc n)" by simp
    have nlen: "n < length (I0s s)" using len n by simp
    have "pb_inv p I0 (Suc n) ?s'"
      unfolding pb_inv_def I0s' fr' pr' eq [symmetric]
    proof (intro conjI impI allI)
      show "length ((I0s s)[n := ?v]) = nat (coarsest_scale p + 1)" using len by simp
      show "nat (coarsest_scale p + 1) \<le> variational_refinement_processors s" by (rule pr)
      show "signed_take_bit 31 (2 ^ Suc n) = (signed_take_bit 31 (2 ^ Suc n) :: int)" ..
      show "(I0s s)[n := ?v] ! n = ?v" using nlen by simp
    next
      fix i assume i: "n \<le> i \<and> Suc i < Suc n"
      then have False by linarith
      then show "(I0s s)[n := ?v] ! Suc i = half ((I0s s)[n := ?v] ! i)" ..
    next
      fix i assume i: "n \<le> i \<and> i < Suc n"
      then have "i = n" by simp
      then show "0 \<le> fst ((I0s s)[n := ?v] ! i)" "0 \<le> snd ((I0s s)[n := ?v] ! i)"
        using nlen nn by (simp_all add: pos_imp_zdiv_nonneg_iff)
    qed
    with body show ?thesis by blast
  next
    case gt
    then have c: "\<not> int n = finest_scale p" "finest_scale p < int n" "n \<noteq> 0" using f by linarith+
    from inv gt have a: "I0s s ! ?f = (fst I0 div 2 ^ ?f, snd I0 div 2 ^ ?f)"
      and b: "\<And>i. ?f \<le> i \<Longrightarrow> Suc i < n \<Longrightarrow> I0s s ! Suc i = half (I0s s ! i)"
      and d: "\<And>i. ?f \<le> i \<Longrightarrow> i < n \<Longrightarrow> 0 \<le> fst (I0s s ! i) \<and> 0 \<le> snd (I0s s ! i)"
      by (simp_all add: pb_inv_def)
    have prev: "0 \<le> fst (I0s s ! (n - 1))" "0 \<le> snd (I0s s ! (n - 1))" using d [of "n - 1"] gt by auto
    let ?v = "half (I0s s ! (n - 1))"
    let ?s' = "(projr (pb_borders p n (s\<lparr>cur_rows := fst ?v, cur_cols := snd ?v, I0s := (I0s s)[n := ?v], I1s := (I1s s)[n := ?v]\<rparr>)))\<lparr>fraction := signed_take_bit 31 (2 ^ Suc n)\<rparr>"
    have body: "pb_body p I0 n s = Inr ?s'"
      using c prev np by (simp add: pb_body_def pb_level_def Let_def sdiv_nonneg half_def pb_borders_def fr stb_double)
    have I0s': "I0s ?s' = (I0s s)[n := ?v]" using c np by (simp add: pb_borders_def)
    have pr': "variational_refinement_processors ?s' = variational_refinement_processors s"
      using c np by (simp add: pb_borders_def)
    have fr': "fraction ?s' = signed_take_bit 31 (2 ^ Suc n)" by simp
    have "pb_inv p I0 (Suc n) ?s'"
      unfolding pb_inv_def I0s' fr' pr'
    proof (intro conjI impI allI)
      show "length ((I0s s)[n := ?v]) = nat (coarsest_scale p + 1)" using len by simp
      show "nat (coarsest_scale p + 1) \<le> variational_refinement_processors s" by (rule pr)
      show "signed_take_bit 31 (2 ^ Suc n) = (signed_take_bit 31 (2 ^ Suc n) :: int)" ..
      show "(I0s s)[n := ?v] ! ?f = (fst I0 div 2 ^ ?f, snd I0 div 2 ^ ?f)" using a gt by simp
    next
      fix i assume i: "?f \<le> i \<and> Suc i < Suc n"
      show "(I0s s)[n := ?v] ! Suc i = half ((I0s s)[n := ?v] ! i)"
      proof (cases "Suc i = n")
        case True
        then show ?thesis using len n i by auto
      next
        case False
        then show ?thesis using b [of i] i by simp
      qed
    next
      fix i assume i: "?f \<le> i \<and> i < Suc n"
      show "0 \<le> fst ((I0s s)[n := ?v] ! i)"
        using d [of i] i prev len n by (cases "i = n") (auto simp: half_def pos_imp_zdiv_nonneg_iff)
      show "0 \<le> snd ((I0s s)[n := ?v] ! i)"
        using d [of i] i prev len n by (cases "i = n") (auto simp: half_def pos_imp_zdiv_nonneg_iff)
    qed
    with body show ?thesis by blast
  qed
qed

lemma pb_loop_inv:
  assumes f: "0 \<le> finest_scale p" "finest_scale p < 31" and st: "patch_stride p \<noteq> 0"
    and nn: "0 \<le> fst I0" "0 \<le> snd I0"
  shows "n \<le> nat (coarsest_scale p + 1) \<Longrightarrow> pb_inv p I0 0 s \<Longrightarrow>
    \<exists>s'. pb_loop p I0 [0..<n] s = Inr s' \<and> pb_inv p I0 n s'"
proof (induction n)
  case 0
  then show ?case by simp
next
  case (Suc n)
  then obtain s1 where s1: "pb_loop p I0 [0..<n] s = Inr s1" "pb_inv p I0 n s1" by auto
  from pb_body_inv [OF f st nn _ s1(2)] Suc.prems(1)
  obtain s2 where "pb_body p I0 n s1 = Inr s2" "pb_inv p I0 (Suc n) s2" by auto
  with s1 show ?case by (simp add: pb_loop_append)
qed

text \<open>
  When the vector of variational refinement processors has an element for every level
  (\<open>coarsest_scale < 10\<close> for a freshly constructed object), the finest scale lies between
  0 and the coarsest scale and is small enough for \<open>fraction\<close> not to overflow, the patch
  stride is not zero and the image dimensions are not negative, \<open>prepareBuffers\<close> returns;
  level \<open>finest_scale\<close> has the dimensions of the input divided by \<open>2 ^ finest_scale\<close>,
  rounded down, and every level \<open>i + 1\<close> with \<open>finest_scale \<le> i < coarsest_scale\<close> has the
  dimensions of level \<open>i\<close> divided by 2, rounded down.
\<close>

theorem pyramid_dimensions:
  assumes "0 \<le> finest_scale p" "finest_scale p \<le> coarsest_scale p" "finest_scale p < 31"
    and "patch_stride p \<noteq> 0" and "0 \<le> fst I0" "0 \<le> snd I0"
    and "coarsest_scale p < int (variational_refinement_processors old)"
  shows "\<exists>s. prepareBuffers p I0 old = Inr s \<and>
     I0s s ! nat (finest_scale p) =
       (fst I0 div 2 ^ nat (finest_scale p), snd I0 div 2 ^ nat (finest_scale p)) \<and>
     (\<forall>i. finest_scale p \<le> int i \<and> int i < coarsest_scale p \<longrightarrow>
        I0s s ! Suc i = (fst (I0s s ! i) div 2, snd (I0s s ! i) div 2))"
proof -
  let ?n = "nat (coarsest_scale p + 1)"
  let ?s0 = "old\<lparr>I0s := vec_resize ?n (I0s old), I1s := vec_resize ?n (I1s old),
                  I1s_ext := vec_resize ?n (I1s_ext old),
                  I0xs := vec_resize ?n (I0xs old), I0ys := vec_resize ?n (I0ys old),
                  Ux := vec_resize ?n (Ux old), Uy := vec_resize ?n (Uy old),
                  fraction := 1, cur_rows := 0, cur_cols := 0\<rparr>"
  have "?n \<le> variational_refinement_processors old" using assms(1,2,7) by linarith
  then have "pb_inv p I0 0 ?s0" by (simp add: pb_inv_def signed_take_bit_int_eq_self)
  from pb_loop_inv [OF assms(1,3,4,5,6) order_refl this]
  obtain s where s: "pb_loop p I0 [0..<?n] ?s0 = Inr s" "pb_inv p I0 ?n s" by blast
  have pb: "prepareBuffers p I0 old = Inr s" using s(1) assms(1,2) by (simp add: prepareBuffers_def Let_def)
  moreover have "nat (finest_scale p) < ?n" using assms(1,2) by linarith
  ultimately have a: "I0s s ! nat (finest_scale p) =
       (fst I0 div 2 ^ nat (finest_scale p), snd I0 div 2 ^ nat (finest_scale p))"
    and b: "\<And>i. nat (finest_scale p) \<le> i \<Longrightarrow> Suc i < ?n \<Longrightarrow> I0s s ! Suc i = half (I0s s ! i)"
    using s(2) by (simp_all add: pb_inv_def)
  have "I0s s ! Suc i = (fst (I0s s ! i) div 2, snd (I0s s ! i) div 2)"
    if "finest_scale p \<le> int i \<and> int i < coarsest_scale p" for i
  proof -
    from that have "nat (finest_scale p) \<le> i" "Suc i < ?n" by linarith+
    then show ?thesis using b [of i] by (simp add: half_def)
  qed
  with pb a show ?thesis by blast
qed

theorem pyramid_dimensions_witness:
  "\<exists>s. prepareBuffers (DISOpticalFlowImpl\<lparr>coarsest_scale := 4\<rparr>) (481, 642) no_buffers = Inr s \<and>
     I0s s ! 2 = (120, 160) \<and> I0s s ! 3 = (60, 80) \<and> I0s s ! 4 = (30, 40)"
proof -
  let ?p = "DISOpticalFlowImpl\<lparr>coarsest_scale := 4\<rparr>"
  have h: "0 \<le> finest_scale ?p" "finest_scale ?p \<le> coarsest_scale ?p" "finest_scale ?p < 31"
    "patch_stride ?p \<noteq> 0" "0 \<le> fst (481 :: int, 642 :: int)" "0 \<le> snd (481 :: int, 642 :: int)"
    "coarsest_scale ?p < int (variational_refinement_processors no_buffers)"
    by (simp_all add: DISOpticalFlowImpl_def no_buffers_def)
  from pyramid_dimensions [OF h]
  obtain s where s: "prepareBuffers ?p (481, 642) no_buffers = Inr s"
    "I0s s ! nat (finest_scale ?p) = (fst (481 :: int, 642 :: int) div 2 ^ nat (finest_scale ?p),
       snd (481 :: int, 642 :: int) div 2 ^ nat (finest_scale ?p))"
    "\<And>i. finest_scale ?p \<le> int i \<and> int i < coarsest_scale ?p \<Longrightarrow>
       I0s s ! Suc i = (fst (I0s s ! i) div 2, snd (I0s s ! i) div 2)"
    by blast
  have l2: "I0s s ! 2 = (120, 160)" using s(2) by (simp add: DISOpticalFlowImpl_def)
  have l3: "I0s s ! 3 = (60, 80)"
    using s(3) [of 2] l2 by (simp add: DISOpticalFlowImpl_def numeral_3_eq_3 numeral_2_eq_2)
  have l4: "I0s s ! 4 = (30, 40)"
    using s(3) [of 3] l3 by (simp add: DISOpticalFlowImpl_def eval_nat_numeral)
  from s(1) l2 l3 l4 show ?thesis by blast
qed

subsection \<open>A level without a processor\<close>

lemma ln_pow2: "ln ((2::real) ^ n) = real n * ln 2"
  by (rule ln_realpow)

lemma log2_bounds:
  assumes "0 < x" "(2::real) ^ a \<le> x ^ k" "x ^ k < 2 ^ b" "0 < k"
  shows "real a / real k \<le> ln x / ln 2" "ln x / ln 2 < real b / real k"
proof -
  have l2: "0 < ln (2::real)" by simp
  have xk: "0 < x ^ k" using assms(1) by simp
  have lk: "ln (x ^ k) = real k * ln x" by (rule ln_realpow)
  have "ln ((2::real) ^ a) \<le> ln (x ^ k)" using assms(2) by (intro ln_mono) simp_all
  then have lo: "real a * ln 2 \<le> real k * ln x" unfolding ln_pow2 lk .
  have "ln (x ^ k) < ln ((2::real) ^ b)" using assms(3) xk by (intro ln_less_cancel_iff [THEN iffD2]) simp_all
  then have hi: "real k * ln x < real b * ln 2" unfolding ln_pow2 lk .
  have k: "0 < real k" using assms(4) by simp
  from lo have "real a \<le> real k * ln x / ln 2" using l2 by (simp only: pos_le_divide_eq)
  then have "real a \<le> (ln x / ln 2) * real k" by (simp only: mult.commute times_divide_eq_right)
  then show "real a / real k \<le> ln x / ln 2" using k by (simp only: pos_divide_le_eq)
  from hi have "real k * ln x / ln 2 < real b" using l2 by (simp only: pos_divide_less_eq)
  then have "(ln x / ln 2) * real k < real b" by (simp only: mult.commute times_divide_eq_right)
  then show "ln x / ln 2 < real b / real k" using k by (simp only: pos_less_divide_eq)
qed

lemma log_terms_8192_23171:
  "log_max_term 23171 8192 8 = 10" "log_min_term 23171 8192 8 = 10"
proof -
  define L where "L = ln (1024::real) / ln 2"
  have "real 10 / real 1 \<le> L"
    unfolding L_def by (rule log2_bounds(1) [where b = 11]) simp_all
  moreover have "L < real 11 / real 1"
    unfolding L_def by (rule log2_bounds(2) [where a = 10]) simp_all
  ultimately have "10 \<le> L" "L < 11" by simp_all
  then have "\<lfloor>L\<rfloor> = 10" "0 \<le> L" by (simp_all add: floor_unique)
  then have "c_trunc L = 10" by (simp add: c_trunc_def)
  then show "log_min_term 23171 8192 8 = 10"
    unfolding L_def by (simp add: log_min_term_def signed_divide_int_def)
  define M where "M = ln (23171 / 32 :: real) / ln 2"
  have "real 19 / real 2 \<le> M"
    unfolding M_def by (rule log2_bounds(1) [where b = 21]) (simp_all add: power2_eq_square)
  moreover have "M < real 21 / real 2"
    unfolding M_def by (rule log2_bounds(2) [where a = 19]) (simp_all add: power2_eq_square)
  ultimately have "10 \<le> M + 1 / 2" "M + 1 / 2 < 11" by simp_all
  then have "\<lfloor>M + 1 / 2\<rfloor> = 10" "0 \<le> M + 1 / 2" by (simp_all add: floor_unique)
  then have "c_trunc (M + 1 / 2) = 10" by (simp add: c_trunc_def)
  then show "log_max_term 23171 8192 8 = 10"
    unfolding M_def by (simp add: log_max_term_def)
qed

text \<open>
  C9 fails on the code for a large image. For two images of 8192 rows and 23171 columns
  and the parameters of the constructor, \<open>calc\<close> passes its checks and sets
  \<open>coarsest_scale = 10\<close>, which is not below \<open>finest_scale = 2\<close>, so the scales are
  kept; \<open>prepareBuffers\<close> then reaches level 10 and indexes the vector of ten
  variational refinement processors at 10, which is undefined: no pyramid is returned.
\<close>

theorem prepareBuffers_processor_out_of_range:
  "calc_validate DISOpticalFlowImpl (gray 8192 23171 (0::int)) (gray 8192 23171 0)
      (mat_create 0 0 CV_32F 2 (0::int)) 0 =
     Inr (DISOpticalFlowImpl\<lparr>coarsest_scale := 10\<rparr>, mat_create 8192 23171 CV_32F 2 0, False) \<and>
   finest_scale DISOpticalFlowImpl \<le> 10 \<and>
   variational_refinement_processors no_buffers = 10 \<and>
   prepareBuffers (DISOpticalFlowImpl\<lparr>coarsest_scale := 10\<rparr>) (8192, 23171) no_buffers = Inl Undefined"
proof -
  have a: "calc_validate DISOpticalFlowImpl (gray 8192 23171 (0::int)) (gray 8192 23171 0)
      (mat_create 0 0 CV_32F 2 (0::int)) 0 =
     Inr (DISOpticalFlowImpl\<lparr>coarsest_scale := 10\<rparr>, mat_create 8192 23171 CV_32F 2 0, False)"
    by (simp add: calc_validate_def gray_def mat_empty_def sameSize_def mat_create_def
        DISOpticalFlowImpl_def log_terms_8192_23171 Let_def)
  have b: "prepareBuffers (DISOpticalFlowImpl\<lparr>coarsest_scale := 10\<rparr>) (8192, 23171) no_buffers = Inl Undefined"
    by code_simp
  show ?thesis using a b by (simp add: DISOpticalFlowImpl_def no_buffers_def)
qed

section \<open>The argument checks of calc\<close>

lemma c_trunc_neg_iff: "c_trunc x < 0 \<longleftrightarrow> x \<le> - 1"
proof (cases "0 \<le> x")
  case True
  then show ?thesis by (simp add: c_trunc_def)
next
  case False
  have "\<lceil>x\<rceil> < 0 \<longleftrightarrow> \<lceil>x\<rceil> \<le> - 1" by linarith
  also have "\<dots> \<longleftrightarrow> x \<le> - 1" by (simp add: ceiling_le_iff)
  finally show ?thesis using False by (simp add: c_trunc_def)
qed

lemma log_half_neg_iff:
  assumes "0 < q"
  shows "ln q / ln 2 + 1 / 2 \<le> - 1 \<longleftrightarrow> 8 * q\<^sup>2 \<le> (1::real)"
proof -
  have l2: "0 < ln (2::real)" by simp
  have "ln q / ln 2 + 1 / 2 \<le> - 1 \<longleftrightarrow> ln q / ln 2 \<le> - (3 / 2)" by linarith
  also have "\<dots> \<longleftrightarrow> ln q \<le> - (3 / 2) * ln 2" using l2 by (simp add: pos_divide_le_eq)
  also have "\<dots> \<longleftrightarrow> 2 * ln q + 3 * ln 2 \<le> 0" by linarith
  also have "2 * ln q + 3 * ln 2 = ln (q\<^sup>2 * 8)"
  proof -
    have "ln ((2::real) ^ 3) = 3 * ln 2" by (simp only: ln_realpow of_nat_numeral)
    then have "ln (8::real) = 3 * ln 2" by simp
    then show ?thesis using assms by (simp add: ln_mult ln_realpow)
  qed
  also have "ln (q\<^sup>2 * 8) \<le> 0 \<longleftrightarrow> q\<^sup>2 * 8 \<le> 1"
    using assms by (intro ln_le_zero_iff) simp
  finally show ?thesis by (simp add: mult.commute)
qed

lemma log_max_term_neg_iff:
  assumes "0 < m" "0 < psz" "m = max c r"
  shows "log_max_term c r psz < 0 \<longleftrightarrow> m\<^sup>2 \<le> 2 * psz\<^sup>2"
proof -
  let ?q = "real_of_int m / (4 * real_of_int psz)"
  have q: "0 < ?q" using assms by simp
  have "log_max_term c r psz < 0 \<longleftrightarrow> 8 * ?q\<^sup>2 \<le> 1"
    using log_half_neg_iff [OF q] assms(3) by (simp add: log_max_term_def c_trunc_neg_iff)
  also have "8 * ?q\<^sup>2 = (real_of_int m)\<^sup>2 / (2 * (real_of_int psz)\<^sup>2)"
    by (simp add: power_divide power_mult_distrib)
  also have "\<dots> \<le> 1 \<longleftrightarrow> (real_of_int m)\<^sup>2 \<le> 2 * (real_of_int psz)\<^sup>2"
    using assms by (simp add: divide_le_eq)
  also have "\<dots> \<longleftrightarrow> real_of_int (m\<^sup>2) \<le> real_of_int (2 * psz\<^sup>2)" by simp
  also have "\<dots> \<longleftrightarrow> m\<^sup>2 \<le> 2 * psz\<^sup>2" by (rule of_int_le_iff)
  finally show ?thesis .
qed

lemma log_min_term_neg_iff:
  assumes "0 \<le> m" "0 < psz" "m = min c r"
  shows "log_min_term c r psz < 0 \<longleftrightarrow> m < psz"
proof -
  have sd: "m sdiv psz = m div psz" using assms by (simp add: sdiv_nonneg)
  show ?thesis
  proof (cases "m < psz")
    case True
    then have "m div psz = 0" using assms by (simp add: div_pos_pos_trivial)
    then show ?thesis using True sd assms(3) by (simp add: log_min_term_def)
  next
    case False
    then have "0 < m div psz" using assms(2) by (simp add: pos_imp_zdiv_pos_iff)
    then have "1 \<le> m div psz" by linarith
    then have q: "m div psz \<noteq> 0" "1 \<le> real_of_int (m div psz)" by linarith+
    then have "0 \<le> ln (real_of_int (m div psz)) / ln 2" by simp
    then have "0 \<le> c_trunc (ln (real_of_int (m div psz)) / ln 2)" by (simp add: c_trunc_def)
    then show ?thesis using False sd q assms(3) by (simp add: log_min_term_def)
  qed
qed

lemma sq_le_128_iff: "0 \<le> m \<Longrightarrow> m\<^sup>2 \<le> 2 * 8\<^sup>2 \<longleftrightarrow> m < (12::int)"
proof
  assume "0 \<le> m" "m\<^sup>2 \<le> 2 * 8\<^sup>2"
  show "m < 12"
  proof (rule ccontr)
    assume "\<not> m < 12"
    then have "12 * 12 \<le> m * m" by (intro mult_mono) simp_all
    with \<open>m\<^sup>2 \<le> 2 * 8\<^sup>2\<close> show False by (simp add: power2_eq_square)
  qed
next
  assume "0 \<le> m" "m < 12"
  then have "m * m \<le> 11 * 11" by (intro mult_mono) simp_all
  then show "m\<^sup>2 \<le> 2 * 8\<^sup>2" by (simp add: power2_eq_square)
qed


lemma valid_images_dims:
  assumes "valid_images I0 I1" "wf_mat I0"
  shows "0 < rows I0" "0 < cols I0"
  using assms by (auto simp: valid_images_def wf_mat_def mat_empty_def order_less_le)

lemma calc_validate_valid:
  assumes v: "valid_images I0 I1" and ps: "0 < patch_size p"
  shows "calc_validate p I0 I1 flow fresh =
     (let flow1 = (if flow_usable flow I0 then flow else mat_create (rows I1) (cols I1) CV_32F 2 fresh);
          p1 = p\<lparr>coarsest_scale := min (log_max_term (cols I0) (rows I0) (patch_size p))
                                          (log_min_term (cols I0) (rows I0) (patch_size p))\<rparr>
      in if log_max_term (cols I0) (rows I0) (patch_size p) < 0 \<or>
            log_min_term (cols I0) (rows I0) (patch_size p) < 0
         then Inl (StsBadSize, p1, flow1) else Inr (p1, flow1, flow_usable flow I0))"
  using v ps by (simp add: calc_validate_def valid_images_def flow_usable_def Let_def min_less_iff_disj)

text \<open>
  C2, as amended. For well-formed, equal-size, single-channel, 8-bit, continuous images and
  patch size 8, \<open>calc\<close> raises the size error exactly when the larger dimension is below
  12 or the smaller dimension is below 8; otherwise the checks pass.
\<close>

theorem calc_size_error_iff:
  assumes "valid_images I0 I1" "wf_mat I0" "patch_size p = 8"
  shows "calc_validate p I0 I1 flow fresh =
     (let flow1 = (if flow_usable flow I0 then flow else mat_create (rows I1) (cols I1) CV_32F 2 fresh);
          p1 = p\<lparr>coarsest_scale := min (log_max_term (cols I0) (rows I0) 8)
                                          (log_min_term (cols I0) (rows I0) 8)\<rparr>
      in if max (cols I0) (rows I0) < 12 \<or> min (cols I0) (rows I0) < 8
         then Inl (StsBadSize, p1, flow1) else Inr (p1, flow1, flow_usable flow I0))"
proof -
  from valid_images_dims [OF assms(1,2)] have d: "0 < rows I0" "0 < cols I0" .
  then have m: "0 < max (cols I0) (rows I0)" "0 \<le> max (cols I0) (rows I0)" "0 \<le> min (cols I0) (rows I0)" by simp_all
  have a: "log_max_term (cols I0) (rows I0) 8 < 0 \<longleftrightarrow> max (cols I0) (rows I0) < 12"
    using log_max_term_neg_iff [OF m(1), of 8 "cols I0" "rows I0"] sq_le_128_iff [OF m(2)] by simp
  have b: "log_min_term (cols I0) (rows I0) 8 < 0 \<longleftrightarrow> min (cols I0) (rows I0) < 8"
    using log_min_term_neg_iff [OF m(3), of 8 "cols I0" "rows I0"] by simp
  show ?thesis
    using calc_validate_valid [OF assms(1), of p flow fresh] assms(3) by (simp only: a b)
qed

lemma log_min_term_one: "0 < psz \<Longrightarrow> psz \<le> min c r \<Longrightarrow> min c r < 2 * psz \<Longrightarrow> log_min_term c r psz = 0"
proof -
  assume a: "0 < psz" "psz \<le> min c r" "min c r < 2 * psz"
  have "min c r div psz = 1"
    using a by (intro int_div_pos_eq [of _ _ _ "min c r - psz"]) linarith+
  moreover have "min c r sdiv psz = min c r div psz" using a by (intro sdiv_nonneg) linarith+
  ultimately show ?thesis by (simp add: log_min_term_def c_trunc_def)
qed

text \<open>
  The claim C2 as stated fails: an image of 11 rows and 100 columns has its smallest
  dimension below 12 and passes the size check.
\<close>

theorem calc_size_error_counterexample:
  "min (11::int) 100 < 12 \<and>
   calc_validate DISOpticalFlowImpl (gray 11 100 (0::int)) (gray 11 100 0)
       (mat_create 0 0 CV_8U 1 (0::int)) 1 =
     Inr (DISOpticalFlowImpl\<lparr>coarsest_scale := 0\<rparr>, mat_create 11 100 CV_32F 2 1, False)"
proof -
  have v: "valid_images (gray 11 100 (0::int)) (gray 11 100 0)"
    by (simp add: valid_images_def gray_def mat_empty_def sameSize_def)
  have ps: "0 < patch_size DISOpticalFlowImpl" by (simp add: DISOpticalFlowImpl_def)
  have a: "\<not> log_max_term 100 11 8 < 0"
    using log_max_term_neg_iff [of 100 8 100 11] by simp
  have b: "log_min_term 100 11 8 = 0" by (rule log_min_term_one) simp_all
  from a b have c: "min (log_max_term 100 11 8) (log_min_term 100 11 8) = 0" by simp
  show ?thesis
    using calc_validate_valid [OF v ps, of "mat_create 0 0 CV_8U 1 0" 1] a b c
    by (simp add: gray_def DISOpticalFlowImpl_def flow_usable_def sameSize_def mat_create_def)
qed

theorem calc_size_error_iff_witness:
  "calc_validate DISOpticalFlowImpl (gray 12 12 (0::int)) (gray 12 12 0) (mat_create 0 0 CV_8U 1 (0::int)) 1 =
     Inr (DISOpticalFlowImpl\<lparr>coarsest_scale := min (log_max_term 12 12 8) (log_min_term 12 12 8)\<rparr>,
          mat_create 12 12 CV_32F 2 1, False) \<and>
   calc_validate DISOpticalFlowImpl (gray 11 11 (0::int)) (gray 11 11 0) (mat_create 0 0 CV_8U 1 (0::int)) 1 =
     Inl (StsBadSize, DISOpticalFlowImpl\<lparr>coarsest_scale := min (log_max_term 11 11 8) (log_min_term 11 11 8)\<rparr>,
          mat_create 11 11 CV_32F 2 1)"
proof -
  have v: "valid_images (gray 12 12 (0::int)) (gray 12 12 0)" "wf_mat (gray 12 12 (0::int))"
      "valid_images (gray 11 11 (0::int)) (gray 11 11 0)" "wf_mat (gray 11 11 (0::int))"
    by (simp_all add: valid_images_def gray_def mat_empty_def sameSize_def wf_mat_def)
  have ps: "patch_size DISOpticalFlowImpl = 8" by (simp add: DISOpticalFlowImpl_def)
  show ?thesis
    using calc_size_error_iff [OF v(1,2) ps, of "mat_create 0 0 CV_8U 1 0" 1]
      calc_size_error_iff [OF v(3,4) ps, of "mat_create 0 0 CV_8U 1 0" 1]
    by (simp add: gray_def flow_usable_def sameSize_def mat_create_def)
qed

text \<open>
  C1, as amended. An empty image, a wrong depth or channel count, mismatched sizes or
  non-continuous storage make \<open>calc\<close> fail before anything is changed: parameters and
  flow array are returned as they were. Every other failure of the checks (the size error
  among them) is raised for valid images only, after the flow array has been re-created
  at the size of the images unless it already was a two-channel float array of that size,
  and the size error after \<open>coarsest_scale\<close> has been overwritten.
\<close>

theorem calc_failure_effects:
  "(\<not> valid_images I0 I1 \<longrightarrow> calc_validate p I0 I1 flow fresh = Inl (StsAssert, p, flow)) \<and>
   (\<forall>e p' flow'. calc_validate p I0 I1 flow fresh = Inl (e, p', flow') \<and> e \<noteq> StsAssert \<longrightarrow>
      valid_images I0 I1 \<and>
      flow' = (if flow_usable flow I0 then flow else mat_create (rows I1) (cols I1) CV_32F 2 fresh) \<and>
      (e = StsBadSize \<longrightarrow>
         p' = p\<lparr>coarsest_scale := min (log_max_term (cols I0) (rows I0) (patch_size p))
                                        (log_min_term (cols I0) (rows I0) (patch_size p))\<rparr>))"
  by (auto simp: calc_validate_def valid_images_def flow_usable_def Let_def split: if_splits)

text \<open>
  The claim C1 as stated fails: for an image of 5 by 100 pixels and an empty flow array the
  size error is raised after the caller's flow array has been allocated.
\<close>

theorem calc_failure_counterexample:
  "calc_validate DISOpticalFlowImpl (gray 5 100 (0::int)) (gray 5 100 0) (mat_create 0 0 CV_8U 1 (0::int)) 1 =
     Inl (StsBadSize, DISOpticalFlowImpl\<lparr>coarsest_scale := - (2 ^ 31)\<rparr>, mat_create 5 100 CV_32F 2 1) \<and>
   mat_create 5 100 CV_32F 2 1 \<noteq> mat_create 0 0 CV_8U 1 (0::int)"
proof -
  have v: "valid_images (gray 5 100 (0::int)) (gray 5 100 0)"
    by (simp add: valid_images_def gray_def mat_empty_def sameSize_def)
  have ps: "0 < patch_size DISOpticalFlowImpl" by (simp add: DISOpticalFlowImpl_def)
  have a: "\<not> log_max_term 100 5 8 < 0"
    using log_max_term_neg_iff [of 100 8 100 5] by simp
  have b: "log_min_term 100 5 8 = - (2 ^ 31)" by (simp add: log_min_term_def)
  from a b have c: "min (log_max_term 100 5 8) (log_min_term 100 5 8) = - (2 ^ 31)" by simp
  show ?thesis
    using calc_validate_valid [OF v ps, of "mat_create 0 0 CV_8U 1 0" 1] a c
    by (simp add: gray_def DISOpticalFlowImpl_def flow_usable_def sameSize_def mat_create_def b)
qed

theorem calc_failure_effects_witness:
  "calc_validate DISOpticalFlowImpl (gray 0 0 (0::int)) (gray 0 0 0) (mat_create 0 0 CV_8U 1 (0::int)) 1 =
     Inl (StsAssert, DISOpticalFlowImpl, mat_create 0 0 CV_8U 1 0) \<and>
   (\<exists>p'. calc_validate DISOpticalFlowImpl (gray 5 100 (0::int)) (gray 5 100 0) (mat_create 5 100 CV_32F 2 (7::int)) 1 =
     Inl (StsBadSize, p', mat_create 5 100 CV_32F 2 7))"
proof -
  have "\<not> valid_images (gray 0 0 (0::int)) (gray 0 0 0)"
    by (simp add: valid_images_def gray_def mat_empty_def)
  with calc_failure_effects [of "gray 0 0 (0::int)" "gray 0 0 0" DISOpticalFlowImpl "mat_create 0 0 CV_8U 1 0" 1]
  have 1: "calc_validate DISOpticalFlowImpl (gray 0 0 (0::int)) (gray 0 0 0) (mat_create 0 0 CV_8U 1 (0::int)) 1 =
     Inl (StsAssert, DISOpticalFlowImpl, mat_create 0 0 CV_8U 1 0)" by blast
  have v: "valid_images (gray 5 100 (0::int)) (gray 5 100 0)"
    by (simp add: valid_images_def gray_def mat_empty_def sameSize_def)
  have ps: "0 < patch_size DISOpticalFlowImpl" by (simp add: DISOpticalFlowImpl_def)
  have b: "log_min_term 100 5 8 < 0" by (simp add: log_min_term_def)
  obtain p' f' where r: "calc_validate DISOpticalFlowImpl (gray 5 100 (0::int)) (gray 5 100 0) (mat_create 5 100 CV_32F 2 (7::int)) 1 =
     Inl (StsBadSize, p', f')"
    using calc_validate_valid [OF v ps, of "mat_create 5 100 CV_32F 2 (7::int)" 1] b
    by (simp add: gray_def DISOpticalFlowImpl_def Let_def)
  have fu: "flow_usable (mat_create 5 100 CV_32F 2 (7::int)) (gray 5 100 (0::int))"
    by (simp add: flow_usable_def sameSize_def mat_create_def gray_def)
  from calc_failure_effects [of "gray 5 100 (0::int)" "gray 5 100 0" DISOpticalFlowImpl "mat_create 5 100 CV_32F 2 (7::int)" 1] r fu
  have "f' = mat_create 5 100 CV_32F 2 7" by simp
  with 1 r show ?thesis by blast
qed

section \<open>The patch functions in exact arithmetic\<close>

lemma exact_ops [simp]:
  "fadd exact a b = a + b" "fsub exact a b = a - b" "fmul exact a b = a * b"
  "fdiv exact a b = a / b" "fcvt exact k = real_of_int k"
  by (simp_all add: fadd_def fsub_def fmul_def fdiv_def fcvt_def exact_def)

lemma patch_diff_exact:
  "patch_diff exact I0_ptr I1_ptr I0_stride I1_stride w00 w01 w10 w11 i j =
     bilinear_residual I0_ptr I1_ptr I0_stride I1_stride w00 w01 w10 w11 i j"
  by (simp add: patch_diff_def bilinear_residual_def pixel_def add.assoc)

lemma fold_sum3:
  "fold (\<lambda>j (a, b, c). (a + f j, b + g j, c + k j)) [0..<n] (a0, b0, c0) =
     (a0 + (\<Sum>j<n. f j), b0 + (\<Sum>j<n. g j), c0 + (\<Sum>j<n. k j :: real))"
  by (induction n) (simp_all add: add.assoc)

lemma fold_sum2:
  "fold (\<lambda>j (a, b). (a + f j, b + g j)) [0..<n] (a0, b0) =
     (a0 + (\<Sum>j<n. f j), b0 + (\<Sum>j<n. g j :: real))"
  by (induction n) (simp_all add: add.assoc)

lemma fold_sum1:
  "fold (\<lambda>j a. a + f j) [0..<n] a0 = a0 + (\<Sum>j<n. f j :: real)"
  by (induction n) (simp_all add: add.assoc)

lemma fold_fold_sum3:
  "fold (\<lambda>i. fold (\<lambda>j (a, b, c). (a + f i j, b + g i j, c + k i j)) [0..<m]) [0..<n] (a0, b0, c0) =
     (a0 + (\<Sum>i<n. \<Sum>j<m. f i j), b0 + (\<Sum>i<n. \<Sum>j<m. g i j), c0 + (\<Sum>i<n. \<Sum>j<m. k i j :: real))"
  by (induction n) (simp_all add: fold_sum3 add.assoc)

lemma fold_fold_sum2:
  "fold (\<lambda>i. fold (\<lambda>j (a, b). (a + f i j, b + g i j)) [0..<m]) [0..<n] (a0, b0) =
     (a0 + (\<Sum>i<n. \<Sum>j<m. f i j), b0 + (\<Sum>i<n. \<Sum>j<m. g i j :: real))"
  by (induction n) (simp_all add: fold_sum2 add.assoc)

lemma fold_fold_sum1:
  "fold (\<lambda>i. fold (\<lambda>j a. a + f i j) [0..<m]) [0..<n] a0 = a0 + (\<Sum>i<n. \<Sum>j<m. f i j :: real)"
  by (induction n) (simp_all add: fold_sum1 add.assoc)

lemma processPatch_scalar_exact:
  "processPatch_scalar exact I0_ptr I1_ptr I0x_ptr I0y_ptr I0_stride I1_stride w00 w01 w10 w11 patch_sz =
    ((\<Sum>i<nat patch_sz. \<Sum>j<nat patch_sz.
        (bilinear_residual I0_ptr I1_ptr I0_stride I1_stride w00 w01 w10 w11 (int i) (int j))\<^sup>2),
     (\<Sum>i<nat patch_sz. \<Sum>j<nat patch_sz.
        bilinear_residual I0_ptr I1_ptr I0_stride I1_stride w00 w01 w10 w11 (int i) (int j) *
        gradient I0x_ptr I0_stride (int i) (int j)),
     (\<Sum>i<nat patch_sz. \<Sum>j<nat patch_sz.
        bilinear_residual I0_ptr I1_ptr I0_stride I1_stride w00 w01 w10 w11 (int i) (int j) *
        gradient I0y_ptr I0_stride (int i) (int j)))"
  unfolding processPatch_scalar_def
  by (simp add: patch_diff_exact Let_def fold_fold_sum3 gradient_def power2_eq_square)

lemma computeSSD_scalar_exact:
  "computeSSD_scalar exact I0_ptr I1_ptr I0_stride I1_stride w00 w01 w10 w11 patch_sz =
    (\<Sum>i<nat patch_sz. \<Sum>j<nat patch_sz.
        (bilinear_residual I0_ptr I1_ptr I0_stride I1_stride w00 w01 w10 w11 (int i) (int j))\<^sup>2)"
  unfolding computeSSD_scalar_def
  by (simp add: patch_diff_exact Let_def fold_fold_sum1 power2_eq_square)

lemma meanNorm_sums_scalar_exact:
  "meanNorm_sums_scalar exact I0_ptr I1_ptr I0_stride I1_stride w00 w01 w10 w11 patch_sz =
    ((\<Sum>i<nat patch_sz. \<Sum>j<nat patch_sz.
        bilinear_residual I0_ptr I1_ptr I0_stride I1_stride w00 w01 w10 w11 (int i) (int j)),
     (\<Sum>i<nat patch_sz. \<Sum>j<nat patch_sz.
        (bilinear_residual I0_ptr I1_ptr I0_stride I1_stride w00 w01 w10 w11 (int i) (int j))\<^sup>2))"
  unfolding meanNorm_sums_scalar_def
  by (simp add: patch_diff_exact Let_def fold_fold_sum2 power2_eq_square)


lemma hal_init_inv:
  "hal_row_inv I1_ptr I0_stride I1_stride 0 (HAL_INIT_BILINEAR_8x8_PATCH_EXTRACTION I1_ptr I1_stride)"
  by (simp add: hal_row_inv_def HAL_INIT_BILINEAR_8x8_PATCH_EXTRACTION_def)

lemma hal_process_diff:
  fixes rnd I0_ptr w00 w01 w10 w11
  assumes "hal_row_inv I1_ptr I0_stride I1_stride n s"
  defines "s1 \<equiv> HAL_PROCESS_BILINEAR_8x8_PATCH_EXTRACTION rnd I0_ptr I1_ptr w00 w01 w10 w11 s"
  defines "D \<equiv> patch_diff rnd I0_ptr I1_ptr I0_stride I1_stride w00 w01 w10 w11 (int n)"
  shows "I_diff_left s1 = (D 0, D 1, D 2, D 3)" "I_diff_right s1 = (D 4, D 5, D 6, D 7)"
    "hal_row_inv I1_ptr I0_stride I1_stride (Suc n)
       (HAL_BILINEAR_8x8_PATCH_EXTRACTION_NEXT_ROW I0_stride I1_stride s1)"
  using assms(1) unfolding s1_def D_def
  by (simp_all add: hal_row_inv_def HAL_PROCESS_BILINEAR_8x8_PATCH_EXTRACTION_def Let_def
      HAL_BILINEAR_8x8_PATCH_EXTRACTION_NEXT_ROW_def bilinear_x4_def load_u8x4_def
      v_setall_f32_def patch_diff_def algebra_simps)


lemma sum8: "(\<Sum>j<8. f (int j)) = f 0 + f 1 + f 2 + f 3 + f 4 + f 5 + f 6 + (f 7 :: real)"
  by (simp add: eval_nat_numeral)

lemma v_reduce_sum_exact: "v_reduce_sum exact tgt (a, b, c, d) = a + b + c + d"
  by (cases tgt) simp_all

lemma computeSSD_simd_inv:
  fixes I0_ptr I1_ptr I0_stride I1_stride w00 w01 w10 w11
  defines "D \<equiv> \<lambda>r. bilinear_residual I0_ptr I1_ptr I0_stride I1_stride w00 w01 w10 w11 (int r)"
  defines "q \<equiv> \<lambda>k r. (D r k)\<^sup>2 + (D r (k + 4))\<^sup>2"
  defines "row \<equiv> computeSSD_row exact I0_ptr I1_ptr I0_stride I1_stride w00 w01 w10 w11"
  defines "init \<equiv> (HAL_INIT_BILINEAR_8x8_PATCH_EXTRACTION I1_ptr I1_stride, v_setall_f32 0)"
  shows "\<exists>s. (row ^^ n) init = (s, (\<Sum>r<n. q 0 r), (\<Sum>r<n. q 1 r), (\<Sum>r<n. q 2 r), (\<Sum>r<n. q 3 r)) \<and>
        hal_row_inv I1_ptr I0_stride I1_stride n s"
proof (induction n)
  case 0
  show ?case by (simp add: hal_init_inv v_setall_f32_def init_def)
next
  case (Suc n)
  then obtain s where s: "(row ^^ n) init = (s, (\<Sum>r<n. q 0 r), (\<Sum>r<n. q 1 r), (\<Sum>r<n. q 2 r), (\<Sum>r<n. q 3 r))"
    and inv: "hal_row_inv I1_ptr I0_stride I1_stride n s" by blast
  note d = hal_process_diff [OF inv, where rnd = exact and ?I0_ptr = I0_ptr and ?w00.0 = w00
      and ?w01.0 = w01 and ?w10.0 = w10 and ?w11.0 = w11, unfolded patch_diff_exact]
  have "(row ^^ Suc n) init = row ((row ^^ n) init)" by simp
  also have "\<dots> = row (s, (\<Sum>r<n. q 0 r), (\<Sum>r<n. q 1 r), (\<Sum>r<n. q 2 r), (\<Sum>r<n. q 3 r))"
    by (simp only: s)
  also have "\<dots> = (HAL_BILINEAR_8x8_PATCH_EXTRACTION_NEXT_ROW I0_stride I1_stride
                      (HAL_PROCESS_BILINEAR_8x8_PATCH_EXTRACTION exact I0_ptr I1_ptr w00 w01 w10 w11 s),
                   (\<Sum>r<Suc n. q 0 r), (\<Sum>r<Suc n. q 1 r), (\<Sum>r<Suc n. q 2 r), (\<Sum>r<Suc n. q 3 r))"
    by (simp add: row_def computeSSD_row_def Let_def d q_def D_def power2_eq_square)
  finally show ?case using d(3) by blast
qed

lemma lanes_sum:
  fixes F :: "nat \<Rightarrow> int \<Rightarrow> real"
  shows "(\<Sum>r<8. F r 0 + F r 4) + (\<Sum>r<8. F r 1 + F r 5) + (\<Sum>r<8. F r 2 + F r 6) +
         (\<Sum>r<8. F r 3 + F r 7) = (\<Sum>i<8. \<Sum>j<8. F i (int j))"
  unfolding sum.distrib [symmetric]
  by (rule sum.cong [OF refl]) (simp add: sum8 [of "F _"])

lemma computeSSD_simd_exact:
  "computeSSD_simd exact tgt I0_ptr I1_ptr I0_stride I1_stride w00 w01 w10 w11 =
    (\<Sum>i<8. \<Sum>j<8. (bilinear_residual I0_ptr I1_ptr I0_stride I1_stride w00 w01 w10 w11 (int i) (int j))\<^sup>2)"
proof -
  let ?D = "\<lambda>r. bilinear_residual I0_ptr I1_ptr I0_stride I1_stride w00 w01 w10 w11 (int r)"
  from computeSSD_simd_inv [where n = 8 and ?I0_ptr = I0_ptr and ?I1_ptr = I1_ptr and ?I0_stride = I0_stride
      and ?I1_stride = I1_stride and ?w00.0 = w00 and ?w01.0 = w01 and ?w10.0 = w10 and ?w11.0 = w11]
  obtain s where "(computeSSD_row exact I0_ptr I1_ptr I0_stride I1_stride w00 w01 w10 w11 ^^ 8)
            (HAL_INIT_BILINEAR_8x8_PATCH_EXTRACTION I1_ptr I1_stride, v_setall_f32 0) =
          (s, (\<Sum>r<8. (?D r 0)\<^sup>2 + (?D r 4)\<^sup>2), (\<Sum>r<8. (?D r 1)\<^sup>2 + (?D r 5)\<^sup>2),
              (\<Sum>r<8. (?D r 2)\<^sup>2 + (?D r 6)\<^sup>2), (\<Sum>r<8. (?D r 3)\<^sup>2 + (?D r 7)\<^sup>2))"
    by auto
  then show ?thesis
    unfolding computeSSD_simd_def
    by (simp only: prod.case v_reduce_sum_exact lanes_sum [of "\<lambda>r j. (?D r j)\<^sup>2"])
qed

lemma meanNorm_simd_inv:
  fixes I0_ptr I1_ptr I0_stride I1_stride w00 w01 w10 w11
  defines "D \<equiv> \<lambda>r. bilinear_residual I0_ptr I1_ptr I0_stride I1_stride w00 w01 w10 w11 (int r)"
  defines "q \<equiv> \<lambda>k r. (D r k)\<^sup>2 + (D r (k + 4))\<^sup>2"
  defines "l \<equiv> \<lambda>k r. D r k + D r (k + 4)"
  defines "row \<equiv> meanNorm_row exact I0_ptr I1_ptr I0_stride I1_stride w00 w01 w10 w11"
  defines "init \<equiv> (HAL_INIT_BILINEAR_8x8_PATCH_EXTRACTION I1_ptr I1_stride, v_setall_f32 0, v_setall_f32 0)"
  shows "\<exists>s. (row ^^ n) init =
          (s, ((\<Sum>r<n. l 0 r), (\<Sum>r<n. l 1 r), (\<Sum>r<n. l 2 r), (\<Sum>r<n. l 3 r)),
              ((\<Sum>r<n. q 0 r), (\<Sum>r<n. q 1 r), (\<Sum>r<n. q 2 r), (\<Sum>r<n. q 3 r))) \<and>
        hal_row_inv I1_ptr I0_stride I1_stride n s"
proof (induction n)
  case 0
  show ?case by (simp add: hal_init_inv v_setall_f32_def init_def)
next
  case (Suc n)
  then obtain s where s: "(row ^^ n) init =
          (s, ((\<Sum>r<n. l 0 r), (\<Sum>r<n. l 1 r), (\<Sum>r<n. l 2 r), (\<Sum>r<n. l 3 r)),
              ((\<Sum>r<n. q 0 r), (\<Sum>r<n. q 1 r), (\<Sum>r<n. q 2 r), (\<Sum>r<n. q 3 r)))"
    and inv: "hal_row_inv I1_ptr I0_stride I1_stride n s" by blast
  note d = hal_process_diff [OF inv, where rnd = exact and ?I0_ptr = I0_ptr and ?w00.0 = w00
      and ?w01.0 = w01 and ?w10.0 = w10 and ?w11.0 = w11, unfolded patch_diff_exact]
  have "(row ^^ Suc n) init = row ((row ^^ n) init)" by simp
  also have "\<dots> = row (s, ((\<Sum>r<n. l 0 r), (\<Sum>r<n. l 1 r), (\<Sum>r<n. l 2 r), (\<Sum>r<n. l 3 r)),
              ((\<Sum>r<n. q 0 r), (\<Sum>r<n. q 1 r), (\<Sum>r<n. q 2 r), (\<Sum>r<n. q 3 r)))"
    by (simp only: s)
  also have "\<dots> = (HAL_BILINEAR_8x8_PATCH_EXTRACTION_NEXT_ROW I0_stride I1_stride
                      (HAL_PROCESS_BILINEAR_8x8_PATCH_EXTRACTION exact I0_ptr I1_ptr w00 w01 w10 w11 s),
                   ((\<Sum>r<Suc n. l 0 r), (\<Sum>r<Suc n. l 1 r), (\<Sum>r<Suc n. l 2 r), (\<Sum>r<Suc n. l 3 r)),
                   ((\<Sum>r<Suc n. q 0 r), (\<Sum>r<Suc n. q 1 r), (\<Sum>r<Suc n. q 2 r), (\<Sum>r<Suc n. q 3 r)))"
    by (simp add: row_def meanNorm_row_def Let_def d q_def l_def D_def power2_eq_square)
  finally show ?case using d(3) by blast
qed

lemma meanNorm_sums_simd_exact:
  "meanNorm_sums_simd exact tgt I0_ptr I1_ptr I0_stride I1_stride w00 w01 w10 w11 =
    ((\<Sum>i<8. \<Sum>j<8. bilinear_residual I0_ptr I1_ptr I0_stride I1_stride w00 w01 w10 w11 (int i) (int j)),
     (\<Sum>i<8. \<Sum>j<8. (bilinear_residual I0_ptr I1_ptr I0_stride I1_stride w00 w01 w10 w11 (int i) (int j))\<^sup>2))"
proof -
  let ?D = "\<lambda>r. bilinear_residual I0_ptr I1_ptr I0_stride I1_stride w00 w01 w10 w11 (int r)"
  from meanNorm_simd_inv [where n = 8 and ?I0_ptr = I0_ptr and ?I1_ptr = I1_ptr and ?I0_stride = I0_stride
      and ?I1_stride = I1_stride and ?w00.0 = w00 and ?w01.0 = w01 and ?w10.0 = w10 and ?w11.0 = w11]
  obtain s where "(meanNorm_row exact I0_ptr I1_ptr I0_stride I1_stride w00 w01 w10 w11 ^^ 8)
            (HAL_INIT_BILINEAR_8x8_PATCH_EXTRACTION I1_ptr I1_stride, v_setall_f32 0, v_setall_f32 0) =
          (s, ((\<Sum>r<8. ?D r 0 + ?D r 4), (\<Sum>r<8. ?D r 1 + ?D r 5),
               (\<Sum>r<8. ?D r 2 + ?D r 6), (\<Sum>r<8. ?D r 3 + ?D r 7)),
              ((\<Sum>r<8. (?D r 0)\<^sup>2 + (?D r 4)\<^sup>2), (\<Sum>r<8. (?D r 1)\<^sup>2 + (?D r 5)\<^sup>2),
               (\<Sum>r<8. (?D r 2)\<^sup>2 + (?D r 6)\<^sup>2), (\<Sum>r<8. (?D r 3)\<^sup>2 + (?D r 7)\<^sup>2)))"
    by auto
  then show ?thesis
    unfolding meanNorm_sums_simd_def
    by (simp only: prod.case v_reduce_sum_exact lanes_sum [of "\<lambda>r j. (?D r j)\<^sup>2"] lanes_sum [of ?D])
qed

lemma processPatch_simd_inv:
  fixes I0_ptr I1_ptr I0x_ptr I0y_ptr I0_stride I1_stride w00 w01 w10 w11
  defines "D \<equiv> \<lambda>r. bilinear_residual I0_ptr I1_ptr I0_stride I1_stride w00 w01 w10 w11 (int r)"
  defines "q \<equiv> \<lambda>k r. (D r k)\<^sup>2 + (D r (k + 4))\<^sup>2"
  defines "gx \<equiv> \<lambda>k r. D r k * gradient I0x_ptr I0_stride (int r) k +
                        D r (k + 4) * gradient I0x_ptr I0_stride (int r) (k + 4)"
  defines "gy \<equiv> \<lambda>k r. D r k * gradient I0y_ptr I0_stride (int r) k +
                        D r (k + 4) * gradient I0y_ptr I0_stride (int r) (k + 4)"
  defines "row \<equiv> processPatch_row exact I0_ptr I1_ptr I0x_ptr I0y_ptr I0_stride I1_stride w00 w01 w10 w11"
  defines "init \<equiv> (HAL_INIT_BILINEAR_8x8_PATCH_EXTRACTION I1_ptr I1_stride, 0::int,
                    v_setall_f32 0, v_setall_f32 0, v_setall_f32 0)"
  shows "\<exists>s. (row ^^ n) init =
          (s, int n * I0_stride,
              ((\<Sum>r<n. gx 0 r), (\<Sum>r<n. gx 1 r), (\<Sum>r<n. gx 2 r), (\<Sum>r<n. gx 3 r)),
              ((\<Sum>r<n. gy 0 r), (\<Sum>r<n. gy 1 r), (\<Sum>r<n. gy 2 r), (\<Sum>r<n. gy 3 r)),
              ((\<Sum>r<n. q 0 r), (\<Sum>r<n. q 1 r), (\<Sum>r<n. q 2 r), (\<Sum>r<n. q 3 r))) \<and>
        hal_row_inv I1_ptr I0_stride I1_stride n s"
proof (induction n)
  case 0
  show ?case by (simp add: hal_init_inv v_setall_f32_def init_def)
next
  case (Suc n)
  then obtain s where s: "(row ^^ n) init =
          (s, int n * I0_stride,
              ((\<Sum>r<n. gx 0 r), (\<Sum>r<n. gx 1 r), (\<Sum>r<n. gx 2 r), (\<Sum>r<n. gx 3 r)),
              ((\<Sum>r<n. gy 0 r), (\<Sum>r<n. gy 1 r), (\<Sum>r<n. gy 2 r), (\<Sum>r<n. gy 3 r)),
              ((\<Sum>r<n. q 0 r), (\<Sum>r<n. q 1 r), (\<Sum>r<n. q 2 r), (\<Sum>r<n. q 3 r)))"
    and inv: "hal_row_inv I1_ptr I0_stride I1_stride n s" by blast
  note d = hal_process_diff [OF inv, where rnd = exact and ?I0_ptr = I0_ptr and ?w00.0 = w00
      and ?w01.0 = w01 and ?w10.0 = w10 and ?w11.0 = w11, unfolded patch_diff_exact]
  have "(row ^^ Suc n) init = row ((row ^^ n) init)" by simp
  also have "\<dots> = row (s, int n * I0_stride,
              ((\<Sum>r<n. gx 0 r), (\<Sum>r<n. gx 1 r), (\<Sum>r<n. gx 2 r), (\<Sum>r<n. gx 3 r)),
              ((\<Sum>r<n. gy 0 r), (\<Sum>r<n. gy 1 r), (\<Sum>r<n. gy 2 r), (\<Sum>r<n. gy 3 r)),
              ((\<Sum>r<n. q 0 r), (\<Sum>r<n. q 1 r), (\<Sum>r<n. q 2 r), (\<Sum>r<n. q 3 r)))"
    by (simp only: s)
  also have "\<dots> = (HAL_BILINEAR_8x8_PATCH_EXTRACTION_NEXT_ROW I0_stride I1_stride
                      (HAL_PROCESS_BILINEAR_8x8_PATCH_EXTRACTION exact I0_ptr I1_ptr w00 w01 w10 w11 s),
                   int (Suc n) * I0_stride,
                   ((\<Sum>r<Suc n. gx 0 r), (\<Sum>r<Suc n. gx 1 r), (\<Sum>r<Suc n. gx 2 r), (\<Sum>r<Suc n. gx 3 r)),
                   ((\<Sum>r<Suc n. gy 0 r), (\<Sum>r<Suc n. gy 1 r), (\<Sum>r<Suc n. gy 2 r), (\<Sum>r<Suc n. gy 3 r)),
                   ((\<Sum>r<Suc n. q 0 r), (\<Sum>r<Suc n. q 1 r), (\<Sum>r<Suc n. q 2 r), (\<Sum>r<Suc n. q 3 r)))"
    by (simp add: row_def processPatch_row_def Let_def d q_def gx_def gy_def D_def power2_eq_square
        load_s16x4_def gradient_def algebra_simps)
  finally show ?case using d(3) by blast
qed

lemma processPatch_simd_exact:
  "processPatch_simd exact tgt I0_ptr I1_ptr I0x_ptr I0y_ptr I0_stride I1_stride w00 w01 w10 w11 =
    ((\<Sum>i<8. \<Sum>j<8. (bilinear_residual I0_ptr I1_ptr I0_stride I1_stride w00 w01 w10 w11 (int i) (int j))\<^sup>2),
     (\<Sum>i<8. \<Sum>j<8. bilinear_residual I0_ptr I1_ptr I0_stride I1_stride w00 w01 w10 w11 (int i) (int j) *
        gradient I0x_ptr I0_stride (int i) (int j)),
     (\<Sum>i<8. \<Sum>j<8. bilinear_residual I0_ptr I1_ptr I0_stride I1_stride w00 w01 w10 w11 (int i) (int j) *
        gradient I0y_ptr I0_stride (int i) (int j)))"
proof -
  let ?D = "\<lambda>r. bilinear_residual I0_ptr I1_ptr I0_stride I1_stride w00 w01 w10 w11 (int r)"
  let ?gx = "\<lambda>r j. ?D r j * gradient I0x_ptr I0_stride (int r) j"
  let ?gy = "\<lambda>r j. ?D r j * gradient I0y_ptr I0_stride (int r) j"
  from processPatch_simd_inv [where n = 8 and ?I0_ptr = I0_ptr and ?I1_ptr = I1_ptr and ?I0_stride = I0_stride
      and ?I1_stride = I1_stride and ?w00.0 = w00 and ?w01.0 = w01 and ?w10.0 = w10 and ?w11.0 = w11
      and ?I0x_ptr = I0x_ptr and ?I0y_ptr = I0y_ptr]
  obtain s g where "(processPatch_row exact I0_ptr I1_ptr I0x_ptr I0y_ptr I0_stride I1_stride w00 w01 w10 w11 ^^ 8)
            (HAL_INIT_BILINEAR_8x8_PATCH_EXTRACTION I1_ptr I1_stride, 0, v_setall_f32 0, v_setall_f32 0, v_setall_f32 0) =
          (s, g,
              ((\<Sum>r<8. ?gx r 0 + ?gx r 4), (\<Sum>r<8. ?gx r 1 + ?gx r 5),
               (\<Sum>r<8. ?gx r 2 + ?gx r 6), (\<Sum>r<8. ?gx r 3 + ?gx r 7)),
              ((\<Sum>r<8. ?gy r 0 + ?gy r 4), (\<Sum>r<8. ?gy r 1 + ?gy r 5),
               (\<Sum>r<8. ?gy r 2 + ?gy r 6), (\<Sum>r<8. ?gy r 3 + ?gy r 7)),
              ((\<Sum>r<8. (?D r 0)\<^sup>2 + (?D r 4)\<^sup>2), (\<Sum>r<8. (?D r 1)\<^sup>2 + (?D r 5)\<^sup>2),
               (\<Sum>r<8. (?D r 2)\<^sup>2 + (?D r 6)\<^sup>2), (\<Sum>r<8. (?D r 3)\<^sup>2 + (?D r 7)\<^sup>2)))"
    by auto
  then show ?thesis
    unfolding processPatch_simd_def
    by (simp only: prod.case v_reduce_sum_exact lanes_sum [of "\<lambda>r j. (?D r j)\<^sup>2"]
        lanes_sum [of ?gx] lanes_sum [of ?gy])
qed


text \<open>
  C3, as amended. In exact arithmetic, for every patch size, every pair of patches and all weights (their
  sum is not used), on the scalar and on the vectorised path, \<open>computeSSD\<close> returns the
  sum over the patch of the squared residuals, and \<open>computeSSDMeanNorm\<close> returns that sum
  minus the squared sum of the residuals divided by \<open>patch_sz * patch_sz\<close> (for a patch
  size other than zero, where the quotient exists).
\<close>

theorem computeSSD_sum_of_squares:
  "computeSSD exact simd I0_ptr I1_ptr I0_stride I1_stride w00 w01 w10 w11 patch_sz =
     (\<Sum>i<nat patch_sz. \<Sum>j<nat patch_sz.
        (bilinear_residual I0_ptr I1_ptr I0_stride I1_stride w00 w01 w10 w11 (int i) (int j))\<^sup>2) \<and>
   (patch_sz \<noteq> 0 \<longrightarrow>
    computeSSDMeanNorm exact simd I0_ptr I1_ptr I0_stride I1_stride w00 w01 w10 w11 patch_sz =
     Some ((\<Sum>i<nat patch_sz. \<Sum>j<nat patch_sz.
              (bilinear_residual I0_ptr I1_ptr I0_stride I1_stride w00 w01 w10 w11 (int i) (int j))\<^sup>2) -
           (\<Sum>i<nat patch_sz. \<Sum>j<nat patch_sz.
              bilinear_residual I0_ptr I1_ptr I0_stride I1_stride w00 w01 w10 w11 (int i) (int j))\<^sup>2 /
           real_of_int (patch_sz * patch_sz)))"
proof -
  have a: "computeSSD exact simd I0_ptr I1_ptr I0_stride I1_stride w00 w01 w10 w11 patch_sz =
     (\<Sum>i<nat patch_sz. \<Sum>j<nat patch_sz.
        (bilinear_residual I0_ptr I1_ptr I0_stride I1_stride w00 w01 w10 w11 (int i) (int j))\<^sup>2)"
    by (cases simd) (simp_all add: computeSSD_def computeSSD_scalar_exact computeSSD_simd_exact)
  have b: "(case simd of
               Some tgt \<Rightarrow>
                 if patch_sz = 8
                 then meanNorm_sums_simd exact tgt I0_ptr I1_ptr I0_stride I1_stride w00 w01 w10 w11
                 else meanNorm_sums_scalar exact I0_ptr I1_ptr I0_stride I1_stride
                        w00 w01 w10 w11 patch_sz
             | None \<Rightarrow>
                 meanNorm_sums_scalar exact I0_ptr I1_ptr I0_stride I1_stride w00 w01 w10 w11 patch_sz) =
     ((\<Sum>i<nat patch_sz. \<Sum>j<nat patch_sz.
        bilinear_residual I0_ptr I1_ptr I0_stride I1_stride w00 w01 w10 w11 (int i) (int j)),
      (\<Sum>i<nat patch_sz. \<Sum>j<nat patch_sz.
        (bilinear_residual I0_ptr I1_ptr I0_stride I1_stride w00 w01 w10 w11 (int i) (int j))\<^sup>2))"
    by (cases simd) (simp_all add: meanNorm_sums_scalar_exact meanNorm_sums_simd_exact)
  show ?thesis
    unfolding computeSSDMeanNorm_def b using a by (simp add: power2_eq_square)
qed

lemma sum_lessThan_2: "(\<Sum>i<2::nat. f i) = f 0 + (f 1 :: real)"
  by (simp add: numeral_2_eq_2)

theorem computeSSD_sum_of_squares_witness:
  "computeSSD exact None (\<lambda>k. 10) (\<lambda>k. if k = 0 then 16 else 12) 2 3 (1 / 4) (1 / 4) (1 / 4) (1 / 4) 2 = 21 \<and>
   computeSSDMeanNorm exact None (\<lambda>k. 10) (\<lambda>k. if k = 0 then 16 else 12) 2 3
     (1 / 4) (1 / 4) (1 / 4) (1 / 4) 2 = Some (3 / 4)"
  using computeSSD_sum_of_squares [of None "\<lambda>k. 10" "\<lambda>k. if k = 0 then 16 else 12" 2 3
      "1 / 4" "1 / 4" "1 / 4" "1 / 4" 2]
  by (simp add: bilinear_residual_def pixel_def sum_lessThan_2)

text \<open>
  C4, as amended. In exact arithmetic, for every patch size, all patches, weights and gradient patches,
  on the scalar and on the vectorised path, \<open>processPatch\<close> returns the sum of the squared
  residuals and sets \<open>dst_dUx\<close> and \<open>dst_dUy\<close> to the sums of the residuals times the x and
  the y gradient.
\<close>

theorem processPatch_sums:
  "processPatch exact simd I0_ptr I1_ptr I0x_ptr I0y_ptr I0_stride I1_stride w00 w01 w10 w11 patch_sz =
     ((\<Sum>i<nat patch_sz. \<Sum>j<nat patch_sz.
         (bilinear_residual I0_ptr I1_ptr I0_stride I1_stride w00 w01 w10 w11 (int i) (int j))\<^sup>2),
      (\<Sum>i<nat patch_sz. \<Sum>j<nat patch_sz.
         bilinear_residual I0_ptr I1_ptr I0_stride I1_stride w00 w01 w10 w11 (int i) (int j) *
         gradient I0x_ptr I0_stride (int i) (int j)),
      (\<Sum>i<nat patch_sz. \<Sum>j<nat patch_sz.
         bilinear_residual I0_ptr I1_ptr I0_stride I1_stride w00 w01 w10 w11 (int i) (int j) *
         gradient I0y_ptr I0_stride (int i) (int j)))"
  by (cases simd) (simp_all add: processPatch_def processPatch_scalar_exact processPatch_simd_exact)

section \<open>The sliding window of the densification\<close>

lemma le_div_iff: 
  assumes "0 < (p::int)" shows "s \<le> k div p \<longleftrightarrow> s * p \<le> k"
proof
  assume "s \<le> k div p"
  then have "s * p \<le> (k div p) * p" using assms by (simp add: mult_right_mono)
  also have "\<dots> = k - k mod p" by (simp add: minus_mod_eq_div_mult)
  also have "\<dots> \<le> k" using assms by simp
  finally show "s * p \<le> k" .
next
  assume "s * p \<le> k"
  then have "(s * p) div p \<le> k div p" using assms by (rule zdiv_mono1)
  then show "s \<le> k div p" using assms by simp
qed

lemma div_less_iff: "0 < (p::int) \<Longrightarrow> k div p < s \<longleftrightarrow> k < s * p"
  using le_div_iff [of p s k] by linarith

lemma div_step:
  assumes "0 < (p::int)"
  shows "(k + 1) div p = (if (k + 1) mod p = 0 then k div p + 1 else k div p)"
proof (cases "(k + 1) mod p = 0")
  case True
  have "k + 1 = p * ((k + 1) div p)" using True by (metis add.right_neutral mult_div_mod_eq)
  then have "k = p * ((k + 1) div p - 1) + (p - 1)" by (simp add: algebra_simps)
  then have "k div p = (k + 1) div p - 1"
    using assms by (intro int_div_pos_eq [of k p "(k + 1) div p - 1" "p - 1"]) simp_all
  with True show ?thesis by simp
next
  case False
  let ?r = "(k + 1) mod p"
  have r: "0 < ?r" "?r < p" using False assms pos_mod_sign [of p "k + 1"] pos_mod_bound [of p "k + 1"] by linarith+
  have "k + 1 = p * ((k + 1) div p) + ?r" by simp
  then have "k = p * ((k + 1) div p) + (?r - 1)" by linarith
  then have "k div p = (k + 1) div p"
    using r by (intro int_div_pos_eq [of k p "(k + 1) div p" "?r - 1"]) simp_all
  with False show ?thesis by simp
qed

lemma smod_nonneg: "0 \<le> a \<Longrightarrow> 0 < b \<Longrightarrow> (a::int) smod b = a mod b"
  by (simp add: signed_modulo_int_def sgn_if)


lemma window_step:
  assumes p: "0 < pstr" "pstr \<le> psz" "psz \<le> sz" and j: "0 \<le> j"
  shows "UPDATE_SPARSE_COORDINATES psz pstr sz (j + 1)
           (window_start psz pstr sz j, window_end psz pstr sz j) =
         (window_start psz pstr sz (j + 1), window_end psz pstr sz (j + 1))"
proof -
  define x where "x = j div pstr"
  define y where "y = (j - psz) div pstr"
  define z where "z = (sz - psz) div pstr"
  have E: "(j + 1) div pstr = (if (j + 1) mod pstr = 0 then x + 1 else x)"
    unfolding x_def by (rule div_step [OF p(1)])
  have A: "(j + 1 - psz) div pstr = (if (j + 1 - psz) mod pstr = 0 then y + 1 else y)"
    using div_step [OF p(1), of "j - psz"] unfolding y_def by (simp add: algebra_simps)
  have "j - psz \<le> j - pstr" using p by simp
  then have "(j - psz) div pstr \<le> (j - pstr) div pstr" using p(1) by (rule zdiv_mono1)
  also have "(j - pstr) div pstr = j div pstr - 1"
    using div_add_self2 [of pstr "j - pstr"] p(1) by simp
  finally have B: "y + 1 \<le> x" unfolding x_def y_def by simp
  have D: "0 \<le> x" "0 \<le> z" unfolding x_def z_def using p j by (simp_all add: pos_imp_zdiv_nonneg_iff)
  have Q1: "0 \<le> j + 1 - psz \<Longrightarrow> - 1 \<le> y"
  proof -
    assume "0 \<le> j + 1 - psz"
    then have "(- 1) * pstr \<le> j - psz" using p by simp
    then show ?thesis unfolding y_def using le_div_iff [OF p(1)] by blast
  qed
  have Q2: "j + 1 - psz < 0 \<Longrightarrow> (j + 1 - psz) div pstr + 1 \<le> 0 \<and> y + 1 \<le> 0"
  proof -
    assume a: "j + 1 - psz < 0"
    then have "(j + 1 - psz) div pstr < 0" "(j - psz) div pstr < 0"
      using div_less_iff [OF p(1), of "j + 1 - psz" 0] div_less_iff [OF p(1), of "j - psz" 0] by simp_all
    then show ?thesis unfolding y_def by simp
  qed
  have Q3: "j + 1 - psz = 0 \<Longrightarrow> (j + 1 - psz) mod pstr = 0" by simp
  have M: "j \<le> sz - psz \<Longrightarrow> x \<le> z" unfolding x_def z_def using p(1) by (simp add: zdiv_mono1)
  have M': "j + 1 \<le> sz - psz \<Longrightarrow> (j + 1) div pstr \<le> z" unfolding z_def using p(1) by (simp add: zdiv_mono1)
  have sm: "(j + 1) smod pstr = (j + 1) mod pstr" "0 \<le> j + 1 - psz \<Longrightarrow> (j + 1 - psz) smod pstr = (j + 1 - psz) mod pstr"
    using j p(1) by (simp_all add: smod_nonneg)
  have e0: "window_end psz pstr sz j = (if j \<le> sz - psz then x else z)"
    by (simp add: window_end_def x_def z_def min_def)
  have e1: "window_end psz pstr sz (j + 1) = (if j + 1 \<le> sz - psz then (j + 1) div pstr else z)"
    by (simp add: window_end_def z_def min_def)
  have s0: "window_start psz pstr sz j = min (max 0 (y + 1)) (window_end psz pstr sz j)"
    by (simp add: window_start_def y_def)
  have s1: "window_start psz pstr sz (j + 1) = min (max 0 ((j + 1 - psz) div pstr + 1)) (window_end psz pstr sz (j + 1))"
    by (simp add: window_start_def)
  have K: "j \<le> sz - psz \<Longrightarrow> \<not> j + 1 \<le> sz - psz \<Longrightarrow> x = z"
  proof -
    assume "j \<le> sz - psz" "\<not> j + 1 \<le> sz - psz"
    then have "j = sz - psz" by simp
    then show "x = z" by (simp add: x_def z_def)
  qed
  have en: "(if (j + 1) smod pstr = 0 \<and> j + 1 + psz \<le> sz then window_end psz pstr sz j + 1 else window_end psz pstr sz j)
      = window_end psz pstr sz (j + 1)"
    unfolding sm e0 e1 using E K by (auto split: if_splits)
  have st: "(if j + 1 - psz \<ge> 0 \<and> (j + 1 - psz) smod pstr = 0 \<and> window_start psz pstr sz j < window_end psz pstr sz (j + 1)
       then window_start psz pstr sz j + 1 else window_start psz pstr sz j) = window_start psz pstr sz (j + 1)"
  proof (cases "0 \<le> j + 1 - psz")
    case True
    note sm2 = sm(2) [OF True]
    show ?thesis
    proof (cases "(j + 1 - psz) mod pstr = 0")
      case m: True
      have a1: "(j + 1 - psz) div pstr = y + 1" using A m by simp
      have y: "- 1 \<le> y" by (rule Q1 [OF True])
      show ?thesis unfolding sm2 s0 s1 a1 e0 e1 using m True E B D M M' K y
        by (auto simp: min_def max_def split: if_splits)
    next
      case m: False
      have a1: "(j + 1 - psz) div pstr = y" using A m by simp
      have "j + 1 - psz \<noteq> 0" using m by auto
      then have "0 \<le> j - psz" using True by simp
      then have y: "0 \<le> y" unfolding y_def using p(1) by (simp add: pos_imp_zdiv_nonneg_iff)
      show ?thesis unfolding sm2 s0 s1 a1 e0 e1 using m True E B D M M' K y
        by (auto simp: min_def max_def split: if_splits)
    qed
  next
    case False
    then have "j + 1 - psz < 0" by simp
    from Q2 [OF this] have c: "(j + 1 - psz) div pstr + 1 \<le> 0" "y + 1 \<le> 0" by simp_all
    show ?thesis unfolding s0 s1 e0 e1 using False c E D M M' K
      by (auto simp: min_def max_def split: if_splits)
  qed
  show ?thesis
    unfolding UPDATE_SPARSE_COORDINATES_def prod.case Let_def en st ..
qed

lemma sparse_window_closed:
  assumes p: "0 < pstr" "pstr \<le> psz" "psz \<le> sz" and k: "0 \<le> k"
  shows "sparse_window psz pstr sz k = (window_start psz pstr sz k, window_end psz pstr sz k)"
  using k
proof (induction k rule: int_ge_induct)
  case base
  have "(- psz) div pstr < 0" using div_less_iff [OF p(1), of "- psz" 0] p by simp
  moreover have "[0..0::int] = [0]" by (simp add: upto.simps)
  ultimately show ?case using p
    by (simp add: sparse_window_def UPDATE_SPARSE_COORDINATES_def window_start_def window_end_def)
next
  case (step j)
  have "[0..j + 1] = [0..j + 1 - 1] @ [j + 1]" using step.hyps by (intro upto_rec2) simp
  then have "[0..j + 1] = [0..j] @ [j + 1]" by simp
  then show ?case
    using step.IH window_step [OF p step.hyps] by (simp add: sparse_window_def)
qed


lemma min_div:
  assumes "0 < (p::int)"
  shows "min a b div p = min (a div p) (b div p)"
proof (cases "a \<le> b")
  case True
  then have "a div p \<le> b div p" using assms by (rule zdiv_mono1)
  with True show ?thesis by simp
next
  case False
  then have "b \<le> a" by simp
  then have "b div p \<le> a div p" using assms by (rule zdiv_mono1)
  with False show ?thesis by simp
qed

lemma sparse_window_patches:
  assumes p: "0 < pstr" "pstr \<le> psz" "psz \<le> sz" and k: "0 \<le> k"
  shows "{fst (sparse_window psz pstr sz k)..snd (sparse_window psz pstr sz k)} =
         window_patches psz pstr sz k"
proof -
  define x where "x = k div pstr"
  define y where "y = (k - psz) div pstr"
  define z where "z = (sz - psz) div pstr"
  have sd: "(sz - psz) sdiv pstr = z" unfolding z_def using p by (intro sdiv_nonneg) simp_all
  have e: "window_end psz pstr sz k = min x z"
    by (simp add: window_end_def min_div [OF p(1)] x_def z_def)
  have s: "window_start psz pstr sz k = min (max 0 (y + 1)) (min x z)"
    by (simp add: window_start_def e y_def)
  have "k - psz \<le> k - pstr" using p by simp
  then have "(k - psz) div pstr \<le> (k - pstr) div pstr" using p(1) by (rule zdiv_mono1)
  also have "(k - pstr) div pstr = k div pstr - 1"
    using div_add_self2 [of pstr "k - pstr"] p(1) by simp
  finally have B: "y + 1 \<le> x" unfolding x_def y_def by simp
  have D: "0 \<le> x" "0 \<le> z" unfolding x_def z_def using p k by (simp_all add: pos_imp_zdiv_nonneg_iff)
  have cov: "covering_patches psz pstr sz k = {max 0 (y + 1)..min x z}"
  proof (rule set_eqI)
    fix s
    have a: "s * pstr \<le> k \<longleftrightarrow> s \<le> x" unfolding x_def using le_div_iff [OF p(1), of s k] by simp
    have "k < s * pstr + psz \<longleftrightarrow> k - psz < s * pstr" by linarith
    also have "\<dots> \<longleftrightarrow> y < s" unfolding y_def using div_less_iff [OF p(1), of "k - psz" s] by simp
    finally have b: "k < s * pstr + psz \<longleftrightarrow> y + 1 \<le> s" by linarith
    show "s \<in> covering_patches psz pstr sz k \<longleftrightarrow> s \<in> {max 0 (y + 1)..min x z}"
      unfolding covering_patches_def patch_covers_def sd using a b by auto
  qed
  show ?thesis
  proof (cases "max 0 (y + 1) \<le> min x z")
    case True
    then have "covering_patches psz pstr sz k \<noteq> {}" unfolding cov by simp
    then show ?thesis
      using True by (simp add: window_patches_def sparse_window_closed [OF p k] s e cov)
  next
    case False
    then have em: "covering_patches psz pstr sz k = {}" unfolding cov by simp
    from False B D have "z \<le> x" by (auto simp: min_def max_def split: if_splits)
    then have "min x z = z" by simp
    moreover from this False D have "min (max 0 (y + 1)) z = z" by simp
    ultimately show ?thesis
      by (simp add: window_patches_def sparse_window_closed [OF p k] s e em sd)
  qed
qed

lemma window_invariant:
  "s \<le> e \<Longrightarrow> fold (UPDATE_SPARSE_COORDINATES psz pstr sz) ks (s, e) = (s', e') \<Longrightarrow> s' \<le> e'"
proof (induction ks arbitrary: s e)
  case Nil
  then show ?case by simp
next
  case (Cons k ks)
  obtain s1 e1 where u: "UPDATE_SPARSE_COORDINATES psz pstr sz k (s, e) = (s1, e1)" by fastforce
  then have "s1 \<le> e1" using Cons.prems(1)
    by (auto simp: UPDATE_SPARSE_COORDINATES_def Let_def split: if_splits)
  then show ?case using Cons.IH [of s1 e1] Cons.prems(2) u by simp
qed

lemma sparse_window_nonempty:
  assumes "psz \<le> sz" "0 \<le> k"
  shows "fst (sparse_window psz pstr sz k) \<le> snd (sparse_window psz pstr sz k)"
proof -
  have l: "[0..k] = 0 # [1..k]" using assms(2) by (simp add: upto_rec1)
  obtain s1 e1 where u: "UPDATE_SPARSE_COORDINATES psz pstr sz 0 (0, - 1) = (s1, e1)" by fastforce
  then have "s1 \<le> e1" using assms(1)
    by (auto simp: UPDATE_SPARSE_COORDINATES_def Let_def split: if_splits)
  then show ?thesis
    using window_invariant [of s1 e1 psz pstr sz "[1..k]"] u
    by (cases "fold (UPDATE_SPARSE_COORDINATES psz pstr sz) [1..k] (s1, e1)")
       (simp add: sparse_window_def l)
qed

section \<open>The loops of the densification\<close>

text \<open>
  For every rounding: the pixel \<open>(i, j)\<close> of the output arrays receives the value of
  \<open>dens_pixel\<close> for the windows reached at row \<open>i\<close> and column \<open>j\<close>, and later
  iterations do not write to it.
\<close>

lemma sparse_window_Suc:
  "0 \<le> n \<Longrightarrow> sparse_window psz pstr sz (n + 1) =
     UPDATE_SPARSE_COORDINATES psz pstr sz (n + 1) (sparse_window psz pstr sz n)"
proof -
  assume "0 \<le> n"
  then have "[0..n + 1] = [0..n + 1 - 1] @ [n + 1]" by (intro upto_rec2) simp
  then have "[0..n + 1] = [0..n] @ [n + 1]" by simp
  then show ?thesis by (simp add: sparse_window_def)
qed

lemma sparse_window_0:
  "sparse_window psz pstr sz 0 = UPDATE_SPARSE_COORDINATES psz pstr sz 0 (0, - 1)"
proof -
  have "[0..0::int] = [0]" by (simp add: upto.simps)
  then show ?thesis by (simp add: sparse_window_def)
qed

lemma dens_cols:
  fixes rnd p Sx_ptr Sy_ptr I0_ptr I1_ptr iwin i
  defines "PIX \<equiv> \<lambda>j. dens_pixel rnd p Sx_ptr Sy_ptr I0_ptr I1_ptr iwin
                      (sparse_window (patch_size p) (patch_stride p) (w p) j) i j"
  assumes n: "0 \<le> n"
  shows "\<exists>U'. fold (dens_col rnd p Sx_ptr Sy_ptr I0_ptr I1_ptr iwin i) [0..n] ((0, - 1), U) =
            (sparse_window (patch_size p) (patch_stride p) (w p) n, U') \<and>
          (\<forall>j. 0 \<le> j \<and> j \<le> n \<longrightarrow>
             fst U' (i * w p + j) = map_option fst (PIX j) \<and>
             snd U' (i * w p + j) = map_option snd (PIX j)) \<and>
          (\<forall>k. k < i * w p \<or> i * w p + n < k \<longrightarrow> fst U' k = fst U k \<and> snd U' k = snd U k)"
  using n
proof (induction n rule: int_ge_induct)
  case base
  have l: "[0..0::int] = [0]" by (simp add: upto.simps)
  show ?case
    by (cases U) (auto simp: l dens_col_def Let_def sparse_window_0 PIX_def)
next
  case (step n)
  then obtain U' where f: "fold (dens_col rnd p Sx_ptr Sy_ptr I0_ptr I1_ptr iwin i) [0..n] ((0, - 1), U) =
            (sparse_window (patch_size p) (patch_stride p) (w p) n, U')"
    and a: "\<And>j. 0 \<le> j \<Longrightarrow> j \<le> n \<Longrightarrow>
             fst U' (i * w p + j) = map_option fst (PIX j) \<and>
             snd U' (i * w p + j) = map_option snd (PIX j)"
    and b: "\<And>k. k < i * w p \<or> i * w p + n < k \<Longrightarrow> fst U' k = fst U k \<and> snd U' k = snd U k"
    by blast
  have "[0..n + 1] = [0..n + 1 - 1] @ [n + 1]" using step.hyps by (intro upto_rec2) simp
  then have l: "[0..n + 1] = [0..n] @ [n + 1]" by simp
  let ?U = "((fst U')(i * w p + (n + 1) := map_option fst (PIX (n + 1))),
             (snd U')(i * w p + (n + 1) := map_option snd (PIX (n + 1))))"
  have g: "fold (dens_col rnd p Sx_ptr Sy_ptr I0_ptr I1_ptr iwin i) [0..n + 1] ((0, - 1), U) =
      (sparse_window (patch_size p) (patch_stride p) (w p) (n + 1), ?U)"
    by (cases U') (simp add: l f dens_col_def Let_def sparse_window_Suc [OF step.hyps] PIX_def)
  have "\<forall>j. 0 \<le> j \<and> j \<le> n + 1 \<longrightarrow>
             fst ?U (i * w p + j) = map_option fst (PIX j) \<and>
             snd ?U (i * w p + j) = map_option snd (PIX j)"
    using a by auto
  moreover have "\<forall>k. k < i * w p \<or> i * w p + (n + 1) < k \<longrightarrow> fst ?U k = fst U k \<and> snd ?U k = snd U k"
    using b step.hyps by auto
  ultimately show ?case using g by blast
qed


lemma dens_row_effect:
  fixes rnd p body_h Sx_ptr Sy_ptr I0_ptr I1_ptr iwin i
  defines "iwin1 \<equiv> UPDATE_SPARSE_COORDINATES (patch_size p) (patch_stride p) body_h i iwin"
  defines "PIX \<equiv> \<lambda>j. dens_pixel rnd p Sx_ptr Sy_ptr I0_ptr I1_ptr iwin1
                      (sparse_window (patch_size p) (patch_stride p) (w p) j) i j"
  assumes w: "0 < w p"
  shows "\<exists>U'. dens_row rnd p body_h Sx_ptr Sy_ptr I0_ptr I1_ptr i (iwin, U) = (iwin1, U') \<and>
          (\<forall>j. 0 \<le> j \<and> j < w p \<longrightarrow>
             fst U' (i * w p + j) = map_option fst (PIX j) \<and>
             snd U' (i * w p + j) = map_option snd (PIX j)) \<and>
          (\<forall>k. k < i * w p \<or> (i + 1) * w p \<le> k \<longrightarrow> fst U' k = fst U k \<and> snd U' k = snd U k)"
proof -
  have n: "0 \<le> w p - 1" using w by simp
  from dens_cols [OF n, of rnd p Sx_ptr Sy_ptr I0_ptr I1_ptr iwin1 i U]
  obtain U' where f: "fold (dens_col rnd p Sx_ptr Sy_ptr I0_ptr I1_ptr iwin1 i) [0..w p - 1] ((0, - 1), U) =
            (sparse_window (patch_size p) (patch_stride p) (w p) (w p - 1), U')"
    and a: "\<And>j. 0 \<le> j \<Longrightarrow> j \<le> w p - 1 \<Longrightarrow>
             fst U' (i * w p + j) = map_option fst (PIX j) \<and>
             snd U' (i * w p + j) = map_option snd (PIX j)"
    and b: "\<And>k. k < i * w p \<or> i * w p + (w p - 1) < k \<Longrightarrow> fst U' k = fst U k \<and> snd U' k = snd U k"
    unfolding PIX_def by blast
  have "dens_row rnd p body_h Sx_ptr Sy_ptr I0_ptr I1_ptr i (iwin, U) = (iwin1, U')"
    by (simp add: dens_row_def Let_def iwin1_def [symmetric] f)
  moreover have "\<forall>j. 0 \<le> j \<and> j < w p \<longrightarrow>
             fst U' (i * w p + j) = map_option fst (PIX j) \<and>
             snd U' (i * w p + j) = map_option snd (PIX j)"
    using a by simp
  moreover have "\<forall>k. k < i * w p \<or> (i + 1) * w p \<le> k \<longrightarrow> fst U' k = fst U k \<and> snd U' k = snd U k"
  proof (intro allI impI)
    fix k assume "k < i * w p \<or> (i + 1) * w p \<le> k"
    then have "k < i * w p \<or> i * w p + (w p - 1) < k" by (auto simp: algebra_simps)
    then show "fst U' k = fst U k \<and> snd U' k = snd U k" by (rule b)
  qed
  ultimately show ?thesis by blast
qed

lemma dens_rows:
  fixes rnd p body_h Sx_ptr Sy_ptr I0_ptr I1_ptr
  defines "W \<equiv> sparse_window (patch_size p) (patch_stride p) body_h"
  defines "PIX \<equiv> \<lambda>r j. dens_pixel rnd p Sx_ptr Sy_ptr I0_ptr I1_ptr (W r)
                      (sparse_window (patch_size p) (patch_stride p) (w p) j) r j"
  assumes w: "0 < w p" and st: "0 \<le> start" and m: "start \<le> m"
  shows "\<exists>U'. fold (dens_row rnd p body_h Sx_ptr Sy_ptr I0_ptr I1_ptr) [start..m]
             (fold (UPDATE_SPARSE_COORDINATES (patch_size p) (patch_stride p) body_h)
                [0..start - 1] (0, - 1), U) = (W m, U') \<and>
          (\<forall>r j. start \<le> r \<and> r \<le> m \<and> 0 \<le> j \<and> j < w p \<longrightarrow>
             fst U' (r * w p + j) = map_option fst (PIX r j) \<and>
             snd U' (r * w p + j) = map_option snd (PIX r j)) \<and>
          (\<forall>k. k < start * w p \<or> (m + 1) * w p \<le> k \<longrightarrow> fst U' k = fst U k \<and> snd U' k = snd U k)"
  using m
proof (induction m rule: int_ge_induct)
  case base
  have l: "[start..start] = [start]" by (simp add: upto.simps)
  have "[0..start] = [0..start - 1] @ [start]" using st by (intro upto_rec2) simp
  then have W: "UPDATE_SPARSE_COORDINATES (patch_size p) (patch_stride p) body_h start
      (fold (UPDATE_SPARSE_COORDINATES (patch_size p) (patch_stride p) body_h) [0..start - 1] (0, - 1)) = W start"
    by (simp add: W_def sparse_window_def)
  from dens_row_effect [OF w, of rnd body_h Sx_ptr Sy_ptr I0_ptr I1_ptr start
      "fold (UPDATE_SPARSE_COORDINATES (patch_size p) (patch_stride p) body_h) [0..start - 1] (0, - 1)" U]
  show ?case unfolding W l PIX_def by auto
next
  case (step m)
  then obtain U' where f: "fold (dens_row rnd p body_h Sx_ptr Sy_ptr I0_ptr I1_ptr) [start..m]
             (fold (UPDATE_SPARSE_COORDINATES (patch_size p) (patch_stride p) body_h)
                [0..start - 1] (0, - 1), U) = (W m, U')"
    and a: "\<And>r j. start \<le> r \<Longrightarrow> r \<le> m \<Longrightarrow> 0 \<le> j \<Longrightarrow> j < w p \<Longrightarrow>
             fst U' (r * w p + j) = map_option fst (PIX r j) \<and>
             snd U' (r * w p + j) = map_option snd (PIX r j)"
    and b: "\<And>k. k < start * w p \<or> (m + 1) * w p \<le> k \<Longrightarrow> fst U' k = fst U k \<and> snd U' k = snd U k"
    by blast
  have "[start..m + 1] = [start..m + 1 - 1] @ [m + 1]" using step.hyps by (intro upto_rec2) simp
  then have l: "[start..m + 1] = [start..m] @ [m + 1]" by simp
  have m0: "0 \<le> m" using st step.hyps by simp
  have W: "UPDATE_SPARSE_COORDINATES (patch_size p) (patch_stride p) body_h (m + 1) (W m) = W (m + 1)"
    unfolding W_def by (rule sparse_window_Suc [OF m0, symmetric])
  from dens_row_effect [OF w, of rnd body_h Sx_ptr Sy_ptr I0_ptr I1_ptr "m + 1" "W m" U']
  obtain U'' where g: "dens_row rnd p body_h Sx_ptr Sy_ptr I0_ptr I1_ptr (m + 1) (W m, U') = (W (m + 1), U'')"
    and c: "\<And>j. 0 \<le> j \<Longrightarrow> j < w p \<Longrightarrow>
             fst U'' ((m + 1) * w p + j) = map_option fst (PIX (m + 1) j) \<and>
             snd U'' ((m + 1) * w p + j) = map_option snd (PIX (m + 1) j)"
    and d: "\<And>k. k < (m + 1) * w p \<or> (m + 1 + 1) * w p \<le> k \<Longrightarrow> fst U'' k = fst U' k \<and> snd U'' k = snd U' k"
    unfolding W PIX_def by blast
  have h: "fold (dens_row rnd p body_h Sx_ptr Sy_ptr I0_ptr I1_ptr) [start..m + 1]
             (fold (UPDATE_SPARSE_COORDINATES (patch_size p) (patch_stride p) body_h)
                [0..start - 1] (0, - 1), U) = (W (m + 1), U'')"
    by (simp add: l f g)
  have "fst U'' (r * w p + j) = map_option fst (PIX r j) \<and>
        snd U'' (r * w p + j) = map_option snd (PIX r j)"
    if "start \<le> r \<and> r \<le> m + 1 \<and> 0 \<le> j \<and> j < w p" for r j
  proof (cases "r = m + 1")
    case True
    then show ?thesis using c [of j] that by simp
  next
    case False
    then have r: "r \<le> m" using that by simp
    then have "(r + 1) * w p \<le> (m + 1) * w p" using w by (intro mult_right_mono) simp_all
    moreover have "r * w p + j < (r + 1) * w p" using that by (simp add: algebra_simps)
    ultimately have "r * w p + j < (m + 1) * w p" by linarith
    then show ?thesis using d [of "r * w p + j"] a [of r j] that r by simp
  qed
  moreover have "fst U'' k = fst U k \<and> snd U'' k = snd U k"
    if "k < start * w p \<or> (m + 1 + 1) * w p \<le> k" for k
  proof -
    have "start * w p \<le> (m + 1) * w p" using step.hyps w by (intro mult_right_mono) simp_all
    moreover have "(m + 1) * w p \<le> (m + 1 + 1) * w p" using w by (intro mult_right_mono) simp_all
    ultimately have "k < (m + 1) * w p \<or> (m + 1 + 1) * w p \<le> k" "k < start * w p \<or> (m + 1) * w p \<le> k"
      using that by linarith+
    then show ?thesis using d [of k] b [of k] by simp
  qed
  ultimately show ?case using h by blast
qed

lemma Densification_pixel:
  fixes rnd p body_h stripe_sz Sx_ptr Sy_ptr I0_ptr I1_ptr rng U
  defines "start_i \<equiv> min (fst rng * stripe_sz) body_h"
  defines "end_i \<equiv> min (snd rng * stripe_sz) body_h"
  assumes ps: "patch_stride p \<noteq> 0" and st: "0 \<le> start_i" and i: "start_i \<le> i" "i < end_i"
    and j: "0 \<le> j" "j < w p"
  shows "\<exists>U'. Densification_ParBody rnd p body_h stripe_sz Sx_ptr Sy_ptr I0_ptr I1_ptr rng U = Inr U' \<and>
          fst U' (i * w p + j) =
            map_option fst (dens_pixel rnd p Sx_ptr Sy_ptr I0_ptr I1_ptr
               (sparse_window (patch_size p) (patch_stride p) body_h i)
               (sparse_window (patch_size p) (patch_stride p) (w p) j) i j) \<and>
          snd U' (i * w p + j) =
            map_option snd (dens_pixel rnd p Sx_ptr Sy_ptr I0_ptr I1_ptr
               (sparse_window (patch_size p) (patch_stride p) body_h i)
               (sparse_window (patch_size p) (patch_stride p) (w p) j) i j)"
proof -
  have w: "0 < w p" using j by simp
  have m: "start_i \<le> end_i - 1" using i by simp
  from dens_rows [OF w st m, of rnd body_h Sx_ptr Sy_ptr I0_ptr I1_ptr U]
  obtain U' where f: "fold (dens_row rnd p body_h Sx_ptr Sy_ptr I0_ptr I1_ptr) [start_i..end_i - 1]
             (fold (UPDATE_SPARSE_COORDINATES (patch_size p) (patch_stride p) body_h)
                [0..start_i - 1] (0, - 1), U) =
             (sparse_window (patch_size p) (patch_stride p) body_h (end_i - 1), U')"
    and a: "\<And>r j. start_i \<le> r \<Longrightarrow> r \<le> end_i - 1 \<Longrightarrow> 0 \<le> j \<Longrightarrow> j < w p \<Longrightarrow>
             fst U' (r * w p + j) = map_option fst (dens_pixel rnd p Sx_ptr Sy_ptr I0_ptr I1_ptr
               (sparse_window (patch_size p) (patch_stride p) body_h r)
               (sparse_window (patch_size p) (patch_stride p) (w p) j) r j) \<and>
             snd U' (r * w p + j) = map_option snd (dens_pixel rnd p Sx_ptr Sy_ptr I0_ptr I1_ptr
               (sparse_window (patch_size p) (patch_stride p) body_h r)
               (sparse_window (patch_size p) (patch_stride p) (w p) j) r j)"
    by blast
  have "Densification_ParBody rnd p body_h stripe_sz Sx_ptr Sy_ptr I0_ptr I1_ptr rng U = Inr U'"
    using ps by (simp add: Densification_ParBody_def Let_def start_i_def [symmetric] end_i_def [symmetric] f)
  then show ?thesis using a [of i j] i j by simp
qed

section \<open>The densification in exact arithmetic\<close>

lemma sample_position_exact:
  "sample_position exact sz k d = clamp_coord sz (real_of_int k + d)"
  by (simp add: sample_position_def clamp_coord_def EPS_def exact_def)

lemma clamp_coord_bounds:
  assumes "2 \<le> sz"
  shows "0 \<le> clamp_coord sz x" "clamp_coord sz x < real_of_int sz - 1"
  using assms by (simp_all add: clamp_coord_def min_def max_def)

lemma clamp_coord_floor:
  assumes "2 \<le> sz"
  shows "c_trunc (clamp_coord sz x) = \<lfloor>clamp_coord sz x\<rfloor>" "0 \<le> \<lfloor>clamp_coord sz x\<rfloor>"
    "\<lfloor>clamp_coord sz x\<rfloor> + 1 \<le> sz - 1"
proof -
  note b = clamp_coord_bounds [OF assms, of x]
  show "c_trunc (clamp_coord sz x) = \<lfloor>clamp_coord sz x\<rfloor>" using b by (simp add: c_trunc_def)
  show "0 \<le> \<lfloor>clamp_coord sz x\<rfloor>" using b by simp
  have "\<lfloor>clamp_coord sz x\<rfloor> < sz - 1" using b(2) by (simp add: floor_less_iff)
  then show "\<lfloor>clamp_coord sz x\<rfloor> + 1 \<le> sz - 1" by simp
qed

lemma dens_diff_exact:
  assumes "2 \<le> w p" "2 \<le> h p"
  shows "dens_diff exact p I0_ptr I1_ptr i j sx sy = residual p I0_ptr I1_ptr i j sx sy"
  unfolding dens_diff_def residual_def bilinear_sample_def sample_position_exact Let_def
    clamp_coord_floor(1) [OF assms(1)] clamp_coord_floor(1) [OF assms(2)]
  by (simp add: pixel_def algebra_simps)

lemma dens_coef_exact:
  assumes "2 \<le> w p" "2 \<le> h p"
  shows "dens_coef exact p I0_ptr I1_ptr i j sx sy = confidence p I0_ptr I1_ptr i j sx sy"
  by (simp add: dens_coef_def confidence_def dens_diff_exact [OF assms])

lemma dens_coef_pos: "0 < dens_coef exact p I0_ptr I1_ptr i j sx sy"
  by (simp add: dens_coef_def)

lemma fold_upto_sum3:
  "fold (\<lambda>k (a, b, c). (a + f k, b + g k, c + q k)) [m..n] (a0, b0, c0) =
     (a0 + (\<Sum>k = m..n. f k), b0 + (\<Sum>k = m..n. g k), c0 + (\<Sum>k = m..n. q k :: real))"
proof -
  have "fold (\<lambda>k (a, b, c). (a + f k, b + g k, c + q k)) ks (a0, b0, c0) =
     (a0 + sum_list (map f ks), b0 + sum_list (map g ks), c0 + (sum_list (map q ks) :: real))" for ks
    by (induction ks arbitrary: a0 b0 c0) (simp_all add: add.assoc)
  then show ?thesis
    by (simp add: sum_list_distinct_conv_sum_set)
qed

lemma fold_fold_upto_sum3:
  "fold (\<lambda>i. fold (\<lambda>k (a, b, c). (a + f i k, b + g i k, c + q i k)) [m..n]) [m'..n'] (a0, b0, c0) =
     (a0 + (\<Sum>i = m'..n'. \<Sum>k = m..n. f i k), b0 + (\<Sum>i = m'..n'. \<Sum>k = m..n. g i k),
      c0 + (\<Sum>i = m'..n'. \<Sum>k = m..n. q i k :: real))"
proof -
  have "fold (\<lambda>i. fold (\<lambda>k (a, b, c). (a + f i k, b + g i k, c + q i k)) [m..n]) ks (a0, b0, c0) =
     (a0 + sum_list (map (\<lambda>i. \<Sum>k = m..n. f i k) ks), b0 + sum_list (map (\<lambda>i. \<Sum>k = m..n. g i k) ks),
      c0 + (sum_list (map (\<lambda>i. \<Sum>k = m..n. q i k) ks) :: real))" for ks
    by (induction ks arbitrary: a0 b0 c0) (simp_all add: add.assoc fold_upto_sum3)
  then show ?thesis
    by (simp add: sum_list_distinct_conv_sum_set)
qed

lemma dens_sums_exact:
  "dens_sums exact p Sx_ptr Sy_ptr I0_ptr I1_ptr iwin jwin i j =
     ((\<Sum>is = fst iwin..snd iwin. \<Sum>js = fst jwin..snd jwin.
         dens_coef exact p I0_ptr I1_ptr i j (Sx_ptr (is * ws p + js)) (Sy_ptr (is * ws p + js)) *
         Sx_ptr (is * ws p + js)),
      (\<Sum>is = fst iwin..snd iwin. \<Sum>js = fst jwin..snd jwin.
         dens_coef exact p I0_ptr I1_ptr i j (Sx_ptr (is * ws p + js)) (Sy_ptr (is * ws p + js)) *
         Sy_ptr (is * ws p + js)),
      (\<Sum>is = fst iwin..snd iwin. \<Sum>js = fst jwin..snd jwin.
         dens_coef exact p I0_ptr I1_ptr i j (Sx_ptr (is * ws p + js)) (Sy_ptr (is * ws p + js))))"
  unfolding dens_sums_def by (simp add: Let_def fold_fold_upto_sum3)

lemma dens_sum_coef_pos:
  assumes "fst iwin \<le> snd iwin" "fst jwin \<le> snd jwin"
  shows "0 < (\<Sum>is = fst iwin..snd iwin. \<Sum>js = fst jwin..snd jwin.
         dens_coef exact p I0_ptr I1_ptr i j (Sx_ptr (is * ws p + js)) (Sy_ptr (is * ws p + js)))"
proof (rule sum_pos)
  show "finite {fst iwin..snd iwin}" by simp
  show "{fst iwin..snd iwin} \<noteq> {}" using assms by simp
  fix s assume "s \<in> {fst iwin..snd iwin}"
  show "0 < (\<Sum>js = fst jwin..snd jwin.
         dens_coef exact p I0_ptr I1_ptr i j (Sx_ptr (s * ws p + js)) (Sy_ptr (s * ws p + js)))"
    using assms by (intro sum_pos) (simp_all add: dens_coef_pos)
qed

section \<open>The densified flow in exact arithmetic\<close>

lemma dens_pixel_exact_Some:
  fixes p I0_ptr I1_ptr i j Sx_ptr Sy_ptr
  assumes "fst iwin \<le> snd iwin" "fst jwin \<le> snd jwin"
  defines "c \<equiv> \<lambda>is js. dens_coef exact p I0_ptr I1_ptr i j (Sx_ptr (is * ws p + js)) (Sy_ptr (is * ws p + js))"
  shows "dens_pixel exact p Sx_ptr Sy_ptr I0_ptr I1_ptr iwin jwin i j =
     Some ((\<Sum>is = fst iwin..snd iwin. \<Sum>js = fst jwin..snd jwin. c is js * Sx_ptr (is * ws p + js)) /
             (\<Sum>is = fst iwin..snd iwin. \<Sum>js = fst jwin..snd jwin. c is js),
           (\<Sum>is = fst iwin..snd iwin. \<Sum>js = fst jwin..snd jwin. c is js * Sy_ptr (is * ws p + js)) /
             (\<Sum>is = fst iwin..snd iwin. \<Sum>js = fst jwin..snd jwin. c is js))"
  using dens_sum_coef_pos [OF assms(1,2), of p I0_ptr I1_ptr i j Sx_ptr Sy_ptr]
  by (simp add: dens_pixel_def dens_sums_exact c_def)

lemma covering_examples:
  "covering_patches 8 4 11 9 = {}" "covering_patches 8 4 8 0 = {0}"
  "covering_patches 8 4 9 3 = {0}" "covering_patches 8 4 9 2 = {0}"
  by (auto simp: covering_patches_def patch_covers_def signed_divide_int_def)

lemma sparse_window_examples:
  "sparse_window 8 4 11 9 = (0, 0)" "sparse_window 8 4 9 3 = (0, 0)" "sparse_window 8 4 9 2 = (0, 0)"
proof -
  show "sparse_window 8 4 11 9 = (0, 0)"
    using sparse_window_closed [of 4 8 11 9] by (simp add: window_start_def window_end_def)
  show "sparse_window 8 4 9 3 = (0, 0)"
    using sparse_window_closed [of 4 8 9 3] by (simp add: window_start_def window_end_def)
  show "sparse_window 8 4 9 2 = (0, 0)"
    using sparse_window_closed [of 4 8 9 2] by (simp add: window_start_def window_end_def)
qed

lemma upto_0_0: "[0..0::int] = [0]"
  by (simp add: upto.simps)

lemma sparse_window_single:
  "sparse_window 8 4 9 0 = (0, 0)" "sparse_window 8 4 8 0 = (0, 0)"
  by (simp_all add: sparse_window_0 UPDATE_SPARSE_COORDINATES_def)

lemma sample_indices_in_bounds:
  assumes "2 \<le> w p" "2 \<le> h p"
    and "sample_indices exact p i j sx sy = (i_l, i_u, j_l, j_u)"
  shows "0 \<le> i_l \<and> i_u = i_l + 1 \<and> i_u \<le> h p - 1 \<and> 0 \<le> j_l \<and> j_u = j_l + 1 \<and> j_u \<le> w p - 1"
  using assms(3) clamp_coord_floor [OF assms(1), of "real_of_int j + sx"]
    clamp_coord_floor [OF assms(2), of "real_of_int i + sy"]
  by (auto simp: sample_indices_def sample_position_exact Let_def)

text \<open>
  C6, as amended. In exact arithmetic, for a patch stride between 1 and the patch size, a
  patch size of at most \<open>h\<close> and \<open>w\<close>, and an image of at least 2 by 2 pixels, the
  densification sets the flow at every pixel \<open>(i, j)\<close> it processes to the weighted average
  of the displacements \<open>(Sx, Sy)\<close> of the patches of the window: in each direction the
  patches whose footprint covers the pixel, or, where none covers it (the rows and columns
  beyond the last patch), the last patch of the grid. The weight of a patch is
  \<open>1 / max(1, |residual|)\<close>, the residual being the bilinear sample of frame 1 at the pixel
  plus the displacement of the patch, clamped to \<open>[0, w - 1 - EPS] \<times> [0, h - 1 - EPS]\<close>, minus
  frame 0 at the pixel.
\<close>

theorem densification_weighted_average:
  assumes "0 < patch_stride p" "patch_stride p \<le> patch_size p" "patch_size p \<le> h p" "patch_size p \<le> w p"
    and "2 \<le> w p" "2 \<le> h p"
    and "0 \<le> min (fst rng * stripe_sz) (h p)" "min (fst rng * stripe_sz) (h p) \<le> i"
      "i < min (snd rng * stripe_sz) (h p)" "0 \<le> j" "j < w p"
  shows "\<exists>U'. Densification_ParBody exact p (h p) stripe_sz Sx_ptr Sy_ptr I0_ptr I1_ptr rng U = Inr U' \<and>
     fst U' (i * w p + j) =
       Some ((\<Sum>is\<in>window_patches (patch_size p) (patch_stride p) (h p) i.
               \<Sum>js\<in>window_patches (patch_size p) (patch_stride p) (w p) j.
                 confidence p I0_ptr I1_ptr i j (Sx_ptr (is * ws p + js)) (Sy_ptr (is * ws p + js)) *
                 Sx_ptr (is * ws p + js)) /
             (\<Sum>is\<in>window_patches (patch_size p) (patch_stride p) (h p) i.
               \<Sum>js\<in>window_patches (patch_size p) (patch_stride p) (w p) j.
                 confidence p I0_ptr I1_ptr i j (Sx_ptr (is * ws p + js)) (Sy_ptr (is * ws p + js)))) \<and>
     snd U' (i * w p + j) =
       Some ((\<Sum>is\<in>window_patches (patch_size p) (patch_stride p) (h p) i.
               \<Sum>js\<in>window_patches (patch_size p) (patch_stride p) (w p) j.
                 confidence p I0_ptr I1_ptr i j (Sx_ptr (is * ws p + js)) (Sy_ptr (is * ws p + js)) *
                 Sy_ptr (is * ws p + js)) /
             (\<Sum>is\<in>window_patches (patch_size p) (patch_stride p) (h p) i.
               \<Sum>js\<in>window_patches (patch_size p) (patch_stride p) (w p) j.
                 confidence p I0_ptr I1_ptr i j (Sx_ptr (is * ws p + js)) (Sy_ptr (is * ws p + js))))"
proof -
  let ?iw = "sparse_window (patch_size p) (patch_stride p) (h p) i"
  let ?jw = "sparse_window (patch_size p) (patch_stride p) (w p) j"
  have i0: "0 \<le> i" using assms(7,8) by (rule order_trans)
  have a: "fst ?iw \<le> snd ?iw" by (rule sparse_window_nonempty [OF assms(3) i0])
  have b: "fst ?jw \<le> snd ?jw" by (rule sparse_window_nonempty [OF assms(4,10)])
  have wi: "{fst ?iw..snd ?iw} = window_patches (patch_size p) (patch_stride p) (h p) i"
    by (rule sparse_window_patches [OF assms(1,2,3) i0])
  have wj: "{fst ?jw..snd ?jw} = window_patches (patch_size p) (patch_stride p) (w p) j"
    by (rule sparse_window_patches [OF assms(1,2,4,10)])
  have ps: "patch_stride p \<noteq> 0" using assms(1) by simp
  from Densification_pixel [OF ps assms(7,8,9,10,11), of exact Sx_ptr Sy_ptr I0_ptr I1_ptr U]
  obtain U' where "Densification_ParBody exact p (h p) stripe_sz Sx_ptr Sy_ptr I0_ptr I1_ptr rng U = Inr U'"
    "fst U' (i * w p + j) = map_option fst (dens_pixel exact p Sx_ptr Sy_ptr I0_ptr I1_ptr ?iw ?jw i j)"
    "snd U' (i * w p + j) = map_option snd (dens_pixel exact p Sx_ptr Sy_ptr I0_ptr I1_ptr ?iw ?jw i j)"
    by blast
  then show ?thesis
    by (simp add: dens_pixel_exact_Some [OF a b] wi wj dens_coef_exact [OF assms(5,6)])
qed

theorem densification_weighted_average_witness:
  "\<exists>U'. Densification_ParBody exact (DISOpticalFlowImpl\<lparr>w := 9, h := 9, ws := 1, hs := 1\<rparr>) 9 9
      (\<lambda>k. 7) (\<lambda>k. 2) (\<lambda>k. 0) (\<lambda>k. 3) (0, 1) (\<lambda>k. None, \<lambda>k. None) = Inr U' \<and>
      fst U' 29 = Some ((1 / 3 * 7) / (1 / 3)) \<and> snd U' 29 = Some ((1 / 3 * 2) / (1 / 3))"
proof -
  let ?p = "DISOpticalFlowImpl\<lparr>w := 9, h := 9, ws := 1, hs := 1\<rparr>"
  have h: "0 < patch_stride ?p" "patch_stride ?p \<le> patch_size ?p" "patch_size ?p \<le> h ?p"
    "patch_size ?p \<le> w ?p" "2 \<le> w ?p" "2 \<le> h ?p"
    "0 \<le> min (fst (0::int, 1::int) * 9) (h ?p)"
    "min (fst (0::int, 1::int) * 9) (h ?p) \<le> (3::int)" "(3::int) < min (snd (0::int, 1::int) * 9) (h ?p)"
    "(0::int) \<le> 2" "2 < w ?p"
    by (simp_all add: DISOpticalFlowImpl_def)
  have px: "pixel (\<lambda>k. 3) st a b = 3" "pixel (\<lambda>k. 0) st a b = 0" for st a b
    by (simp_all add: pixel_def)
  have "bilinear_sample (\<lambda>k. 3) st x y = 3" for st x y
    by (simp add: bilinear_sample_def Let_def px algebra_simps)
  then have c: "confidence ?p (\<lambda>k. 0) (\<lambda>k. 3) 3 2 7 2 = 1 / 3"
    by (simp add: confidence_def residual_def px)
  from densification_weighted_average [OF h, where Sx_ptr = "\<lambda>k. 7" and Sy_ptr = "\<lambda>k. 2"
      and ?I0_ptr = "\<lambda>k. 0" and ?I1_ptr = "\<lambda>k. 3" and U = "(\<lambda>k. None, \<lambda>k. None)"]
  show ?thesis
    using c by (simp add: DISOpticalFlowImpl_def window_patches_def covering_examples)
qed

text \<open>
  The claim C6 as stated fails: in an image of 11 rows with patches of size 8 and stride 4
  no patch covers row 9, so the average over the covering patches does not exist there; the
  code writes the displacement of the last (here the only) patch.
\<close>

theorem densification_uncovered_pixel:
  "spec_dense_flow (DISOpticalFlowImpl\<lparr>w := 8, h := 11, ws := 1, hs := 1\<rparr>)
      (\<lambda>k. 5) (\<lambda>k. 0) (\<lambda>k. 0) (\<lambda>k. 0) 9 0 = None \<and>
   flow_at (Densification_ParBody exact (DISOpticalFlowImpl\<lparr>w := 8, h := 11, ws := 1, hs := 1\<rparr>) 11 11
      (\<lambda>k. 5) (\<lambda>k. 0) (\<lambda>k. 0) (\<lambda>k. 0) (0, 1) (\<lambda>k. None, \<lambda>k. None)) 72 =
     Some (Some 5, Some 0)"
proof -
  let ?p = "DISOpticalFlowImpl\<lparr>w := 8, h := 11, ws := 1, hs := 1\<rparr>"
  have sp: "spec_dense_flow ?p (\<lambda>k. 5) (\<lambda>k. 0) (\<lambda>k. 0) (\<lambda>k. 0) 9 0 = None"
    by (simp add: spec_dense_flow_def DISOpticalFlowImpl_def covering_examples)
  have c: "dens_coef exact ?p (\<lambda>k. 0) (\<lambda>k. 0) 9 0 5 0 = 1"
    by (simp add: dens_coef_def dens_diff_def)
  have px: "dens_pixel exact ?p (\<lambda>k. 5) (\<lambda>k. 0) (\<lambda>k. 0) (\<lambda>k. 0) (0, 0) (0, 0) 9 0 = Some (5, 0)"
    using dens_pixel_exact_Some [where iwin = "(0, 0)" and jwin = "(0, 0)" and p = ?p
        and ?I0_ptr = "\<lambda>k. 0" and ?I1_ptr = "\<lambda>k. 0" and i = 9 and j = 0
        and Sx_ptr = "\<lambda>k. 5" and Sy_ptr = "\<lambda>k. 0"] c
    by simp
  have h: "patch_stride ?p \<noteq> 0" "0 \<le> min (fst (0::int, 1::int) * 11) (11::int)"
    "min (fst (0::int, 1::int) * 11) 11 \<le> (9::int)" "(9::int) < min (snd (0::int, 1::int) * 11) 11"
    "(0::int) \<le> 0" "0 < w ?p"
    by (simp_all add: DISOpticalFlowImpl_def)
  from Densification_pixel [OF h, of exact "\<lambda>k. 5" "\<lambda>k. 0" "\<lambda>k. 0" "\<lambda>k. 0" "(\<lambda>k. None, \<lambda>k. None)"]
  have "flow_at (Densification_ParBody exact ?p 11 11
      (\<lambda>k. 5) (\<lambda>k. 0) (\<lambda>k. 0) (\<lambda>k. 0) (0, 1) (\<lambda>k. None, \<lambda>k. None)) 72 = Some (Some 5, Some 0)"
    by (auto simp: flow_at_def DISOpticalFlowImpl_def sparse_window_examples sparse_window_single
        px [unfolded DISOpticalFlowImpl_def, simplified])
  with sp show ?thesis by blast
qed

text \<open>
  C7, as amended. In exact arithmetic, for a patch stride between 1 and the patch size and a
  patch size of at most \<open>h\<close> and \<open>w\<close>: when the pixel is covered in both directions and
  all the patches that cover it carry the same displacement \<open>(dx, dy)\<close>, the densified flow
  at the pixel is exactly \<open>(dx, dy)\<close>, whatever the residuals are.
\<close>

theorem densification_uniform_displacement:
  assumes "0 < patch_stride p" "patch_stride p \<le> patch_size p" "patch_size p \<le> h p" "patch_size p \<le> w p"
    and "0 \<le> min (fst rng * stripe_sz) (h p)" "min (fst rng * stripe_sz) (h p) \<le> i"
      "i < min (snd rng * stripe_sz) (h p)" "0 \<le> j" "j < w p"
    and "covering_patches (patch_size p) (patch_stride p) (h p) i \<noteq> {}"
      "covering_patches (patch_size p) (patch_stride p) (w p) j \<noteq> {}"
    and "\<forall>is\<in>covering_patches (patch_size p) (patch_stride p) (h p) i.
         \<forall>js\<in>covering_patches (patch_size p) (patch_stride p) (w p) j.
           Sx_ptr (is * ws p + js) = dx \<and> Sy_ptr (is * ws p + js) = dy"
  shows "\<exists>U'. Densification_ParBody exact p (h p) stripe_sz Sx_ptr Sy_ptr I0_ptr I1_ptr rng U = Inr U' \<and>
     fst U' (i * w p + j) = Some dx \<and> snd U' (i * w p + j) = Some dy"
proof -
  let ?iw = "sparse_window (patch_size p) (patch_stride p) (h p) i"
  let ?jw = "sparse_window (patch_size p) (patch_stride p) (w p) j"
  let ?PI = "covering_patches (patch_size p) (patch_stride p) (h p) i"
  let ?PJ = "covering_patches (patch_size p) (patch_stride p) (w p) j"
  let ?c = "\<lambda>is js. dens_coef exact p I0_ptr I1_ptr i j (Sx_ptr (is * ws p + js)) (Sy_ptr (is * ws p + js))"
  have i0: "0 \<le> i" using assms(5,6) by (rule order_trans)
  have a: "fst ?iw \<le> snd ?iw" by (rule sparse_window_nonempty [OF assms(3) i0])
  have b: "fst ?jw \<le> snd ?jw" by (rule sparse_window_nonempty [OF assms(4,8)])
  have wi: "{fst ?iw..snd ?iw} = ?PI"
    using sparse_window_patches [OF assms(1,2,3) i0] assms(10) by (simp add: window_patches_def)
  have wj: "{fst ?jw..snd ?jw} = ?PJ"
    using sparse_window_patches [OF assms(1,2,4,8)] assms(11) by (simp add: window_patches_def)
  have pos: "0 < (\<Sum>is\<in>?PI. \<Sum>js\<in>?PJ. ?c is js)"
    using dens_sum_coef_pos [OF a b, of p I0_ptr I1_ptr i j Sx_ptr Sy_ptr] by (simp add: wi wj)
  have x: "(\<Sum>is\<in>?PI. \<Sum>js\<in>?PJ. ?c is js * Sx_ptr (is * ws p + js)) = (\<Sum>is\<in>?PI. \<Sum>js\<in>?PJ. ?c is js) * dx"
    unfolding sum_distrib_right using assms(12) by (intro sum.cong refl) simp
  have y: "(\<Sum>is\<in>?PI. \<Sum>js\<in>?PJ. ?c is js * Sy_ptr (is * ws p + js)) = (\<Sum>is\<in>?PI. \<Sum>js\<in>?PJ. ?c is js) * dy"
    unfolding sum_distrib_right using assms(12) by (intro sum.cong refl) simp
  have ps: "patch_stride p \<noteq> 0" using assms(1) by simp
  from Densification_pixel [OF ps assms(5,6,7,8,9), of exact Sx_ptr Sy_ptr I0_ptr I1_ptr U]
  obtain U' where "Densification_ParBody exact p (h p) stripe_sz Sx_ptr Sy_ptr I0_ptr I1_ptr rng U = Inr U'"
    "fst U' (i * w p + j) = map_option fst (dens_pixel exact p Sx_ptr Sy_ptr I0_ptr I1_ptr ?iw ?jw i j)"
    "snd U' (i * w p + j) = map_option snd (dens_pixel exact p Sx_ptr Sy_ptr I0_ptr I1_ptr ?iw ?jw i j)"
    by blast
  then show ?thesis
    using pos by (simp add: dens_pixel_exact_Some [OF a b] wi wj x y)
qed

theorem densification_uniform_displacement_witness:
  "\<exists>U'. Densification_ParBody exact (DISOpticalFlowImpl\<lparr>w := 9, h := 9, ws := 1, hs := 1\<rparr>) 9 9
      (\<lambda>k. 7) (\<lambda>k. 2) (\<lambda>k. 0) (\<lambda>k. 3) (0, 1) (\<lambda>k. None, \<lambda>k. None) = Inr U' \<and>
      fst U' 29 = Some 7 \<and> snd U' 29 = Some 2"
proof -
  let ?p = "DISOpticalFlowImpl\<lparr>w := 9, h := 9, ws := 1, hs := 1\<rparr>"
  have h: "0 < patch_stride ?p" "patch_stride ?p \<le> patch_size ?p" "patch_size ?p \<le> h ?p"
    "patch_size ?p \<le> w ?p"
    "0 \<le> min (fst (0::int, 1::int) * 9) (h ?p)"
    "min (fst (0::int, 1::int) * 9) (h ?p) \<le> (3::int)" "(3::int) < min (snd (0::int, 1::int) * 9) (h ?p)"
    "(0::int) \<le> 2" "2 < w ?p"
    "covering_patches (patch_size ?p) (patch_stride ?p) (h ?p) 3 \<noteq> {}"
    "covering_patches (patch_size ?p) (patch_stride ?p) (w ?p) 2 \<noteq> {}"
    "\<forall>is\<in>covering_patches (patch_size ?p) (patch_stride ?p) (h ?p) 3.
       \<forall>js\<in>covering_patches (patch_size ?p) (patch_stride ?p) (w ?p) 2.
         (\<lambda>k. 7 :: real) (is * ws ?p + js) = 7 \<and> (\<lambda>k. 2 :: real) (is * ws ?p + js) = 2"
    by (simp_all add: DISOpticalFlowImpl_def covering_examples)
  from densification_uniform_displacement [OF h, where ?I0_ptr = "\<lambda>k. 0" and ?I1_ptr = "\<lambda>k. 3" and U = "(\<lambda>k. None, \<lambda>k. None)"]
  show ?thesis by (simp add: DISOpticalFlowImpl_def)
qed

section \<open>Single-precision rounding\<close>

lemma pow2_pos [simp]: "0 < pow2 e"
  by (simp add: pow2_def)

lemma pow2_nz [simp]: "pow2 e \<noteq> 0"
  using pow2_pos [of e] by (simp del: pow2_pos)

lemma pow2_add: "pow2 (a + b) = pow2 a * pow2 b"
proof -
  have "pow2 e = 2 powi e" for e
    unfolding pow2_def power_int_def by (simp add: inverse_eq_divide power_one_over)
  then show ?thesis by (simp add: power_int_add)
qed

lemma pow2_nonneg: "0 \<le> e \<Longrightarrow> pow2 e = real_of_int (2 ^ nat e)"
  by (simp add: pow2_def)

lemma pow2_mono: "a \<le> b \<Longrightarrow> pow2 a \<le> pow2 b"
proof -
  assume "a \<le> b"
  then have "pow2 b = pow2 a * pow2 (b - a)" "0 \<le> b - a" using pow2_add [of a "b - a"] by simp_all
  moreover have "1 \<le> pow2 (b - a)" using \<open>0 \<le> b - a\<close> by (simp add: pow2_def)
  then have "pow2 a * 1 \<le> pow2 a * pow2 (b - a)" by (intro mult_left_mono) (simp_all add: less_imp_le)
  ultimately show ?thesis by simp
qed

lemma rne_of_int [simp]: "rne (real_of_int k) = k"
  by (simp add: rne_def)

lemma ulp_exp_ge: "e \<le> ulp_exp n e a"
proof (induction n arbitrary: e)
  case 0
  show ?case by simp
next
  case (Suc n)
  have "e + 1 \<le> ulp_exp n (e + 1) a" by (rule Suc.IH)
  then show ?case by simp
qed

lemma ulp_exp_le: "a < pow2 (m + 24) \<Longrightarrow> e \<le> m \<Longrightarrow> ulp_exp n e a \<le> m"
proof (induction n arbitrary: e)
  case 0
  then show ?case by simp
next
  case (Suc n)
  show ?case
  proof (cases "a < pow2 (e + 24)")
    case True
    then show ?thesis using Suc.prems by simp
  next
    case False
    have "e \<noteq> m" using False Suc.prems(1) by auto
    then have "e + 1 \<le> m" using Suc.prems(2) by simp
    then show ?thesis using False Suc.IH [OF Suc.prems(1)] by simp
  qed
qed

lemma ulp_exp_eq:
  "e \<le> m \<Longrightarrow> m \<le> e + int n \<Longrightarrow> pow2 (m + 23) \<le> a \<Longrightarrow> a < pow2 (m + 24) \<Longrightarrow> ulp_exp n e a = m"
proof (induction n arbitrary: e)
  case 0
  then show ?case by simp
next
  case (Suc n)
  show ?case
  proof (cases "e = m")
    case True
    then show ?thesis using Suc.prems by simp
  next
    case False
    then have l: "e + 1 \<le> m" using Suc.prems(1) by simp
    then have "pow2 (e + 24) \<le> pow2 (m + 23)" by (intro pow2_mono) simp
    then have "\<not> a < pow2 (e + 24)" using Suc.prems(3) by simp
    moreover have "ulp_exp n (e + 1) a = m"
      using Suc.prems by (intro Suc.IH l) simp_all
    ultimately show ?thesis by simp
  qed
qed

lemma binary32_normal:
  assumes "- 149 \<le> m" "m \<le> 104" "pow2 (m + 23) \<le> \<bar>x\<bar>" "\<bar>x\<bar> < pow2 (m + 24)"
  shows "binary32 x = real_of_int (rne (x / pow2 m)) * pow2 m"
proof -
  have "ulp_exp 253 (- 149) \<bar>x\<bar> = m"
    using assms by (intro ulp_exp_eq) simp_all
  then show ?thesis by (simp add: binary32_def)
qed

lemma binary32_exact:
  assumes "x = real_of_int k * pow2 m" "\<bar>x\<bar> < pow2 (m + 24)" "- 149 \<le> m"
  shows "binary32 x = x"
proof -
  define e where "e = ulp_exp 253 (- 149) \<bar>x\<bar>"
  have e: "e \<le> m" "- 149 \<le> e"
    unfolding e_def using assms(2,3) ulp_exp_ge [of "- 149" 253 "\<bar>x\<bar>"] by (simp_all add: ulp_exp_le)
  have "pow2 m = pow2 e * pow2 (m - e)" using pow2_add [of e "m - e"] by simp
  also have "pow2 (m - e) = real_of_int (2 ^ nat (m - e))" using e by (intro pow2_nonneg) simp
  finally have "x / pow2 e = real_of_int (k * 2 ^ nat (m - e))"
    using assms(1) by simp
  then have "rne (x / pow2 e) = k * 2 ^ nat (m - e)" by (simp only: rne_of_int)
  then have "binary32 x = real_of_int (k * 2 ^ nat (m - e)) * pow2 e"
    by (simp add: binary32_def e_def [symmetric])
  also have "\<dots> = x / pow2 e * pow2 e"
    by (simp only: \<open>x / pow2 e = real_of_int (k * 2 ^ nat (m - e))\<close>)
  also have "\<dots> = x" by simp
  finally show ?thesis .
qed

lemma binary32_0 [simp]: "binary32 0 = 0"
  by (rule binary32_exact [where k = 0 and m = 0]) simp_all

lemma binary32_int: "\<bar>k\<bar> < 16777216 \<Longrightarrow> binary32 (real_of_int k) = real_of_int k"
proof (rule binary32_exact [where k = k and m = 0])
  assume "\<bar>k\<bar> < 16777216"
  then have "real_of_int \<bar>k\<bar> < 16777216" by linarith
  then show "\<bar>real_of_int k\<bar> < pow2 (0 + 24)" by (simp add: pow2_def)
qed (simp_all add: pow2_def)

lemma binary32_numeral [simp]:
  "numeral n < (16777216::int) \<Longrightarrow> binary32 (numeral n) = numeral n"
  "numeral n < (16777216::int) \<Longrightarrow> binary32 (- numeral n) = - numeral n"
  "binary32 1 = 1"
  using binary32_int [of "numeral n"] binary32_int [of "- numeral n"] binary32_int [of 1] by simp_all

lemma binary32_frac:
  assumes "numeral a < (16777216::int)" "n \<le> 100"
  shows "binary32 (numeral a / 2 ^ n) = numeral a / 2 ^ n"
    and "binary32 (1 / 2 ^ n) = 1 / 2 ^ n"
proof -
  have p: "pow2 (- int n) = 1 / 2 ^ n" by (simp add: pow2_def)
  have "pow2 24 = 16777216" by (simp add: pow2_def)
  moreover have "pow2 (- int n + 24) = pow2 (- int n) * pow2 24" by (rule pow2_add)
  ultimately have q: "pow2 (- int n + 24) = 16777216 / 2 ^ n" by (simp only: p times_divide_eq_left mult_1)
  have "real_of_int (numeral a) < 16777216" using assms(1) by linarith
  then have a: "(numeral a :: real) < 16777216" by simp
  show "binary32 (numeral a / 2 ^ n) = numeral a / 2 ^ n"
  proof (rule binary32_exact [where k = "numeral a" and m = "- int n"])
    show "numeral a / 2 ^ n = real_of_int (numeral a) * pow2 (- int n)" by (simp add: p)
    show "\<bar>numeral a / 2 ^ n\<bar> < pow2 (- int n + 24)"
      unfolding q using a by (simp add: divide_strict_right_mono)
    show "- 149 \<le> - int n" using assms(2) by simp
  qed
  show "binary32 (1 / 2 ^ n) = 1 / 2 ^ n"
  proof (rule binary32_exact [where k = 1 and m = "- int n"])
    show "1 / 2 ^ n = real_of_int 1 * pow2 (- int n)" by (simp add: p)
    show "\<bar>1 / 2 ^ n\<bar> < pow2 (- int n + 24)"
      unfolding q by (simp add: divide_strict_right_mono)
    show "- 149 \<le> - int n" using assms(2) by simp
  qed
qed

lemma pow2_numerals:
  "(2::real) ^ 1 = 2" "(2::real) ^ 2 = 4" "(2::real) ^ 3 = 8" "(2::real) ^ 4 = 16"
  "(2::real) ^ 5 = 32" "(2::real) ^ 6 = 64"
  by simp_all

lemma binary32_dyadic [simp]:
  assumes "numeral a < (16777216::int)"
  shows "binary32 (numeral a / 2) = numeral a / 2" "binary32 (numeral a / 4) = numeral a / 4"
    "binary32 (numeral a / 8) = numeral a / 8" "binary32 (numeral a / 16) = numeral a / 16"
    "binary32 (numeral a / 32) = numeral a / 32" "binary32 (numeral a / 64) = numeral a / 64"
  using binary32_frac(1) [OF assms, of 1] binary32_frac(1) [OF assms, of 2]
    binary32_frac(1) [OF assms, of 3] binary32_frac(1) [OF assms, of 4]
    binary32_frac(1) [OF assms, of 5] binary32_frac(1) [OF assms, of 6]
  unfolding pow2_numerals by linarith+

lemma binary32_unit_fraction [simp]:
  "binary32 (1 / 2) = 1 / 2" "binary32 (1 / 4) = 1 / 4" "binary32 (1 / 8) = 1 / 8"
  "binary32 (1 / 16) = 1 / 16" "binary32 (1 / 32) = 1 / 32" "binary32 (1 / 64) = 1 / 64"
  using binary32_frac(2) [of Num.One 1] binary32_frac(2) [of Num.One 2]
    binary32_frac(2) [of Num.One 3] binary32_frac(2) [of Num.One 4]
    binary32_frac(2) [of Num.One 5] binary32_frac(2) [of Num.One 6]
  unfolding pow2_numerals by simp_all

subsection \<open>The rounding is monotone\<close>











section \<open>The vectorised path and the scalar path\<close>

text \<open>
  C5, as amended. For patch size 8 the vectorised paths of \<open>processPatch\<close>,
  \<open>computeSSD\<close> and \<open>computeSSDMeanNorm\<close> compute the same values as the scalar paths in
  exact arithmetic, on every input and for either order of the final reduction: they add
  the same 64 terms, in another order.
\<close>

theorem simd_path_exact:
  "processPatch_simd exact tgt I0_ptr I1_ptr I0x_ptr I0y_ptr I0_stride I1_stride w00 w01 w10 w11 =
     processPatch_scalar exact I0_ptr I1_ptr I0x_ptr I0y_ptr I0_stride I1_stride w00 w01 w10 w11 8 \<and>
   computeSSD_simd exact tgt I0_ptr I1_ptr I0_stride I1_stride w00 w01 w10 w11 =
     computeSSD_scalar exact I0_ptr I1_ptr I0_stride I1_stride w00 w01 w10 w11 8 \<and>
   meanNorm_sums_simd exact tgt I0_ptr I1_ptr I0_stride I1_stride w00 w01 w10 w11 =
     meanNorm_sums_scalar exact I0_ptr I1_ptr I0_stride I1_stride w00 w01 w10 w11 8 \<and>
   computeSSDMeanNorm exact (Some tgt) I0_ptr I1_ptr I0_stride I1_stride w00 w01 w10 w11 8 =
     computeSSDMeanNorm exact None I0_ptr I1_ptr I0_stride I1_stride w00 w01 w10 w11 8"
  by (simp add: processPatch_simd_exact processPatch_scalar_exact computeSSD_simd_exact
      computeSSD_scalar_exact meanNorm_sums_simd_exact meanNorm_sums_scalar_exact computeSSDMeanNorm_def)

lemma upt8: "[0..<8] = [0, 1, 2, 3, 4, 5, 6, 7::nat]"
  by code_simp

lemma binary32_tie: "binary32 (24969601 / 64) = 390150"
proof -
  have "binary32 (24969601 / 64) = real_of_int (rne ((24969601 / 64) / pow2 (- 5))) * pow2 (- 5)"
    by (rule binary32_normal) (simp_all add: pow2_def)
  also have "(24969601 / 64) / pow2 (- 5) = (24969601 / 2 :: real)" by (simp add: pow2_def)
  also have "rne (24969601 / 2) = 12484800" by (simp add: rne_def)
  finally show ?thesis by (simp add: pow2_def)
qed

lemma ex_scalar: "computeSSD_scalar binary32 ex_I0 ex_I1 8 9 (1 / 8) (7 / 8) 0 0 8 = 390150"
  by (simp add: computeSSD_scalar_def upt8 patch_diff_def fadd_def fsub_def fmul_def fcvt_def
      ex_I0_def ex_I1_def Let_def binary32_tie)


lemma funpow8: "(f ^^ 8) x = f (f (f (f (f (f (f (f x)))))))"
  by (simp add: eval_nat_numeral)

lemma ex_simd: "computeSSD_simd binary32 tgt ex_I0 ex_I1 8 9 (1 / 8) (7 / 8) 0 0 = 12484801 / 32"
  by (cases tgt)
     (simp_all add: computeSSD_simd_def funpow8 computeSSD_row_def
      HAL_INIT_BILINEAR_8x8_PATCH_EXTRACTION_def HAL_PROCESS_BILINEAR_8x8_PATCH_EXTRACTION_def
      HAL_BILINEAR_8x8_PATCH_EXTRACTION_NEXT_ROW_def bilinear_x4_def load_u8x4_def v_setall_f32_def
      fadd_def fsub_def fmul_def fcvt_def ex_I0_def ex_I1_def Let_def)

text \<open>
  The claim C5 as stated fails in single precision: on the example patches the scalar
  path of \<open>computeSSD\<close> returns 390150 (the two terms 1/64 of row 3 are each rounded
  away), the vectorised path returns 390150 + 1/32 (it adds the two terms first).
\<close>

theorem simd_path_rounding_counterexample:
  "computeSSD binary32 None ex_I0 ex_I1 8 9 (1 / 8) (7 / 8) 0 0 8 = 390150 \<and>
   computeSSD binary32 (Some SSE2) ex_I0 ex_I1 8 9 (1 / 8) (7 / 8) 0 0 8 = 12484801 / 32 \<and>
   computeSSD binary32 (Some NEON) ex_I0 ex_I1 8 9 (1 / 8) (7 / 8) 0 0 8 = 12484801 / 32"
  by (simp add: computeSSD_def ex_scalar ex_simd)

subsection \<open>The sums in single precision\<close>

lemma binary32_sq_tie: "binary32 (16785409 / 1024) = 16392"
proof -
  have "binary32 (16785409 / 1024) = real_of_int (rne ((16785409 / 1024) / pow2 (- 9))) * pow2 (- 9)"
    by (rule binary32_normal) (simp_all add: pow2_def)
  also have "(16785409 / 1024) / pow2 (- 9) = (16785409 / 2 :: real)" by (simp add: pow2_def)
  also have "rne (16785409 / 2) = 8392704" by (simp add: rne_def)
  finally show ?thesis by (simp add: pow2_def)
qed

lemma upt1: "[0..<1] = [0::nat]"
  by simp

lemma pixel_scalar:
  "computeSSD_scalar binary32 (\<lambda>k. 119) (\<lambda>k. if k = 1 then 255 else 0) 1 2 (1 / 32) (31 / 32) 0 0 1 = 16392"
  "processPatch_scalar binary32 (\<lambda>k. 119) (\<lambda>k. if k = 1 then 255 else 0) (\<lambda>k. 1) (\<lambda>k. 0)
     1 2 (1 / 32) (31 / 32) 0 0 1 = (16392, 4097 / 32, 0)"
  by (simp_all add: computeSSD_scalar_def processPatch_scalar_def upt1 patch_diff_def
      fadd_def fsub_def fmul_def fcvt_def Let_def binary32_sq_tie)

lemma pixel_exact:
  "(\<Sum>i<nat 1. \<Sum>j<nat 1. (bilinear_residual (\<lambda>k. 119) (\<lambda>k. if k = 1 then 255 else 0) 1 2
       (1 / 32) (31 / 32) 0 0 (int i) (int j))\<^sup>2) = 16785409 / 1024"
  by (simp add: bilinear_residual_def pixel_def power2_eq_square)

lemma ex_exact:
  "(\<Sum>i<nat 8. \<Sum>j<nat 8. (bilinear_residual ex_I0 ex_I1 8 9 (1 / 8) (7 / 8) 0 0 (int i) (int j))\<^sup>2) =
     12484801 / 32"
  unfolding computeSSD_scalar_exact [symmetric]
  by (simp add: computeSSD_scalar_def upt8 patch_diff_def ex_I0_def ex_I1_def Let_def)

text \<open>
  The claim C3 as stated fails in single precision. For a patch of one pixel with
  \<open>I0 = 119\<close>, \<open>I1 = 0, 255\<close> and the weights \<open>1/32, 31/32, 0, 0\<close> the residual is
  \<open>4097/32\<close> and its square \<open>16392 + 1/1024\<close> is not a float: \<open>computeSSD\<close> returns
  16392 on every path (a patch size other than 8 takes the scalar loop). For the 8 by 8
  example patches the scalar loop returns 390150 and the sum of the squared residuals is
  \<open>390150 + 1/32\<close>.
\<close>

theorem computeSSD_rounding_counterexample:
  "(\<forall>simd. computeSSD binary32 simd (\<lambda>k. 119) (\<lambda>k. if k = 1 then 255 else 0) 1 2
       (1 / 32) (31 / 32) 0 0 1 = 16392) \<and>
   (\<Sum>i<nat 1. \<Sum>j<nat 1. (bilinear_residual (\<lambda>k. 119) (\<lambda>k. if k = 1 then 255 else 0) 1 2
       (1 / 32) (31 / 32) 0 0 (int i) (int j))\<^sup>2) = 16785409 / 1024 \<and>
   computeSSD binary32 None ex_I0 ex_I1 8 9 (1 / 8) (7 / 8) 0 0 8 = 390150 \<and>
   (\<Sum>i<nat 8. \<Sum>j<nat 8. (bilinear_residual ex_I0 ex_I1 8 9 (1 / 8) (7 / 8) 0 0 (int i) (int j))\<^sup>2) =
     12484801 / 32"
proof -
  have "computeSSD binary32 simd (\<lambda>k. 119) (\<lambda>k. if k = 1 then 255 else 0) 1 2
       (1 / 32) (31 / 32) 0 0 1 = 16392" for simd
    by (cases simd) (simp_all add: computeSSD_def pixel_scalar)
  moreover have "computeSSD binary32 None ex_I0 ex_I1 8 9 (1 / 8) (7 / 8) 0 0 8 = 390150"
    by (simp add: computeSSD_def ex_scalar)
  ultimately show ?thesis using pixel_exact ex_exact by blast
qed

text \<open>
  The claim C4 as stated fails in single precision, on the same patch of one pixel with the
  gradients \<open>I0x = 1\<close> and \<open>I0y = 0\<close>: \<open>processPatch\<close> returns 16392, and the sum of the
  squared residuals is \<open>16392 + 1/1024\<close>.
\<close>

theorem processPatch_rounding_counterexample:
  "(\<forall>simd. processPatch binary32 simd (\<lambda>k. 119) (\<lambda>k. if k = 1 then 255 else 0) (\<lambda>k. 1) (\<lambda>k. 0)
       1 2 (1 / 32) (31 / 32) 0 0 1 = (16392, 4097 / 32, 0)) \<and>
   (\<Sum>i<nat 1. \<Sum>j<nat 1. (bilinear_residual (\<lambda>k. 119) (\<lambda>k. if k = 1 then 255 else 0) 1 2
       (1 / 32) (31 / 32) 0 0 (int i) (int j))\<^sup>2) = 16785409 / 1024"
proof -
  have "processPatch binary32 simd (\<lambda>k. 119) (\<lambda>k. if k = 1 then 255 else 0) (\<lambda>k. 1) (\<lambda>k. 0)
       1 2 (1 / 32) (31 / 32) 0 0 1 = (16392, 4097 / 32, 0)" for simd
    by (cases simd) (simp_all add: processPatch_def pixel_scalar)
  then show ?thesis using pixel_exact by blast
qed

section \<open>The densification in single precision\<close>

lemma EPS_binary32: "EPS binary32 = 8589935 / 8589934592"
proof -
  have "binary32 (1 / 1000) = real_of_int (rne ((1 / 1000) / pow2 (- 33))) * pow2 (- 33)"
    by (rule binary32_normal) (simp_all add: pow2_def)
  also have "(1 / 1000) / pow2 (- 33) = (8589934592 / 1000 :: real)" by (simp add: pow2_def)
  also have "rne (8589934592 / 1000) = 8589935" by (simp add: rne_def)
  finally show ?thesis by (simp add: pow2_def EPS_def)
qed

lemma binary32_third: "binary32 (1 / 3) = 11184811 / 33554432"
proof -
  have "binary32 (1 / 3) = real_of_int (rne ((1 / 3) / pow2 (- 25))) * pow2 (- 25)"
    by (rule binary32_normal) (simp_all add: pow2_def)
  also have "(1 / 3) / pow2 (- 25) = (33554432 / 3 :: real)" by (simp add: pow2_def)
  also have "rne (33554432 / 3) = 11184811" by (simp add: rne_def)
  finally show ?thesis by (simp add: pow2_def)
qed

lemma binary32_third_times_7: "binary32 (78293677 / 33554432) = 4893355 / 2097152"
proof -
  have "binary32 (78293677 / 33554432) =
      real_of_int (rne ((78293677 / 33554432) / pow2 (- 22))) * pow2 (- 22)"
    by (rule binary32_normal) (simp_all add: pow2_def)
  also have "(78293677 / 33554432) / pow2 (- 22) = (78293677 / 8 :: real)" by (simp add: pow2_def)
  also have "rne (78293677 / 8) = 9786710" by (simp add: rne_def)
  finally show ?thesis by (simp add: pow2_def)
qed

lemma binary32_quotient: "binary32 (78293680 / 11184811) = 14680065 / 2097152"
proof -
  have "binary32 (78293680 / 11184811) =
      real_of_int (rne ((78293680 / 11184811) / pow2 (- 21))) * pow2 (- 21)"
    by (rule binary32_normal) (simp_all add: pow2_def)
  also have "(78293680 / 11184811) / pow2 (- 21) = (164193747599360 / 11184811 :: real)"
    by (simp add: pow2_def)
  also have "rne (164193747599360 / 11184811) = 14680065" by (simp add: rne_def)
  finally show ?thesis by (simp add: pow2_def)
qed

lemma binary32_representable:
  "binary32 (4893355 / 2097152) = 4893355 / 2097152"
  "binary32 (11184811 / 33554432) = 11184811 / 33554432"
proof -
  show "binary32 (4893355 / 2097152) = 4893355 / 2097152"
    by (rule binary32_exact [where k = 4893355 and m = "- 21"]) (simp_all add: pow2_def)
  show "binary32 (11184811 / 33554432) = 11184811 / 33554432"
    by (rule binary32_exact [where k = 11184811 and m = "- 25"]) (simp_all add: pow2_def)
qed

lemma binary32_clamp_9: "binary32 (68710886801 / 8589934592) = 16775119 / 2097152"
proof -
  have "binary32 (68710886801 / 8589934592) =
      real_of_int (rne ((68710886801 / 8589934592) / pow2 (- 21))) * pow2 (- 21)"
    by (rule binary32_normal) (simp_all add: pow2_def)
  also have "(68710886801 / 8589934592) / pow2 (- 21) = (68710886801 / 4096 :: real)"
    by (simp add: pow2_def)
  also have "rne (68710886801 / 4096) = 16775119" by (simp add: rne_def)
  finally show ?thesis by (simp add: pow2_def)
qed

lemma binary32_clamp_40000: "binary32 (343588785155473 / 8589934592) = 39999"
proof -
  have "binary32 (343588785155473 / 8589934592) =
      real_of_int (rne ((343588785155473 / 8589934592) / pow2 (- 8))) * pow2 (- 8)"
    by (rule binary32_normal) (simp_all add: pow2_def)
  also have "(343588785155473 / 8589934592) / pow2 (- 8) = (343588785155473 / 33554432 :: real)"
    by (simp add: pow2_def)
  also have "rne (343588785155473 / 33554432) = 10239744" by (simp add: rne_def)
  finally show ?thesis by (simp add: pow2_def)
qed

lemma sample_position_9: "sample_position binary32 9 0 7 = 7" "sample_position binary32 9 0 0 = 0"
  by (simp_all add: sample_position_def fadd_def fsub_def fcvt_def EPS_binary32 binary32_clamp_9)

lemma EPS_exact: "EPS exact = 1 / 1000"
  by (simp add: EPS_def exact_def)

lemma c_trunc_small:
  "c_trunc (- (1 / 1000)) = 0" "c_trunc (16775119 / 2097152) = 7" "c_trunc 39999 = 39999"
  "c_trunc 7 = 7" "c_trunc 0 = 0"
proof -
  have "\<lceil>- (1 / 1000 :: real)\<rceil> = 0" by (rule ceiling_unique) simp_all
  then show "c_trunc (- (1 / 1000)) = 0" by (simp add: c_trunc_def)
  have "\<lfloor>16775119 / 2097152 :: real\<rfloor> = 7" by (rule floor_unique) simp_all
  then show "c_trunc (16775119 / 2097152) = 7" by (simp add: c_trunc_def)
qed (simp_all add: c_trunc_def)

lemma covering_single: "covering_patches 8 4 9 0 = {0}"
  by (auto simp: covering_patches_def patch_covers_def signed_divide_int_def)

text \<open>
  C10 fails on the code. With \<open>w = 1\<close> and \<open>h = 1\<close> the upper bound of the clamp,
  \<open>w - 1 - EPS\<close>, is negative, the conversion to \<open>int\<close> gives 0, and \<open>i_u = j_u = 1\<close> lie
  outside the image, in any arithmetic. In single precision \<open>w - 1.0f - EPS\<close> is rounded
  to \<open>w - 1\<close> when \<open>w\<close> is large: for \<open>w = 40000\<close> and \<open>h = 9\<close> the pixel in the last row and
  the last column, with displacement zero, has \<open>j_l = 39999\<close> and \<open>j_u = 40000 = w\<close>, and
  \<open>I1_ptr[i_u * w + j_u]\<close> is read one element past the end of the image.
\<close>

theorem sample_indices_out_of_bounds:
  "sample_indices exact (DISOpticalFlowImpl\<lparr>patch_size := 1, patch_stride := 1, w := 1, h := 1\<rparr>) 0 0 0 0 =
     (0, 1, 0, 1) \<and>
   sample_indices binary32 (DISOpticalFlowImpl\<lparr>w := 40000, h := 9\<rparr>) 8 39999 0 0 = (7, 8, 39999, 40000)"
  by (simp add: sample_indices_def sample_position_def fadd_def fsub_def fcvt_def EPS_binary32
      binary32_clamp_40000 binary32_clamp_9 DISOpticalFlowImpl_def Let_def c_trunc_small exact_def
      EPS_exact)

text \<open>
  The claim C7 as stated fails in single precision: one patch covers the pixel \<open>(0, 0)\<close>,
  its displacement is \<open>(7, 0)\<close>, its residual is 3, and the flow written is
  \<open>(7.000000476837158, 0)\<close>: the weight 1/3 is rounded, and so is its product with 7.
\<close>

theorem densification_rounding_counterexample:
  "covering_patches 8 4 9 0 = {0} \<and>
   flow_at (Densification_ParBody binary32 (DISOpticalFlowImpl\<lparr>w := 9, h := 9, ws := 1, hs := 1\<rparr>) 9 9
      (\<lambda>k. 7) (\<lambda>k. 0) (\<lambda>k. 0) (\<lambda>k. if k = 7 then 3 else 0) (0, 1) (\<lambda>k. None, \<lambda>k. None)) 0 =
     Some (Some (14680065 / 2097152), Some 0)"
proof -
  let ?p = "DISOpticalFlowImpl\<lparr>w := 9, h := 9, ws := 1, hs := 1\<rparr>"
  have px: "dens_pixel binary32 ?p (\<lambda>k. 7) (\<lambda>k. 0) (\<lambda>k. 0) (\<lambda>k. if k = 7 then 3 else 0) (0, 0) (0, 0) 0 0 =
      Some (14680065 / 2097152, 0)"
    by (simp add: dens_pixel_def dens_sums_def dens_coef_def dens_diff_def upto_0_0 Let_def
        DISOpticalFlowImpl_def sample_position_9 c_trunc_small fadd_def fsub_def fmul_def fdiv_def fcvt_def
        binary32_third binary32_third_times_7 binary32_quotient binary32_representable)
  have h: "patch_stride ?p \<noteq> 0" "0 \<le> min (fst (0::int, 1::int) * 9) (9::int)"
    "min (fst (0::int, 1::int) * 9) 9 \<le> (0::int)" "(0::int) < min (snd (0::int, 1::int) * 9) 9"
    "(0::int) \<le> 0" "0 < w ?p"
    by (simp_all add: DISOpticalFlowImpl_def)
  from Densification_pixel [OF h, of binary32 "\<lambda>k. 7" "\<lambda>k. 0" "\<lambda>k. 0" "\<lambda>k. if k = 7 then 3 else 0"
      "(\<lambda>k. None, \<lambda>k. None)"]
  have "flow_at (Densification_ParBody binary32 ?p 9 9
      (\<lambda>k. 7) (\<lambda>k. 0) (\<lambda>k. 0) (\<lambda>k. if k = 7 then 3 else 0) (0, 1) (\<lambda>k. None, \<lambda>k. None)) 0 =
     Some (Some (14680065 / 2097152), Some 0)"
    by (auto simp: flow_at_def DISOpticalFlowImpl_def sparse_window_single px [unfolded DISOpticalFlowImpl_def, simplified])
  with covering_single show ?thesis by blast
qed

section \<open>The total weight of the densification\<close>






















end
